theory Spec2Isabelle
  imports Complex_Main
begin

section \<open>Strings: the helpers of gen.go\<close>

text \<open>
  Go strings are byte sequences and so are HOL strings. The case functions of package
  \<^verbatim>\<open>unicode\<close> and \<^verbatim>\<open>strings.ToLower\<close> are modelled on the ASCII range: a byte
  outside \<^verbatim>\<open>A-Z\<close> / \<^verbatim>\<open>a-z\<close> is left as it is. The model is exact for ASCII
  tokens and identifiers.
\<close>

definition upperLetters :: string where
  "upperLetters = ''ABCDEFGHIJKLMNOPQRSTUVWXYZ''"

definition lowerLetters :: string where
  "lowerLetters = ''abcdefghijklmnopqrstuvwxyz''"

definition isLowerChar :: "char \<Rightarrow> bool" where
  "isLowerChar c = (c \<in> set lowerLetters)"

definition toLowerChar :: "char \<Rightarrow> char" where
  "toLowerChar c = (case map_of (zip upperLetters lowerLetters) c of Some l \<Rightarrow> l | None \<Rightarrow> c)"

definition toUpperChar :: "char \<Rightarrow> char" where
  "toUpperChar c = (case map_of (zip lowerLetters upperLetters) c of Some u \<Rightarrow> u | None \<Rightarrow> c)"

text \<open>\<^verbatim>\<open>strings.ToLower\<close>.\<close>

definition toLower :: "string \<Rightarrow> string" where
  "toLower s = map toLowerChar s"

text \<open>
  \<^verbatim>\<open>strings.Split(s, sep)\<close> for a one-byte separator: the result is never empty, and the
  empty string splits into one empty component.
\<close>

fun splitOn :: "char \<Rightarrow> string \<Rightarrow> string list" where
  "splitOn c [] = [[]]"
| "splitOn c (x # xs) =
     (if x = c then [] # splitOn c xs
      else (case splitOn c xs of [] \<Rightarrow> [[x]] | w # ws \<Rightarrow> (x # w) # ws))"

text \<open>
  \<^verbatim>\<open>Title\<close>: drops leading dollar signs, then upper-cases the first character only.
\<close>

fun Title :: "string \<Rightarrow> string" where
  "Title [] = []"
| "Title (c # cs) = (if c = CHR ''$'' then Title cs else toUpperChar c # cs)"

text \<open>
  \<^verbatim>\<open>camel\<close>: lower-cases the characters before the first lower-case one and keeps the
  rest from that character on.
\<close>

fun camel :: "string \<Rightarrow> string" where
  "camel [] = []"
| "camel (r # rs) = (if isLowerChar r then r # rs else toLowerChar r # camel rs)"

section \<open>Errors\<close>

text \<open>
  A failed \<^verbatim>\<open>contract.Assert\<close> and a \<^verbatim>\<open>panic\<close> abort the run; an \<^verbatim>\<open>error\<close> returned by
  a generator function is a value of its own.
\<close>

datatype error =
    AssertionFailure
  | Panic string
  | UnsupportedValue

section \<open>Token resolver\<close>

text \<open>\<^verbatim>\<open>tokenToModule\<close> of gen.go: the middle one of exactly three components.\<close>

definition tokenToModule :: "string \<Rightarrow> error + string" where
  "tokenToModule tok =
     (let components = splitOn CHR '':'' tok in
      if length components = 3 then Inr (components ! 1) else Inl AssertionFailure)"

text \<open>
  Modelled from the spec: the method \<^verbatim>\<open>TokenToModule\<close> of \<^verbatim>\<open>schema.Package\<close> is called by
  \<^verbatim>\<open>tokenToPackage\<close> and is not part of the sources at hand. The specification of the token
  resolver says that the token is split, that its module path is the component looked up
  in the overrides, and that a token which does not have exactly three components fails
  fatally.
\<close>

definition Package_TokenToModule :: "string \<Rightarrow> error + string" where
  "Package_TokenToModule tok =
     (let components = splitOn CHR '':'' tok in
      if length components = 3 then Inr (components ! 1) else Inl AssertionFailure)"

text \<open>
  \<^verbatim>\<open>tokenToPackage\<close>: the overrides are the map \<^verbatim>\<open>ModuleToPackage\<close>; the result is
  lower-cased after the override has been applied.
\<close>

definition tokenToPackage :: "(string \<rightharpoonup> string) \<Rightarrow> string \<Rightarrow> error + string" where
  "tokenToPackage overrides tok =
     (case Package_TokenToModule tok of
        Inl e \<Rightarrow> Inl e
      | Inr m \<Rightarrow>
          (let mod' = (case overrides m of Some override \<Rightarrow> override | None \<Rightarrow> m)
           in Inr (toLower mod')))"

section \<open>Schema model\<close>

text \<open>
  The types of package \<^verbatim>\<open>schema\<close> that gen.go switches on. A package is compared by
  pointer in the source and by value here. Schemas may be cyclic, so an object type carries
  its token and its package, and its properties are looked up in a table of the objects
  (\<open>objectTable\<close>). \<open>importFails\<close> says that \<^verbatim>\<open>ImportLanguages\<close> returns an error for the
  package, \<open>moduleToPackage\<close> is the \<^verbatim>\<open>ModuleToPackage\<close> of its Go package info.
\<close>

record schemaPackage =
  pkgName :: string
  importFails :: bool
  moduleToPackage :: "(string \<times> string) list"

text \<open>
  The second argument of \<open>ResourceType\<close> is the field \<^verbatim>\<open>Resource\<close> (\<open>None\<close> when nil),
  holding the resource's field \<^verbatim>\<open>Package\<close> (\<open>None\<close> when nil).
\<close>

datatype schemaType =
    BoolType
  | IntType
  | NumberType
  | StringType
  | ArchiveType
  | AssetType
  | JSONType
  | AnyType
  | ArrayType schemaType
  | MapType schemaType
  | ObjectType string "schemaPackage option"
  | ResourceType string "schemaPackage option option"
  | TokenType string "schemaType option"
  | UnionType "schemaType list"
  | EnumType string schemaType

section \<open>Properties, resources, functions, packages\<close>

text \<open>
  A value of type \<^verbatim>\<open>interface{}\<close> as the schema holds it for constants and defaults, by
  the kinds that \<^verbatim>\<open>goPrimitiveValue\<close> tells apart; \<open>OtherValue\<close> is any other kind.
\<close>

datatype schemaValue =
    BoolValue bool
  | IntValue int
  | UintValue nat
  | FloatValue real
  | StringValue string
  | OtherValue

record defaultValue =
  dvValue :: "schemaValue option"
  environment :: "string list"

record property =
  pname :: string
  ptype :: schemaType
  isRequired :: bool
  secret :: bool
  constValue :: "schemaValue option"
  defaultValue :: "defaultValue option"

record resource =
  token :: string
  properties :: "property list"
  inputProperties :: "property list"
  isProvider :: bool
  isComponent :: bool

text \<open>Of a function's inputs and outputs the partitioner only asks whether they are nil.\<close>

record schemaFunction =
  functionToken :: string
  hasInputs :: bool
  hasOutputs :: bool

text \<open>
  The package to generate: \<open>objectTable\<close> gives the field \<^verbatim>\<open>Properties\<close> of every object
  type by its token, \<open>goModuleToPackage\<close> is the \<^verbatim>\<open>ModuleToPackage\<close> of the Go package info.
\<close>

record package =
  self :: schemaPackage
  config :: "property list"
  packageTypes :: "schemaType list"
  provider :: resource
  packageResources :: "resource list"
  packageFunctions :: "schemaFunction list"
  objectTable :: "(string \<times> property list) list"
  goModuleToPackage :: "string \<rightharpoonup> string"

definition propertiesOf :: "(string \<times> property list) list \<Rightarrow> string \<Rightarrow> property list" where
  "propertiesOf table tok = (case map_of table tok of Some ps \<Rightarrow> ps | None \<Rightarrow> [])"

section \<open>Package contexts\<close>

record typeDetails =
  ptrElement :: bool
  arrayElement :: bool
  mapElement :: bool

text \<open>
  The mutable part of a \<^verbatim>\<open>pkgContext\<close>. The map \<^verbatim>\<open>packages\<close> that all contexts of a run
  share is the store \<open>packages\<close> below; the details maps, the lists of types and enums and
  the map of function names are keyed by the token of the object type, enum type or
  function that the source's pointer points to.
\<close>

record pkgContext =
  typeDetailsMap :: "string \<rightharpoonup> typeDetails"
  enumDetailsMap :: "string \<rightharpoonup> typeDetails"
  enums :: "string list"
  types :: "string list"
  resources :: "resource list"
  functions' :: "schemaFunction list"
  names :: "string set"
  renamed :: "string \<rightharpoonup> string"
  functionNames :: "string \<rightharpoonup> string"

type_synonym packages = "string \<rightharpoonup> pkgContext"

text \<open>
  The receiver of a method of \<^verbatim>\<open>pkgContext\<close>: its fields that never change, and whether
  its field \<^verbatim>\<open>packages\<close> is the shared map (a context made while partitioning) or nil (the
  context made on the fly for an external package).
\<close>

record receiver =
  pkg :: "schemaPackage option"
  modName :: string
  modToPkg :: "string \<rightharpoonup> string"
  hasPackages :: bool

definition lookupPackage :: "receiver \<Rightarrow> packages \<Rightarrow> string \<Rightarrow> pkgContext option" where
  "lookupPackage r ps m = (if hasPackages r then ps m else None)"

section \<open>Naming resolver\<close>

text \<open>\<^verbatim>\<open>strings.Replace(s, "/", "", -1)\<close>.\<close>

definition stripSlashes :: "string \<Rightarrow> string" where
  "stripSlashes s = filter (\<lambda>c. c \<noteq> CHR ''/'') s"

text \<open>\<^verbatim>\<open>strings.Replace(s, "-provider", "", -1)\<close>: every occurrence, left to right.\<close>

fun stripProvider :: "string \<Rightarrow> string" where
  "stripProvider [] = []"
| "stripProvider (c # cs) =
     (if take 9 (c # cs) = ''-provider'' then stripProvider (drop 8 cs)
      else c # stripProvider cs)"

text \<open>
  The lookup and the renaming that \<^verbatim>\<open>tokenToType\<close> and \<^verbatim>\<open>tokenToEnum\<close> share, with the
  suffix as a parameter: a recorded rename is looked up; otherwise a name that is taken
  gets the suffix, and the rename as well as the new name are recorded.
\<close>

definition renameIn :: "string \<Rightarrow> pkgContext \<Rightarrow> string \<Rightarrow> string \<times> pkgContext" where
  "renameIn suffix modPkg name =
     (case renamed modPkg name of
        Some newName \<Rightarrow> (newName, modPkg)
      | None \<Rightarrow>
          if name \<in> names modPkg then
            (let newName = name @ suffix in
             (newName, modPkg\<lparr>renamed := (renamed modPkg)(name \<mapsto> newName),
                               names := insert newName (names modPkg)\<rparr>))
          else (name, modPkg))"

definition tokenToType :: "receiver \<Rightarrow> packages \<Rightarrow> string \<Rightarrow> error + (string \<times> packages)" where
  "tokenToType r ps tok =
     (let components = splitOn CHR '':'' tok in
      if length components \<noteq> 3 then Inl AssertionFailure
      else if pkg r = None then Inl (Panic ''pkg.pkg is nil'')
      else
        (case tokenToPackage (modToPkg r) tok of
           Inl e \<Rightarrow> Inl e
         | Inr m \<Rightarrow>
             (let name = Title (components ! 2);
                  (name', ps') =
                    (case lookupPackage r ps m of
                       None \<Rightarrow> (name, ps)
                     | Some modPkg \<Rightarrow>
                         (let (n, modPkg') = renameIn ''Type'' modPkg name
                          in (n, ps(m \<mapsto> modPkg'))))
              in if m = modName r then Inr (name', ps')
                 else
                   (let m' = (if m = [] then components ! 0 else m)
                    in Inr (stripProvider (stripSlashes m' @ ''.'' @ name'), ps')))))"

definition tokenToEnum :: "receiver \<Rightarrow> packages \<Rightarrow> string \<Rightarrow> error + (string \<times> packages)" where
  "tokenToEnum r ps tok =
     (let components = splitOn CHR '':'' tok in
      if length components \<noteq> 3 then Inl AssertionFailure
      else if pkg r = None then Inl (Panic ''pkg.pkg is nil'')
      else
        (case tokenToPackage (modToPkg r) tok of
           Inl e \<Rightarrow> Inl e
         | Inr m \<Rightarrow>
             (let name = Title (components ! 2);
                  (name', ps') =
                    (case lookupPackage r ps m of
                       None \<Rightarrow> (name, ps)
                     | Some modPkg \<Rightarrow>
                         (let (n, modPkg') = renameIn ''Enum'' modPkg name
                          in (n, ps(m \<mapsto> modPkg'))))
              in if m = modName r then Inr (name', ps')
                 else
                   (let m' = (if m = [] then components ! 0 else m)
                    in Inr (stripSlashes m' @ ''.'' @ name', ps')))))"

text \<open>\<^verbatim>\<open>tokenToResource\<close> reads no registry and records nothing.\<close>

definition tokenToResource :: "receiver \<Rightarrow> string \<Rightarrow> error + string" where
  "tokenToResource r tok =
     (let components = splitOn CHR '':'' tok in
      if length components \<noteq> 3 then Inl AssertionFailure
      else if pkg r = None then Inl (Panic ''pkg.pkg is nil'')
      else if components ! 0 = ''pulumi'' \<and> components ! 1 = ''providers''
        then Inr (components ! 2 @ ''.Provider'')
      else
        (case tokenToPackage (modToPkg r) tok of
           Inl e \<Rightarrow> Inl e
         | Inr m \<Rightarrow>
             (let name = Title (components ! 2)
              in if m = modName r then Inr name
                 else
                   (let m' = (if m = [] then components ! 0 else m)
                    in Inr (stripSlashes m' @ ''.'' @ name)))))"

definition tokenToName :: "string \<Rightarrow> error + string" where
  "tokenToName tok =
     (let components = splitOn CHR '':'' tok in
      if length components = 3 then Inr (Title (components ! 2)) else Inl AssertionFailure)"

section \<open>Package partitioner and optionality propagator\<close>

definition newPkgContext :: pkgContext where
  "newPkgContext =
     \<lparr>typeDetailsMap = Map.empty, enumDetailsMap = Map.empty, enums = [], types = [],
      resources = [], functions' = [], names = {}, renamed = Map.empty,
      functionNames = Map.empty\<rparr>"

text \<open>\<^verbatim>\<open>getPkg\<close>: the context of a module, made and stored when there is none.\<close>

definition getPkg :: "packages \<Rightarrow> string \<Rightarrow> pkgContext \<times> packages" where
  "getPkg ps m =
     (case ps m of
        Some pack \<Rightarrow> (pack, ps)
      | None \<Rightarrow> (newPkgContext, ps(m \<mapsto> newPkgContext)))"

text \<open>A change of the context of a module, after \<^verbatim>\<open>getPkg\<close> has found or made it.\<close>

definition updatePkg :: "packages \<Rightarrow> string \<Rightarrow> (pkgContext \<Rightarrow> pkgContext) \<Rightarrow> packages" where
  "updatePkg ps m f = (let (pack, ps') = getPkg ps m in ps'(m \<mapsto> f pack))"

text \<open>\<^verbatim>\<open>detailsForType\<close> and \<^verbatim>\<open>detailsForEnum\<close>: the details of a type, all false at first.\<close>

definition detailsFor :: "(string \<rightharpoonup> typeDetails) \<Rightarrow> string \<Rightarrow> typeDetails" where
  "detailsFor details tok =
     (case details tok of
        Some d \<Rightarrow> d
      | None \<Rightarrow> \<lparr>ptrElement = False, arrayElement = False, mapElement = False\<rparr>)"

definition setTypeDetails :: "(typeDetails \<Rightarrow> typeDetails) \<Rightarrow> string \<Rightarrow> pkgContext \<Rightarrow> pkgContext" where
  "setTypeDetails f tok pack =
     pack\<lparr>typeDetailsMap := (typeDetailsMap pack)(tok \<mapsto> f (detailsFor (typeDetailsMap pack) tok))\<rparr>"

definition setEnumDetails :: "(typeDetails \<Rightarrow> typeDetails) \<Rightarrow> string \<Rightarrow> pkgContext \<Rightarrow> pkgContext" where
  "setEnumDetails f tok pack =
     pack\<lparr>enumDetailsMap := (enumDetailsMap pack)(tok \<mapsto> f (detailsFor (enumDetailsMap pack) tok))\<rparr>"

text \<open>
  \<^verbatim>\<open>markOptionalPropertyTypesAsRequiringPtr\<close>. The state is the set of the tokens seen and
  the contexts; the loop over the properties is the recursion on the list, with the
  source's recursive call into the properties of an object type nested in it.
\<close>

function markOptionalPropertyTypesAsRequiringPtr ::
  "(string \<rightharpoonup> string) \<Rightarrow> (string \<times> property list) list \<Rightarrow> string set \<times> packages \<Rightarrow>
   property list \<Rightarrow> bool \<Rightarrow> error + (string set \<times> packages)" where
  "markOptionalPropertyTypesAsRequiringPtr ov table (seen, ps) [] parentOptional = Inr (seen, ps)"
| "markOptionalPropertyTypesAsRequiringPtr ov table (seen, ps) (p # props) parentOptional =
     (case ptype p of
        ObjectType tok opkg \<Rightarrow>
          if \<not> isRequired p \<or> parentOptional then
            if tok \<in> seen then
              markOptionalPropertyTypesAsRequiringPtr ov table (seen, ps) props parentOptional
            else
              (case tokenToPackage ov tok of
                 Inl e \<Rightarrow> Inl e
               | Inr m \<Rightarrow>
                   (case markOptionalPropertyTypesAsRequiringPtr ov table
                           (insert tok seen,
                            updatePkg ps m (setTypeDetails (\<lambda>d. d\<lparr>ptrElement := True\<rparr>) tok))
                           (propertiesOf table tok) True of
                      Inl e \<Rightarrow> Inl e
                    | Inr s' \<Rightarrow>
                        markOptionalPropertyTypesAsRequiringPtr ov table s' props parentOptional))
          else markOptionalPropertyTypesAsRequiringPtr ov table (seen, ps) props parentOptional
      | EnumType tok elementType \<Rightarrow>
          if \<not> isRequired p \<or> parentOptional then
            if tok \<in> seen then
              markOptionalPropertyTypesAsRequiringPtr ov table (seen, ps) props parentOptional
            else
              (case tokenToPackage ov tok of
                 Inl e \<Rightarrow> Inl e
               | Inr m \<Rightarrow>
                   markOptionalPropertyTypesAsRequiringPtr ov table
                     (insert tok seen,
                      updatePkg ps m (setEnumDetails (\<lambda>d. d\<lparr>ptrElement := True\<rparr>) tok))
                     props parentOptional)
          else markOptionalPropertyTypesAsRequiringPtr ov table (seen, ps) props parentOptional
      | _ \<Rightarrow> markOptionalPropertyTypesAsRequiringPtr ov table (seen, ps) props parentOptional)"
  by pat_completeness auto

text \<open>
  Termination: a call either marks a token of the object table that was not seen before,
  or works on a shorter list of properties with at least the tokens seen before. The
  second part needs that a call which returns has kept the tokens it was given.
\<close>

lemma mark_seen_mono_dom:
  "markOptionalPropertyTypesAsRequiringPtr_dom (ov, table, s, props, po) \<Longrightarrow>
   markOptionalPropertyTypesAsRequiringPtr ov table s props po = Inr s' \<Longrightarrow> fst s \<subseteq> fst s'"
proof (induction ov table s props po arbitrary: s'
    rule: markOptionalPropertyTypesAsRequiringPtr.pinduct)
  case (1 ov table seen ps parentOptional)
  then show ?case by (simp add: markOptionalPropertyTypesAsRequiringPtr.psimps)
next
  case (2 ov table seen ps p props parentOptional)
  show ?case
  proof (cases "ptype p")
    case (ObjectType tok opkg)
    show ?thesis
    proof (cases "\<not> isRequired p \<or> parentOptional")
      case True
      show ?thesis
      proof (cases "tok \<in> seen")
        case True
        with 2 ObjectType \<open>\<not> isRequired p \<or> parentOptional\<close> show ?thesis
          by (simp add: markOptionalPropertyTypesAsRequiringPtr.psimps)
      next
        case False
        from "2.hyps" "2.prems" ObjectType True False obtain m s1 where
          m: "tokenToPackage ov tok = Inr m" and
          s1: "markOptionalPropertyTypesAsRequiringPtr ov table
                 (insert tok seen,
                  updatePkg ps m (setTypeDetails (\<lambda>d. d\<lparr>ptrElement := True\<rparr>) tok))
                 (propertiesOf table tok) True = Inr s1" and
          s': "markOptionalPropertyTypesAsRequiringPtr ov table s1 props parentOptional = Inr s'"
          by (auto simp: markOptionalPropertyTypesAsRequiringPtr.psimps split: sum.splits)
        from "2.IH"(12)[OF ObjectType True False m s1] have "insert tok seen \<subseteq> fst s1"
          by simp
        moreover from "2.IH"(13)[OF ObjectType True False m s1 s'] have "fst s1 \<subseteq> fst s'" .
        ultimately show ?thesis by auto
      qed
    next
      case False
      with 2 ObjectType show ?thesis
        by (simp add: markOptionalPropertyTypesAsRequiringPtr.psimps)
    qed
  next
    case (EnumType tok et)
    with 2 show ?thesis
      by (auto simp: markOptionalPropertyTypesAsRequiringPtr.psimps split: sum.splits if_splits)
  qed (use 2 in \<open>simp_all add: markOptionalPropertyTypesAsRequiringPtr.psimps\<close>)
qed

lemma propertiesOf_absent: "tok \<notin> fst ` set table \<Longrightarrow> propertiesOf table tok = []"
  by (simp add: propertiesOf_def map_of_eq_None_iff[THEN iffD2])

lemma card_unseen_insert:
  "tok \<notin> seen \<Longrightarrow> tok \<in> fst ` set table \<Longrightarrow>
   card (fst ` set table - insert tok seen) < card (fst ` set table - seen)"
  by (rule psubset_card_mono) auto

lemma card_unseen_mono:
  "seen \<subseteq> seen' \<Longrightarrow> card (fst ` set table - seen') \<le> card (fst ` set table - seen)"
  by (rule card_mono) auto

lemma mark_rec_decreases:
  assumes "tok \<notin> seen"
  shows "card (fst ` set table - insert tok seen) < card (fst ` set table - seen) \<or>
         (card (fst ` set table - insert tok seen) = card (fst ` set table - seen) \<and>
          propertiesOf table tok = [])"
proof (cases "tok \<in> fst ` set table")
  case True
  with assms have "card (fst ` set table - insert tok seen) < card (fst ` set table - seen)"
    by (rule card_unseen_insert)
  then show ?thesis by blast
next
  case False
  then have "fst ` set table - insert tok seen = fst ` set table - seen" by auto
  with False show ?thesis by (simp add: propertiesOf_absent)
qed

lemma mark_cont_decreases:
  assumes "markOptionalPropertyTypesAsRequiringPtr_dom
             (ov, table, (insert tok seen, ps'), props', po')"
    and "markOptionalPropertyTypesAsRequiringPtr ov table (insert tok seen, ps') props' po' =
           Inr s'"
  shows "card (fst ` set table - fst s') \<le> card (fst ` set table - seen)"
proof -
  from mark_seen_mono_dom[OF assms] have "seen \<subseteq> fst s'" by simp
  then show ?thesis by (rule card_unseen_mono)
qed

lemma card_unseen_insert_le:
  "card (fst ` set table - insert tok seen) \<le> card (fst ` set table - seen)"
  by (rule card_unseen_mono) auto

termination markOptionalPropertyTypesAsRequiringPtr
  apply (relation "inv_image (less_than <*lex*> less_than)
         (\<lambda>(ov, table, s, props, po). (card (fst ` set table - fst s), length props))")
  subgoal by (intro wf_inv_image wf_lex_prod wf_less_than)
                      apply simp_all
  subgoal for ov table seen p props parentOptional tok opkg m
    using mark_rec_decreases[of tok seen table] by auto
  subgoal for ov table seen ps p parentOptional tok opkg m s'
    using mark_cont_decreases[of ov table tok seen _ "propertiesOf table tok" True s']
    by (auto simp: le_less)
  subgoal for ov table seen p parentOptional tok et m
    using card_unseen_insert_le[of table tok seen] by (auto simp: le_less)
  done

text \<open>A loop whose body may abort the run.\<close>

fun foldE :: "('s \<Rightarrow> 'a \<Rightarrow> 'e + 's) \<Rightarrow> 's \<Rightarrow> 'a list \<Rightarrow> 'e + 's" where
  "foldE f s [] = Inr s"
| "foldE f s (x # xs) = (case f s x of Inl e \<Rightarrow> Inl e | Inr s' \<Rightarrow> foldE f s' xs)"

text \<open>The body of the loop over \<^verbatim>\<open>pkg.Types\<close>.\<close>

definition scanType ::
  "(string \<rightharpoonup> string) \<Rightarrow> (string \<times> property list) list \<Rightarrow> string set \<times> packages \<Rightarrow>
   schemaType \<Rightarrow> error + (string set \<times> packages)" where
  "scanType ov table s t =
     (case t of
        ArrayType elementType \<Rightarrow>
          (case elementType of
             ObjectType tok opkg \<Rightarrow>
               (case tokenToPackage ov tok of
                  Inl e \<Rightarrow> Inl e
                | Inr m \<Rightarrow>
                    Inr (fst s,
                         updatePkg (snd s) m (setTypeDetails (\<lambda>d. d\<lparr>arrayElement := True\<rparr>) tok)))
           | _ \<Rightarrow> Inr s)
      | MapType elementType \<Rightarrow>
          (case elementType of
             ObjectType tok opkg \<Rightarrow>
               (case tokenToPackage ov tok of
                  Inl e \<Rightarrow> Inl e
                | Inr m \<Rightarrow>
                    Inr (fst s,
                         updatePkg (snd s) m (setTypeDetails (\<lambda>d. d\<lparr>mapElement := True\<rparr>) tok)))
           | _ \<Rightarrow> Inr s)
      | ObjectType tok opkg \<Rightarrow>
          (case tokenToPackage ov tok of
             Inl e \<Rightarrow> Inl e
           | Inr m \<Rightarrow>
               markOptionalPropertyTypesAsRequiringPtr ov table
                 (fst s, updatePkg (snd s) m (\<lambda>pack. pack\<lparr>types := types pack @ [tok]\<rparr>))
                 (propertiesOf table tok) False)
      | EnumType tok elementType \<Rightarrow>
          (case tokenToPackage ov tok of
             Inl e \<Rightarrow> Inl e
           | Inr m \<Rightarrow>
               Inr (fst s, updatePkg (snd s) m (\<lambda>pack. pack\<lparr>enums := enums pack @ [tok]\<rparr>)))
      | _ \<Rightarrow> Inr s)"

definition resourceName :: "resource \<Rightarrow> error + string" where
  "resourceName r = (if isProvider r then Inr ''Provider'' else tokenToName (token r))"

text \<open>The identifiers that \<^verbatim>\<open>scanResource\<close> adds to the names of the resource's package.\<close>

definition resourceIdentifiers :: "resource \<Rightarrow> string \<Rightarrow> string list" where
  "resourceIdentifiers r rn =
     [rn, rn @ ''Input'', rn @ ''Output'', rn @ ''Args'', camel rn @ ''Args'', ''New'' @ rn]
     @ (if \<not> isProvider r \<and> \<not> isComponent r
        then [rn @ ''State'', camel rn @ ''State'', ''Get'' @ rn] else [])"

definition scanResource ::
  "(string \<rightharpoonup> string) \<Rightarrow> (string \<times> property list) list \<Rightarrow> string set \<times> packages \<Rightarrow>
   resource \<Rightarrow> error + (string set \<times> packages)" where
  "scanResource ov table s r =
     (case tokenToPackage ov (token r) of
        Inl e \<Rightarrow> Inl e
      | Inr m \<Rightarrow>
          (case resourceName r of
             Inl e \<Rightarrow> Inl e
           | Inr rn \<Rightarrow>
               (let ps' = updatePkg (snd s) m
                            (\<lambda>pack. pack\<lparr>resources := resources pack @ [r],
                                          names := names pack \<union> set (resourceIdentifiers r rn)\<rparr>)
                in case markOptionalPropertyTypesAsRequiringPtr ov table (fst s, ps')
                          (inputProperties r) (\<not> isProvider r) of
                     Inl e \<Rightarrow> Inl e
                   | Inr s' \<Rightarrow>
                       markOptionalPropertyTypesAsRequiringPtr ov table s'
                         (properties r) (\<not> isProvider r))))"

text \<open>The body of the loop over \<^verbatim>\<open>pkg.Functions\<close>.\<close>

definition functionName :: "string set \<Rightarrow> string \<Rightarrow> string" where
  "functionName taken n =
     (if n \<in> taken then
        (if take 3 n = ''New'' then ''Create'' @ drop 3 n
         else if take 3 n = ''Get'' then ''Lookup'' @ drop 3 n
         else n)
      else n)"

definition scanFunction ::
  "(string \<rightharpoonup> string) \<Rightarrow> packages \<Rightarrow> schemaFunction \<Rightarrow> error + packages" where
  "scanFunction ov ps f =
     (case tokenToPackage ov (functionToken f) of
        Inl e \<Rightarrow> Inl e
      | Inr m \<Rightarrow>
          (case tokenToName (functionToken f) of
             Inl e \<Rightarrow> Inl e
           | Inr n \<Rightarrow>
               Inr (updatePkg ps m
                      (\<lambda>pack.
                         let n' = functionName (names pack) n
                         in pack\<lparr>functions' := functions' pack @ [f],
                                 names := names pack \<union> {n'}
                                   \<union> (if hasInputs f then {n' @ ''Args''} else {})
                                   \<union> (if hasOutputs f then {n' @ ''Result''} else {}),
                                 functionNames := (functionNames pack)(functionToken f \<mapsto> n')\<rparr>))))"

text \<open>
  \<^verbatim>\<open>generatePackageContextMap\<close>, with the set of the tokens seen next to the contexts in
  \<open>partitionPackage\<close>.
\<close>

definition partitionPackage :: "package \<Rightarrow> error + (string set \<times> packages)" where
  "partitionPackage p =
     (let ov = goModuleToPackage p;
          table = objectTable p;
          ps0 = (if config p \<noteq> [] then snd (getPkg Map.empty ''config'') else Map.empty)
      in case foldE (scanType ov table) ({}, ps0) (packageTypes p) of
           Inl e \<Rightarrow> Inl e
         | Inr s1 \<Rightarrow>
             (case scanResource ov table s1 (provider p) of
                Inl e \<Rightarrow> Inl e
              | Inr s2 \<Rightarrow>
                  (case foldE (scanResource ov table) s2 (packageResources p) of
                     Inl e \<Rightarrow> Inl e
                   | Inr s3 \<Rightarrow>
                       (case foldE (scanFunction ov) (snd s3) (packageFunctions p) of
                          Inl e \<Rightarrow> Inl e
                        | Inr ps \<Rightarrow> Inr (fst s3, ps)))))"

definition generatePackageContextMap :: "package \<Rightarrow> error + packages" where
  "generatePackageContextMap p =
     (case partitionPackage p of Inl e \<Rightarrow> Inl e | Inr s \<Rightarrow> Inr (snd s))"

section \<open>Type representation resolver\<close>

definition isExternalReference :: "receiver \<Rightarrow> schemaType \<Rightarrow> bool" where
  "isExternalReference r t =
     (case t of
        ObjectType tok opkg \<Rightarrow> opkg \<noteq> None \<and> pkg r \<noteq> None \<and> opkg \<noteq> pkg r
      | ResourceType tok res \<Rightarrow>
          (case res of
             None \<Rightarrow> False
           | Some rpkg \<Rightarrow> pkg r \<noteq> None \<and> rpkg \<noteq> pkg r)
      | _ \<Rightarrow> False)"

text \<open>
  The context that \<^verbatim>\<open>resolveResourceType\<close> and \<^verbatim>\<open>resolveObjectType\<close> make for an external
  package: no module, no shared map of contexts.
\<close>

definition externalReceiver :: "schemaPackage \<Rightarrow> receiver" where
  "externalReceiver extPkg =
     \<lparr>pkg = Some extPkg, modName = [], modToPkg = map_of (moduleToPackage extPkg),
      hasPackages = False\<rparr>"

definition resolveResourceType ::
  "receiver \<Rightarrow> string \<Rightarrow> schemaPackage option option \<Rightarrow> error + string" where
  "resolveResourceType r tok res =
     (if \<not> isExternalReference r (ResourceType tok res) then tokenToResource r tok
      else
        (case res of
           Some (Some extPkg) \<Rightarrow>
             if importFails extPkg then Inl AssertionFailure
             else
               (case tokenToResource (externalReceiver extPkg) tok of
                  Inl e \<Rightarrow> Inl e
                | Inr resType \<Rightarrow>
                    if CHR ''.'' \<notin> set resType then Inr (pkgName extPkg @ ''.'' @ resType)
                    else Inr resType)
         | _ \<Rightarrow> Inl (Panic ''nil package'')))"

definition resolveObjectType ::
  "receiver \<Rightarrow> packages \<Rightarrow> string \<Rightarrow> schemaPackage option \<Rightarrow> error + (string \<times> packages)" where
  "resolveObjectType r ps tok opkg =
     (if \<not> isExternalReference r (ObjectType tok opkg) then tokenToType r ps tok
      else
        (case opkg of
           Some extPkg \<Rightarrow>
             if importFails extPkg then Inl AssertionFailure
             else tokenToType (externalReceiver extPkg) ps tok
         | None \<Rightarrow> Inl (Panic ''nil package'')))"

fun firstEnumElementType :: "schemaType list \<Rightarrow> schemaType option" where
  "firstEnumElementType [] = None"
| "firstEnumElementType (e # es) =
     (case e of EnumType tok elementType \<Rightarrow> Some elementType | _ \<Rightarrow> firstEnumElementType es)"

lemma firstEnumElementType_size:
  "firstEnumElementType ts = Some et \<Longrightarrow> size et < size_list size ts"
  by (induction ts) (auto split: schemaType.splits)

definition trimSuffix :: "string \<Rightarrow> string \<Rightarrow> string" where
  "trimSuffix s suffix =
     (if length suffix \<le> length s \<and> drop (length s - length suffix) s = suffix
      then take (length s - length suffix) s else s)"

text \<open>The end of \<^verbatim>\<open>plainType\<close>, \<^verbatim>\<open>inputType\<close> and \<^verbatim>\<open>outputType\<close>: the optional and the plain form.\<close>

definition withPrefix :: "bool \<Rightarrow> string \<Rightarrow> error + (string \<times> packages) \<Rightarrow> error + (string \<times> packages)" where
  "withPrefix optional pre res =
     (case res of
        Inl e \<Rightarrow> Inl e
      | Inr (typ, ps) \<Rightarrow> Inr (if optional then pre @ typ else typ, ps))"

definition withSuffix ::
  "bool \<Rightarrow> string \<Rightarrow> string \<Rightarrow> error + (string \<times> packages) \<Rightarrow> error + (string \<times> packages)" where
  "withSuffix optional opt req res =
     (case res of
        Inl e \<Rightarrow> Inl e
      | Inr (typ, ps) \<Rightarrow> Inr (if optional then typ @ opt else typ @ req, ps))"

function plainType :: "receiver \<Rightarrow> packages \<Rightarrow> schemaType \<Rightarrow> bool \<Rightarrow> error + (string \<times> packages)" where
  "plainType r ps (EnumType tok elementType) optional = plainType r ps elementType optional"
| "plainType r ps (ArrayType elementType) optional =
     (case plainType r ps elementType False of
        Inl e \<Rightarrow> Inl e
      | Inr (typ, ps') \<Rightarrow>
          Inr (''[]'' @ (if isExternalReference r elementType then ''*'' else '''') @ typ, ps'))"
| "plainType r ps (MapType elementType) optional =
     (case plainType r ps elementType False of
        Inl e \<Rightarrow> Inl e
      | Inr (typ, ps') \<Rightarrow>
          Inr (''map[string]'' @ (if isExternalReference r elementType then ''*'' else '''') @ typ,
               ps'))"
| "plainType r ps (ObjectType tok opkg) optional =
     withPrefix optional ''*'' (resolveObjectType r ps tok opkg)"
| "plainType r ps (ResourceType tok res) optional =
     withPrefix optional ''*''
       (case resolveResourceType r tok res of Inl e \<Rightarrow> Inl e | Inr typ \<Rightarrow> Inr (typ, ps))"
| "plainType r ps (TokenType tok (Some underlyingType)) optional =
     plainType r ps underlyingType optional"
| "plainType r ps (TokenType tok None) optional =
     withPrefix optional ''*'' (tokenToType r ps tok)"
| "plainType r ps (UnionType elementTypes) optional =
     (case firstEnumElementType elementTypes of
        Some elementType \<Rightarrow> plainType r ps elementType optional
      | None \<Rightarrow> Inr (''interface{}'', ps))"
| "plainType r ps BoolType optional = withPrefix optional ''*'' (Inr (''bool'', ps))"
| "plainType r ps IntType optional = withPrefix optional ''*'' (Inr (''int'', ps))"
| "plainType r ps NumberType optional = withPrefix optional ''*'' (Inr (''float64'', ps))"
| "plainType r ps StringType optional = withPrefix optional ''*'' (Inr (''string'', ps))"
| "plainType r ps ArchiveType optional = Inr (''pulumi.Archive'', ps)"
| "plainType r ps AssetType optional = Inr (''pulumi.AssetOrArchive'', ps)"
| "plainType r ps JSONType optional = Inr (''interface{}'', ps)"
| "plainType r ps AnyType optional = Inr (''interface{}'', ps)"
  by pat_completeness auto
termination
  by (relation "measure (\<lambda>(r, ps, t, optional). size t)")
     (auto dest: firstEnumElementType_size)

function inputType :: "receiver \<Rightarrow> packages \<Rightarrow> schemaType \<Rightarrow> bool \<Rightarrow> error + (string \<times> packages)" where
  "inputType r ps (EnumType tok elementType) optional = 
     withPrefix optional ''*'' (tokenToEnum r ps tok)"
| "inputType r ps (ArrayType elementType) optional =
     (case inputType r ps elementType False of
        Inl e \<Rightarrow> Inl e
      | Inr (en, ps') \<Rightarrow> Inr (trimSuffix en ''Input'' @ ''ArrayInput'', ps'))"
| "inputType r ps (MapType elementType) optional =
     (case inputType r ps elementType False of
        Inl e \<Rightarrow> Inl e
      | Inr (en, ps') \<Rightarrow> Inr (trimSuffix en ''Input'' @ ''MapInput'', ps'))"
| "inputType r ps (ObjectType tok opkg) optional =
     withSuffix optional ''PtrInput'' ''Input'' (resolveObjectType r ps tok opkg)"
| "inputType r ps (ResourceType tok res) optional =
     (case resolveResourceType r tok res of Inl e \<Rightarrow> Inl e | Inr typ \<Rightarrow> Inr (typ @ ''Input'', ps))"
| "inputType r ps (TokenType tok (Some underlyingType)) optional =
     inputType r ps underlyingType optional"
| "inputType r ps (TokenType tok None) optional =
     withSuffix optional ''PtrInput'' ''Input'' (tokenToType r ps tok)"
| "inputType r ps (UnionType elementTypes) optional =
     (case firstEnumElementType elementTypes of
        Some elementType \<Rightarrow> inputType r ps elementType optional
      | None \<Rightarrow> Inr (''pulumi.Input'', ps))"
| "inputType r ps BoolType optional = withSuffix optional ''PtrInput'' ''Input'' (Inr (''pulumi.Bool'', ps))"
| "inputType r ps IntType optional = withSuffix optional ''PtrInput'' ''Input'' (Inr (''pulumi.Int'', ps))"
| "inputType r ps NumberType optional = withSuffix optional ''PtrInput'' ''Input'' (Inr (''pulumi.Float64'', ps))"
| "inputType r ps StringType optional = withSuffix optional ''PtrInput'' ''Input'' (Inr (''pulumi.String'', ps))"
| "inputType r ps ArchiveType optional = Inr (''pulumi.ArchiveInput'', ps)"
| "inputType r ps AssetType optional = Inr (''pulumi.AssetOrArchiveInput'', ps)"
| "inputType r ps JSONType optional = Inr (''pulumi.Input'', ps)"
| "inputType r ps AnyType optional = Inr (''pulumi.Input'', ps)"
  by pat_completeness auto
termination
  by (relation "measure (\<lambda>(r, ps, t, optional). size t)")
     (auto dest: firstEnumElementType_size)

function outputType :: "receiver \<Rightarrow> packages \<Rightarrow> schemaType \<Rightarrow> bool \<Rightarrow> error + (string \<times> packages)" where
  "outputType r ps (EnumType tok elementType) optional = outputType r ps elementType optional"
| "outputType r ps (ArrayType elementType) optional =
     (case outputType r ps elementType False of
        Inl e \<Rightarrow> Inl e
      | Inr (typ, ps') \<Rightarrow>
          (let en = trimSuffix typ ''Output''
           in if en = ''pulumi.Any'' then Inr (''pulumi.ArrayOutput'', ps')
              else Inr (en @ ''ArrayOutput'', ps')))"
| "outputType r ps (MapType elementType) optional =
     (case outputType r ps elementType False of
        Inl e \<Rightarrow> Inl e
      | Inr (typ, ps') \<Rightarrow>
          (let en = trimSuffix typ ''Output''
           in if en = ''pulumi.Any'' then Inr (''pulumi.MapOutput'', ps')
              else Inr (en @ ''MapOutput'', ps')))"
| "outputType r ps (ObjectType tok opkg) optional =
     withSuffix optional ''PtrOutput'' ''Output'' (resolveObjectType r ps tok opkg)"
| "outputType r ps (ResourceType tok res) optional =
     (case resolveResourceType r tok res of Inl e \<Rightarrow> Inl e | Inr typ \<Rightarrow> Inr (typ @ ''Output'', ps))"
| "outputType r ps (TokenType tok (Some underlyingType)) optional =
     outputType r ps underlyingType optional"
| "outputType r ps (TokenType tok None) optional =
     withSuffix optional ''PtrOutput'' ''Output'' (tokenToType r ps tok)"
| "outputType r ps (UnionType elementTypes) optional =
     (case firstEnumElementType elementTypes of
        Some elementType \<Rightarrow> outputType r ps elementType optional
      | None \<Rightarrow> Inr (''pulumi.AnyOutput'', ps))"
| "outputType r ps BoolType optional = withSuffix optional ''PtrOutput'' ''Output'' (Inr (''pulumi.Bool'', ps))"
| "outputType r ps IntType optional = withSuffix optional ''PtrOutput'' ''Output'' (Inr (''pulumi.Int'', ps))"
| "outputType r ps NumberType optional = withSuffix optional ''PtrOutput'' ''Output'' (Inr (''pulumi.Float64'', ps))"
| "outputType r ps StringType optional = withSuffix optional ''PtrOutput'' ''Output'' (Inr (''pulumi.String'', ps))"
| "outputType r ps ArchiveType optional = Inr (''pulumi.ArchiveOutput'', ps)"
| "outputType r ps AssetType optional = Inr (''pulumi.AssetOrArchiveOutput'', ps)"
| "outputType r ps JSONType optional = Inr (''pulumi.AnyOutput'', ps)"
| "outputType r ps AnyType optional = Inr (''pulumi.AnyOutput'', ps)"
  by pat_completeness auto
termination
  by (relation "measure (\<lambda>(r, ps, t, optional). size t)")
     (auto dest: firstEnumElementType_size)

section \<open>Binding synthesizer\<close>

subsection \<open>The utilities that are written next to the bindings\<close>

text \<open>
  A value of type \<^verbatim>\<open>interface{}\<close> in the generated program, by the dynamic types that
  occur: nil, bool, int, float64, string and \<^verbatim>\<open>pulumi.StringArray\<close>.
\<close>

datatype goValue =
    GoNil
  | GoBool bool
  | GoInt int
  | GoFloat real
  | GoString string
  | GoStringArray "string list"

text \<open>
  The functions of package \<^verbatim>\<open>strconv\<close> that the parsers call are parameters of the model:
  \<open>None\<close> stands for a returned error.
\<close>

record strconv =
  parseBool :: "string \<Rightarrow> bool option"
  parseInt :: "string \<Rightarrow> int option"
  parseFloat :: "string \<Rightarrow> real option"

definition parseEnvBool :: "strconv \<Rightarrow> string \<Rightarrow> goValue" where
  "parseEnvBool lib v = (case parseBool lib v of None \<Rightarrow> GoNil | Some b \<Rightarrow> GoBool b)"

definition parseEnvInt :: "strconv \<Rightarrow> string \<Rightarrow> goValue" where
  "parseEnvInt lib v = (case parseInt lib v of None \<Rightarrow> GoNil | Some i \<Rightarrow> GoInt i)"

definition parseEnvFloat :: "strconv \<Rightarrow> string \<Rightarrow> goValue" where
  "parseEnvFloat lib v = (case parseFloat lib v of None \<Rightarrow> GoNil | Some f \<Rightarrow> GoFloat f)"

definition parseEnvStringArray :: "string \<Rightarrow> goValue" where
  "parseEnvStringArray v = GoStringArray (splitOn CHR '';'' v)"

text \<open>
  \<^verbatim>\<open>getEnvOrDefault\<close>: \<open>env\<close> is \<^verbatim>\<open>os.Getenv\<close>, which gives the empty string for a variable
  that is not set; \<open>None\<close> is the nil parser.
\<close>

fun getEnvOrDefault ::
  "(string \<Rightarrow> string) \<Rightarrow> goValue \<Rightarrow> (string \<Rightarrow> goValue) option \<Rightarrow> string list \<Rightarrow> goValue" where
  "getEnvOrDefault env def parser [] = def"
| "getEnvOrDefault env def parser (v # vars) =
     (let value = env v in
      if value \<noteq> [] then
        (case parser of Some parse \<Rightarrow> parse value | None \<Rightarrow> GoString value)
      else getEnvOrDefault env def parser vars)"

subsection \<open>Constants and defaults\<close>

text \<open>
  The literals that the generator writes, by the constant that the text denotes. A text
  of digits, as \<^verbatim>\<open>strconv.FormatInt\<close> and \<^verbatim>\<open>strconv.FormatUint\<close> write it, is an integer
  constant, and so is the text that \<^verbatim>\<open>strconv.FormatFloat(v, 'f', -1, 64)\<close> writes for a float
  without a fraction: it has no decimal point. The text \<^verbatim>\<open>0.0\<close> and the text of a float with a
  fraction are floating-point constants. \<open>EmptyStringArray\<close> is \<^verbatim>\<open>pulumi.StringArray{}\<close>.
\<close>

datatype goLiteral =
    BoolLit bool
  | IntLit int
  | FloatLit real
  | StringLit string
  | EmptyStringArray

text \<open>
  The expressions that the generator writes for a constant or a default: nothing at all
  (the empty text), a literal, or a call of \<^verbatim>\<open>getEnvOrDefault\<close> with a type assertion.
\<close>

datatype envParser = NilParser | ParseEnvBool | ParseEnvInt | ParseEnvFloat | ParseEnvStringArray

datatype goType = BoolKind | IntKind | Float64Kind | StringKind | StringArrayKind

datatype goExpr =
    NoExpr
  | Literal goLiteral
  | GetEnvOrDefault goExpr envParser "string list" goType

definition goPrimitiveValue :: "schemaValue \<Rightarrow> error + goExpr" where
  "goPrimitiveValue v =
     (case v of
        BoolValue b \<Rightarrow> Inr (Literal (BoolLit b))
      | IntValue i \<Rightarrow> Inr (Literal (IntLit i))
      | UintValue n \<Rightarrow> Inr (Literal (IntLit (int n)))
      | FloatValue f \<Rightarrow>
          Inr (Literal (if real_of_int \<lfloor>f\<rfloor> = f then IntLit \<lfloor>f\<rfloor> else FloatLit f))
      | StringValue s \<Rightarrow> Inr (Literal (StringLit s))
      | OtherValue \<Rightarrow> Inl UnsupportedValue)"

definition getConstValue :: "schemaValue option \<Rightarrow> error + goExpr" where
  "getConstValue cv = (case cv of None \<Rightarrow> Inr NoExpr | Some v \<Rightarrow> goPrimitiveValue v)"

text \<open>The parser, the default and the asserted type that \<^verbatim>\<open>getDefaultValue\<close> picks by the type.\<close>

definition envLookupFor :: "schemaType \<Rightarrow> envParser \<times> goExpr \<times> goType" where
  "envLookupFor t =
     (case t of
        BoolType \<Rightarrow> (ParseEnvBool, Literal (BoolLit False), BoolKind)
      | IntType \<Rightarrow> (ParseEnvInt, Literal (IntLit 0), IntKind)
      | NumberType \<Rightarrow> (ParseEnvFloat, Literal (FloatLit 0), Float64Kind)
      | ArrayType elementType \<Rightarrow> (ParseEnvStringArray, Literal EmptyStringArray, StringArrayKind)
      | _ \<Rightarrow> (NilParser, Literal (StringLit []), StringKind))"

text \<open>
  \<^verbatim>\<open>getDefaultValue\<close>. The flag \<^verbatim>\<open>needsUtils\<close> that the source sets here only decides which
  files are written, and is left out.
\<close>

definition getDefaultValue :: "defaultValue \<Rightarrow> schemaType \<Rightarrow> error + goExpr" where
  "getDefaultValue dv t =
     (case (case dvValue dv of None \<Rightarrow> Inr NoExpr | Some v \<Rightarrow> goPrimitiveValue v) of
        Inl e \<Rightarrow> Inl e
      | Inr val \<Rightarrow>
          if environment dv \<noteq> [] then
            (let (parser, typDefault, typ) = envLookupFor t;
                 val' = (if val = NoExpr then typDefault else val)
             in Inr (GetEnvOrDefault val' parser (environment dv) typ))
          else Inr val)"

subsection \<open>The constructor that is written for a resource\<close>

text \<open>
  The statements of the constructor up to the registration, one constructor for each text
  that \<^verbatim>\<open>genResource\<close> writes there; the first string is the field of the arguments, the
  second the conversion that is written around the value.
\<close>

datatype stmt =
    ArgsNilDefault
  | ArgsNilError
  | RequireNonNil string
  | Assign string string goExpr
  | IfNilAssign string string goExpr
  | IfEmptyStringAssign string string goExpr
  | IfZeroAssign string string goExpr
  | IfNilAssignRef string string goExpr

definition isEnumType :: "schemaType \<Rightarrow> bool" where
  "isEnumType t = (case t of EnumType tok elementType \<Rightarrow> True | _ \<Rightarrow> False)"

definition requiredCheck :: "property \<Rightarrow> stmt list" where
  "requiredCheck p =
     (if isEnumType (ptype p) then []
      else if isRequired p then [RequireNonNil (Title (pname p))] else [])"

definition conversionName :: "receiver \<Rightarrow> packages \<Rightarrow> property \<Rightarrow> error + (string \<times> packages)" where
  "conversionName r ps p =
     (case inputType r ps (ptype p) (\<not> isRequired p) of
        Inl e \<Rightarrow> Inl e
      | Inr (typ, ps') \<Rightarrow>
          (let t = trimSuffix typ ''Input''
           in Inr (if t = ''pulumi.'' then ''pulumi.Any'' else t, ps')))"

definition genConstAssignment ::
  "receiver \<Rightarrow> packages \<Rightarrow> property \<Rightarrow> error + (stmt list \<times> packages)" where
  "genConstAssignment r ps p =
     (if constValue p \<noteq> None then
        (case getConstValue (constValue p) of
           Inl e \<Rightarrow> Inl e
         | Inr v \<Rightarrow>
             (case conversionName r ps p of
                Inl e \<Rightarrow> Inl e
              | Inr (t, ps') \<Rightarrow> Inr ([Assign (Title (pname p)) t v], ps')))
      else Inr ([], ps))"

definition genDefaultAssignment ::
  "receiver \<Rightarrow> packages \<Rightarrow> property \<Rightarrow> error + (stmt list \<times> packages)" where
  "genDefaultAssignment r ps p =
     (case defaultValue p of
        None \<Rightarrow> Inr ([], ps)
      | Some dv \<Rightarrow>
          (case getDefaultValue dv (ptype p) of
             Inl e \<Rightarrow> Inl e
           | Inr v \<Rightarrow>
               (case conversionName r ps p of
                  Inl e \<Rightarrow> Inl e
                | Inr (t, ps') \<Rightarrow>
                    (case ptype p of
                       EnumType tok elementType \<Rightarrow>
                         if isRequired p then
                           (if elementType = StringType
                              then Inr ([IfEmptyStringAssign (Title (pname p)) t v], ps')
                            else if elementType = IntType \<or> elementType = NumberType
                              then Inr ([IfZeroAssign (Title (pname p)) t v], ps')
                            else Inl AssertionFailure)
                         else
                           (case inputType r ps' (ptype p) False of
                              Inl e \<Rightarrow> Inl e
                            | Inr (t', ps'') \<Rightarrow>
                                Inr ([IfNilAssignRef (Title (pname p)) t' v], ps''))
                     | _ \<Rightarrow> Inr ([IfNilAssign (Title (pname p)) t v], ps')))))"

definition genPropertyAssignments ::
  "receiver \<Rightarrow> stmt list \<times> packages \<Rightarrow> property \<Rightarrow> error + (stmt list \<times> packages)" where
  "genPropertyAssignments r acc p =
     (case genConstAssignment r (snd acc) p of
        Inl e \<Rightarrow> Inl e
      | Inr (cs, ps') \<Rightarrow>
          (case genDefaultAssignment r ps' p of
             Inl e \<Rightarrow> Inl e
           | Inr (ds, ps'') \<Rightarrow> Inr (fst acc @ cs @ ds, ps'')))"

text \<open>
  The part of \<^verbatim>\<open>genResource\<close> that writes the validation of the arguments and the
  assignments of constants and defaults.
\<close>

definition genResourceConstructor ::
  "receiver \<Rightarrow> packages \<Rightarrow> resource \<Rightarrow> error + (stmt list \<times> packages)" where
  "genResourceConstructor r ps res =
     (let hasRequired = (\<exists>p \<in> set (inputProperties res). isRequired p);
          nilCheck = (if \<not> hasRequired then ArgsNilDefault else ArgsNilError);
          checks = concat (map requiredCheck (inputProperties res))
      in foldE (genPropertyAssignments r) (nilCheck # checks, ps) (inputProperties res))"

subsection \<open>Running the constructor\<close>

text \<open>
  The ways in which the constructor ends before the registration: the two errors it
  returns, a panic of the Go runtime (a failed type assertion, a nil dereference), and an
  expression that is no Go expression at all.
\<close>

datatype ctorError =
    MissingRequiredArguments
  | InvalidRequiredArgument string
  | RuntimePanic
  | NotAnExpression

definition parserOf :: "strconv \<Rightarrow> envParser \<Rightarrow> (string \<Rightarrow> goValue) option" where
  "parserOf lib parser =
     (case parser of
        NilParser \<Rightarrow> None
      | ParseEnvBool \<Rightarrow> Some (parseEnvBool lib)
      | ParseEnvInt \<Rightarrow> Some (parseEnvInt lib)
      | ParseEnvFloat \<Rightarrow> Some (parseEnvFloat lib)
      | ParseEnvStringArray \<Rightarrow> Some parseEnvStringArray)"

text \<open>The type assertion \<^verbatim>\<open>.(typ)\<close>: it panics on nil and on any other dynamic type.\<close>

definition typeAssert :: "goType \<Rightarrow> goValue \<Rightarrow> ctorError + goValue" where
  "typeAssert typ v =
     (case (typ, v) of
        (BoolKind, GoBool b) \<Rightarrow> Inr v
      | (IntKind, GoInt i) \<Rightarrow> Inr v
      | (Float64Kind, GoFloat f) \<Rightarrow> Inr v
      | (StringKind, GoString s) \<Rightarrow> Inr v
      | (StringArrayKind, GoStringArray ss) \<Rightarrow> Inr v
      | _ \<Rightarrow> Inl RuntimePanic)"

text \<open>
  The value of a literal where no type is asked of it, as when it is passed for the
  parameter \<^verbatim>\<open>def interface{}\<close> of \<^verbatim>\<open>getEnvOrDefault\<close>: an integer constant is an \<^verbatim>\<open>int\<close>, a
  floating-point constant a \<^verbatim>\<open>float64\<close>.
\<close>

definition interfaceValue :: "goLiteral \<Rightarrow> goValue" where
  "interfaceValue l =
     (case l of
        BoolLit b \<Rightarrow> GoBool b
      | IntLit i \<Rightarrow> GoInt i
      | FloatLit f \<Rightarrow> GoFloat f
      | StringLit s \<Rightarrow> GoString s
      | EmptyStringArray \<Rightarrow> GoStringArray [])"

fun evalExpr :: "strconv \<Rightarrow> (string \<Rightarrow> string) \<Rightarrow> goExpr \<Rightarrow> ctorError + goValue" where
  "evalExpr lib env NoExpr = Inl NotAnExpression"
| "evalExpr lib env (Literal l) = Inr (interfaceValue l)"
| "evalExpr lib env (GetEnvOrDefault def parser vars typ) =
     (case evalExpr lib env def of
        Inl e \<Rightarrow> Inl e
      | Inr d \<Rightarrow> typeAssert typ (getEnvOrDefault env d (parserOf lib parser) vars))"

text \<open>
  A field of the arguments has a static type, and the conversion that is written around an
  expression converts its value to that type: the constant 1 becomes the number 1 of the
  field, whether the field holds integers or floats. What a field holds is therefore nil
  (a nil pointer or interface), a boolean, a number, a text or a list of texts. (A constant
  that cannot be converted to the type of the field is refused by the Go compiler; the
  statements are run as those of a constructor that has been compiled.)
\<close>

datatype fieldValue =
    FNil
  | FBool bool
  | FNumber real
  | FString string
  | FStringArray "string list"

definition converted :: "goValue \<Rightarrow> fieldValue" where
  "converted v =
     (case v of
        GoNil \<Rightarrow> FNil
      | GoBool b \<Rightarrow> FBool b
      | GoInt i \<Rightarrow> FNumber (real_of_int i)
      | GoFloat f \<Rightarrow> FNumber f
      | GoString s \<Rightarrow> FString s
      | GoStringArray ss \<Rightarrow> FStringArray ss)"

text \<open>
  The arguments are a pointer to a struct: \<open>None\<close> is the nil pointer, and a struct is the
  value of each of its fields.
\<close>

type_synonym args = "(string \<Rightarrow> fieldValue) option"

definition assignField ::
  "strconv \<Rightarrow> (string \<Rightarrow> string) \<Rightarrow> string \<Rightarrow> goExpr \<Rightarrow> (string \<Rightarrow> fieldValue) \<Rightarrow> ctorError + args" where
  "assignField lib env x e a =
     (case evalExpr lib env e of
        Inl err \<Rightarrow> Inl err
      | Inr v \<Rightarrow> Inr (Some (a(x := converted v))))"

fun execStmt :: "strconv \<Rightarrow> (string \<Rightarrow> string) \<Rightarrow> args \<Rightarrow> stmt \<Rightarrow> ctorError + args" where
  "execStmt lib env None ArgsNilDefault = Inr (Some (\<lambda>x. FNil))"
| "execStmt lib env None ArgsNilError = Inl MissingRequiredArguments"
| "execStmt lib env None st = Inl RuntimePanic"
| "execStmt lib env (Some a) ArgsNilDefault = Inr (Some a)"
| "execStmt lib env (Some a) ArgsNilError = Inr (Some a)"
| "execStmt lib env (Some a) (RequireNonNil x) =
     (if a x = FNil then Inl (InvalidRequiredArgument x) else Inr (Some a))"
| "execStmt lib env (Some a) (Assign x t e) = assignField lib env x e a"
| "execStmt lib env (Some a) (IfNilAssign x t e) =
     (if a x = FNil then assignField lib env x e a else Inr (Some a))"
| "execStmt lib env (Some a) (IfEmptyStringAssign x t e) =
     (if a x = FString [] then assignField lib env x e a else Inr (Some a))"
| "execStmt lib env (Some a) (IfZeroAssign x t e) =
     (if a x = FNumber 0 then assignField lib env x e a else Inr (Some a))"
| "execStmt lib env (Some a) (IfNilAssignRef x t e) =
     (if a x = FNil then assignField lib env x e a else Inr (Some a))"

text \<open>The constructor up to the registration: the arguments that it registers, or its end.\<close>

definition runConstructor :: "strconv \<Rightarrow> (string \<Rightarrow> string) \<Rightarrow> stmt list \<Rightarrow> args \<Rightarrow> ctorError + args" where
  "runConstructor lib env stmts a = foldE (execStmt lib env) a stmts"

section \<open>Notions used in the statements\<close>

text \<open>What a call leaves in the contexts, and the names registered in a module.\<close>

definition packagesAfter :: "error + ('a \<times> packages) \<Rightarrow> packages" where
  "packagesAfter res = (case res of Inr (x, ps) \<Rightarrow> ps | Inl e \<Rightarrow> Map.empty)"

definition namesOf :: "packages \<Rightarrow> string \<Rightarrow> string set" where
  "namesOf ps m = (case ps m of Some pack \<Rightarrow> names pack | None \<Rightarrow> {})"

text \<open>
  The part of \<open>tokenToType\<close> and \<open>tokenToEnum\<close> that reads and writes the registry of the
  token's module.
\<close>

definition resolveIn ::
  "string \<Rightarrow> receiver \<Rightarrow> packages \<Rightarrow> string \<Rightarrow> string \<Rightarrow> string \<times> packages" where
  "resolveIn suffix r ps m n =
     (case lookupPackage r ps m of
        None \<Rightarrow> (n, ps)
      | Some modPkg \<Rightarrow>
          (let (n', modPkg') = renameIn suffix modPkg n in (n', ps(m \<mapsto> modPkg'))))"

text \<open>
  What a later call for the same name needs of a registry \<open>b\<close>, given the registry \<open>a\<close> that
  the first call left: a rename that is recorded for the name in \<open>a\<close> is recorded in \<open>b\<close>; when
  none is recorded in \<open>a\<close>, none is recorded in \<open>b\<close> and the name is not registered there.
\<close>

definition renameStable :: "string \<Rightarrow> pkgContext \<Rightarrow> pkgContext \<Rightarrow> bool" where
  "renameStable n a b =
     (case renamed a n of
        Some n' \<Rightarrow> renamed b n = Some n'
      | None \<Rightarrow> renamed b n = None \<and> n \<notin> names b)"

text \<open>
  The calls of the naming resolver that write the registry. Once the contexts have been
  made, nothing else in the generator writes \<^verbatim>\<open>names\<close> or \<^verbatim>\<open>renamed\<close>, so what happens to the
  registry between two calls of the resolver is a run of such calls, with any receivers and
  tokens.
\<close>

datatype resolverCall = TypeCall receiver string | EnumCall receiver string

definition callResolver :: "packages \<Rightarrow> resolverCall \<Rightarrow> error + packages" where
  "callResolver ps c =
     (case c of
        TypeCall r tok \<Rightarrow> map_sum id snd (tokenToType r ps tok)
      | EnumCall r tok \<Rightarrow> map_sum id snd (tokenToEnum r ps tok))"

definition resolverCalls :: "resolverCall list \<Rightarrow> packages \<Rightarrow> error + packages" where
  "resolverCalls calls ps = foldE callResolver ps calls"

text \<open>
  The capitalised member name of a token, and whether it is registered in the context of
  the token's module that the receiver sees.
\<close>

definition memberName :: "string \<Rightarrow> string" where
  "memberName tok = Title (splitOn CHR '':'' tok ! 2)"

definition nameRegistered :: "receiver \<Rightarrow> packages \<Rightarrow> string \<Rightarrow> bool" where
  "nameRegistered r ps tok =
     (case tokenToPackage (modToPkg r) tok of
        Inl e \<Rightarrow> False
      | Inr m \<Rightarrow>
          (case lookupPackage r ps m of
             None \<Rightarrow> False
           | Some modPkg \<Rightarrow> memberName tok \<in> names modPkg))"

text \<open>
  What the calls of the resolver do to a registry: names are added and never removed, a
  recorded rename stays as it is, and a rename is recorded only for a name that is
  registered.
\<close>

definition registryGrows :: "pkgContext \<Rightarrow> pkgContext \<Rightarrow> bool" where
  "registryGrows a b =
     (names a \<subseteq> names b
      \<and> (\<forall>n. case renamed a n of
                Some x \<Rightarrow> renamed b n = Some x
              | None \<Rightarrow> renamed b n \<noteq> None \<longrightarrow> n \<in> names b))"

definition packagesGrow :: "packages \<Rightarrow> packages \<Rightarrow> bool" where
  "packagesGrow ps ps' =
     (\<forall>m. case ps m of
             None \<Rightarrow> ps' m = None
           | Some a \<Rightarrow> (\<exists>b. ps' m = Some b \<and> registryGrows a b))"

text \<open>
  A flag of the details of an object type, or of an enum type, in the context of a module;
  a type with no details yet has none of the flags.
\<close>

definition typeFlag :: "(typeDetails \<Rightarrow> bool) \<Rightarrow> packages \<Rightarrow> string \<Rightarrow> string \<Rightarrow> bool" where
  "typeFlag flag ps m tok =
     (case ps m of Some pack \<Rightarrow> flag (detailsFor (typeDetailsMap pack) tok) | None \<Rightarrow> False)"

definition enumFlag :: "(typeDetails \<Rightarrow> bool) \<Rightarrow> packages \<Rightarrow> string \<Rightarrow> string \<Rightarrow> bool" where
  "enumFlag flag ps m tok =
     (case ps m of Some pack \<Rightarrow> flag (detailsFor (enumDetailsMap pack) tok) | None \<Rightarrow> False)"

text \<open>
  The tokens of the object and enum types of a list of properties resolve to a module, for
  the properties themselves and for all properties in the object table.
\<close>

definition typeToken :: "schemaType \<Rightarrow> string option" where
  "typeToken t =
     (case t of ObjectType tok opkg \<Rightarrow> Some tok | EnumType tok et \<Rightarrow> Some tok | _ \<Rightarrow> None)"

definition tokensOk :: "(string \<rightharpoonup> string) \<Rightarrow> property list \<Rightarrow> bool" where
  "tokensOk ov props =
     (\<forall>p \<in> set props. \<forall>tok. typeToken (ptype p) = Some tok \<longrightarrow>
        (\<exists>m. tokenToPackage ov tok = Inr m))"

definition tableOk :: "(string \<rightharpoonup> string) \<Rightarrow> (string \<times> property list) list \<Rightarrow> bool" where
  "tableOk ov table = (\<forall>entry \<in> set table. tokensOk ov (snd entry))"

text \<open>A property of the details that no setting of a flag to true destroys.\<close>

definition monotoneFlag :: "(typeDetails \<Rightarrow> bool) \<Rightarrow> bool" where
  "monotoneFlag flag =
     (\<forall>d. flag d \<longrightarrow> flag (d\<lparr>ptrElement := True\<rparr>) \<and> flag (d\<lparr>arrayElement := True\<rparr>)
           \<and> flag (d\<lparr>mapElement := True\<rparr>))"

text \<open>
  How the optional form of a type differs from its plain form, for each of the three
  representations: a pointer prefix, the suffix \<open>Ptr\<close> before the suffix of the
  representation, or no difference.
\<close>

datatype optionalForm = PointerPrefix | PtrSuffix | NoChange

definition applyForm :: "string \<Rightarrow> optionalForm \<Rightarrow> string \<Rightarrow> string" where
  "applyForm suffix form typ =
     (case form of
        PointerPrefix \<Rightarrow> ''*'' @ typ
      | PtrSuffix \<Rightarrow> trimSuffix typ suffix @ ''Ptr'' @ suffix
      | NoChange \<Rightarrow> typ)"

definition mapName :: "(string \<Rightarrow> string) \<Rightarrow> error + (string \<times> packages) \<Rightarrow> error + (string \<times> packages)" where
  "mapName f res = (case res of Inl e \<Rightarrow> Inl e | Inr (typ, ps) \<Rightarrow> Inr (f typ, ps))"

function plainOptionalForm :: "schemaType \<Rightarrow> optionalForm" where
  "plainOptionalForm (EnumType tok elementType) = plainOptionalForm elementType"
| "plainOptionalForm (ArrayType elementType) = NoChange"
| "plainOptionalForm (MapType elementType) = NoChange"
| "plainOptionalForm (ObjectType tok opkg) = PointerPrefix"
| "plainOptionalForm (ResourceType tok res) = PointerPrefix"
| "plainOptionalForm (TokenType tok (Some underlyingType)) = plainOptionalForm underlyingType"
| "plainOptionalForm (TokenType tok None) = PointerPrefix"
| "plainOptionalForm (UnionType elementTypes) =
     (case firstEnumElementType elementTypes of
        Some elementType \<Rightarrow> plainOptionalForm elementType
      | None \<Rightarrow> NoChange)"
| "plainOptionalForm BoolType = PointerPrefix"
| "plainOptionalForm IntType = PointerPrefix"
| "plainOptionalForm NumberType = PointerPrefix"
| "plainOptionalForm StringType = PointerPrefix"
| "plainOptionalForm ArchiveType = NoChange"
| "plainOptionalForm AssetType = NoChange"
| "plainOptionalForm JSONType = NoChange"
| "plainOptionalForm AnyType = NoChange"
  by pat_completeness auto
termination
  by (relation "measure size") (auto dest: firstEnumElementType_size)

function inputOptionalForm :: "schemaType \<Rightarrow> optionalForm" where
  "inputOptionalForm (EnumType tok elementType) = PointerPrefix"
| "inputOptionalForm (ArrayType elementType) = NoChange"
| "inputOptionalForm (MapType elementType) = NoChange"
| "inputOptionalForm (ObjectType tok opkg) = PtrSuffix"
| "inputOptionalForm (ResourceType tok res) = NoChange"
| "inputOptionalForm (TokenType tok (Some underlyingType)) = inputOptionalForm underlyingType"
| "inputOptionalForm (TokenType tok None) = PtrSuffix"
| "inputOptionalForm (UnionType elementTypes) =
     (case firstEnumElementType elementTypes of
        Some elementType \<Rightarrow> inputOptionalForm elementType
      | None \<Rightarrow> NoChange)"
| "inputOptionalForm BoolType = PtrSuffix"
| "inputOptionalForm IntType = PtrSuffix"
| "inputOptionalForm NumberType = PtrSuffix"
| "inputOptionalForm StringType = PtrSuffix"
| "inputOptionalForm ArchiveType = NoChange"
| "inputOptionalForm AssetType = NoChange"
| "inputOptionalForm JSONType = NoChange"
| "inputOptionalForm AnyType = NoChange"
  by pat_completeness auto
termination
  by (relation "measure size") (auto dest: firstEnumElementType_size)

function outputOptionalForm :: "schemaType \<Rightarrow> optionalForm" where
  "outputOptionalForm (EnumType tok elementType) = outputOptionalForm elementType"
| "outputOptionalForm (ArrayType elementType) = NoChange"
| "outputOptionalForm (MapType elementType) = NoChange"
| "outputOptionalForm (ObjectType tok opkg) = PtrSuffix"
| "outputOptionalForm (ResourceType tok res) = NoChange"
| "outputOptionalForm (TokenType tok (Some underlyingType)) = outputOptionalForm underlyingType"
| "outputOptionalForm (TokenType tok None) = PtrSuffix"
| "outputOptionalForm (UnionType elementTypes) =
     (case firstEnumElementType elementTypes of
        Some elementType \<Rightarrow> outputOptionalForm elementType
      | None \<Rightarrow> NoChange)"
| "outputOptionalForm BoolType = PtrSuffix"
| "outputOptionalForm IntType = PtrSuffix"
| "outputOptionalForm NumberType = PtrSuffix"
| "outputOptionalForm StringType = PtrSuffix"
| "outputOptionalForm ArchiveType = NoChange"
| "outputOptionalForm AssetType = NoChange"
| "outputOptionalForm JSONType = NoChange"
| "outputOptionalForm AnyType = NoChange"
  by pat_completeness auto
termination
  by (relation "measure size") (auto dest: firstEnumElementType_size)




text \<open>The value of a constant of the schema in a field.\<close>

definition constantValue :: "schemaValue \<Rightarrow> fieldValue option" where
  "constantValue c =
     (case c of
        BoolValue b \<Rightarrow> Some (FBool b)
      | IntValue i \<Rightarrow> Some (FNumber (real_of_int i))
      | UintValue n \<Rightarrow> Some (FNumber (real n))
      | FloatValue f \<Rightarrow> Some (FNumber f)
      | StringValue s \<Rightarrow> Some (FString s)
      | OtherValue \<Rightarrow> None)"

text \<open>
  The zero representation of an enum by its element type: the empty text for an enum of
  strings, the number zero for an enum of numbers.
\<close>

definition enumZero :: "schemaType \<Rightarrow> fieldValue" where
  "enumZero elementType = (if elementType = StringType then FString [] else FNumber 0)"

text \<open>
  A field counts as not supplied when it is nil, and for a required property of an enum
  type (a value, not a pointer) when it is the zero representation of the enum.
\<close>

definition fieldAbsent :: "property \<Rightarrow> fieldValue \<Rightarrow> bool" where
  "fieldAbsent p v =
     (case ptype p of
        EnumType tok elementType \<Rightarrow> if isRequired p then v = enumZero elementType else v = FNil
      | _ \<Rightarrow> v = FNil)"


definition fieldsDistinct :: "resource \<Rightarrow> bool" where
  "fieldsDistinct res = distinct (map (\<lambda>p. Title (pname p)) (inputProperties res))"

text \<open>The field that a statement of the constructor writes, if it writes one.\<close>

definition writtenField :: "stmt \<Rightarrow> string option" where
  "writtenField st =
     (case st of
        Assign x t e \<Rightarrow> Some x
      | IfNilAssign x t e \<Rightarrow> Some x
      | IfEmptyStringAssign x t e \<Rightarrow> Some x
      | IfZeroAssign x t e \<Rightarrow> Some x
      | IfNilAssignRef x t e \<Rightarrow> Some x
      | _ \<Rightarrow> None)"

text \<open>
  The statements that the generator writes for one input property: its constant and its
  default, with the contexts in any state (the state decides the names of the conversions
  only).
\<close>

definition ownStatements :: "receiver \<Rightarrow> property \<Rightarrow> stmt list \<Rightarrow> bool" where
  "ownStatements r p ss = (\<exists>ps1 ps2. genPropertyAssignments r ([], ps1) p = Inr (ss, ps2))"

text \<open>
  A stand-in for package \<^verbatim>\<open>strconv\<close> that parses the texts of the scenarios: the booleans
  \<open>true\<close> and \<open>false\<close>, and the numbers 0 and 7.
\<close>

definition exampleStrconv :: strconv where
  "exampleStrconv =
     \<lparr>parseBool = (\<lambda>s. if s = ''true'' then Some True
                        else if s = ''false'' then Some False else None),
      parseInt = (\<lambda>s. if s = ''0'' then Some 0 else if s = ''7'' then Some 7 else None),
      parseFloat = (\<lambda>s. if s = ''0'' then Some 0 else if s = ''7'' then Some 7 else None)\<rparr>"

text \<open>An environment in which \<open>A\<close> is \<open>abc\<close>, \<open>B\<close> is \<open>7\<close> and nothing else is set.\<close>

definition exampleEnv :: "string \<Rightarrow> string" where
  "exampleEnv v = (if v = ''A'' then ''abc'' else if v = ''B'' then ''7'' else [])"

text \<open>
  The tokens of the object and enum types of a list of properties, all together and by
  kind.
\<close>

definition propertyTokens :: "property list \<Rightarrow> string set" where
  "propertyTokens props = {tok. \<exists>p \<in> set props. typeToken (ptype p) = Some tok}"

definition objectTokens :: "property list \<Rightarrow> string set" where
  "objectTokens props = {tok. \<exists>p \<in> set props. \<exists>opkg. ptype p = ObjectType tok opkg}"

definition enumTokens :: "property list \<Rightarrow> string set" where
  "enumTokens props = {tok. \<exists>p \<in> set props. \<exists>elementType. ptype p = EnumType tok elementType}"

text \<open>
  The invariant of the set of the tokens seen, for a set \<open>objs\<close> of tokens of object types and a
  set \<open>enms\<close> of tokens of enum types: a token that has been seen resolves to a module, and in
  the context of that module its details have the flag \<open>ptrElement\<close>.
\<close>

definition seenMarked ::
  "(string \<rightharpoonup> string) \<Rightarrow> string set \<Rightarrow> string set \<Rightarrow> string set \<times> packages \<Rightarrow> bool" where
  "seenMarked ov objs enms s =
     (\<forall>tok \<in> fst s. \<exists>m. tokenToPackage ov tok = Inr m
        \<and> (tok \<in> objs \<longrightarrow> typeFlag ptrElement (snd s) m tok)
        \<and> (tok \<in> enms \<longrightarrow> enumFlag ptrElement (snd s) m tok))"

text \<open>
  The second invariant: the tokens of the properties of an object type that has been seen
  have been seen as well.
\<close>

definition seenClosed :: "(string \<times> property list) list \<Rightarrow> string set \<Rightarrow> string set \<Rightarrow> bool" where
  "seenClosed table objs seen =
     (\<forall>tok \<in> seen. tok \<in> objs \<longrightarrow> propertyTokens (propertiesOf table tok) \<subseteq> seen)"

text \<open>
  The relation between the token of an object type and the tokens of the object and enum
  types of its properties; its reflexive transitive closure reaches the nested properties.
\<close>

definition nestedIn :: "(string \<times> property list) list \<Rightarrow> string set \<Rightarrow> (string \<times> string) set" where
  "nestedIn table objs = {(tok, t). tok \<in> objs \<and> t \<in> propertyTokens (propertiesOf table tok)}"

text \<open>
  All properties of a package: those of its resources, the provider among them, and those
  of its object types. In a package as the binder makes it, a token names one type, so no
  token is the token of an object type in one property and of an enum type in another.
\<close>

definition packageProperties :: "package \<Rightarrow> property list" where
  "packageProperties p =
     concat (map (\<lambda>r. inputProperties r @ properties r) (provider p # packageResources p))
     @ concat (map snd (objectTable p))"

definition kindsDisjoint :: "package \<Rightarrow> bool" where
  "kindsDisjoint p =
     (objectTokens (packageProperties p) \<inter> enumTokens (packageProperties p) = {})"


section \<open>Scenarios of the specification\<close>

text \<open>Package \<open>p\<close> and the receiver of the methods of its module \<open>m\<close>.\<close>

definition examplePackage :: schemaPackage where
  "examplePackage = \<lparr>pkgName = ''p'', importFails = False, moduleToPackage = []\<rparr>"

definition exampleReceiver :: receiver where
  "exampleReceiver =
     \<lparr>pkg = Some examplePackage, modName = ''m'', modToPkg = Map.empty, hasPackages = True\<rparr>"

definition plainResource :: "string \<Rightarrow> resource" where
  "plainResource tok =
     \<lparr>token = tok, properties = [], inputProperties = [], isProvider = False,
      isComponent = False\<rparr>"

text \<open>The contexts after the resource \<open>p:m:Bucket\<close> has been scanned.\<close>

definition bucketPackages :: packages where
  "bucketPackages =
     packagesAfter (scanResource Map.empty [] ({}, Map.empty) (plainResource ''p:m:Bucket''))"

text \<open>The provider resource of package \<open>p\<close>, with no properties.\<close>

definition providerResource :: resource where
  "providerResource =
     \<lparr>token = ''pulumi:providers:p'', properties = [], inputProperties = [],
      isProvider = True, isComponent = False\<rparr>"

text \<open>
  The object type \<open>Node\<close> whose property \<open>children\<close> is an array of \<open>Node\<close>, in a package
  whose list of types holds the object type and the array type.
\<close>

definition nodeType :: schemaType where
  "nodeType = ObjectType ''p:m:Node'' (Some examplePackage)"

definition nodePackage :: package where
  "nodePackage =
     \<lparr>self = examplePackage, config = [],
      packageTypes = [nodeType, ArrayType nodeType],
      provider = providerResource, packageResources = [], packageFunctions = [],
      objectTable =
        [(''p:m:Node'',
          [\<lparr>pname = ''children'', ptype = ArrayType nodeType, isRequired = False,
            secret = False, constValue = None, defaultValue = None\<rparr>])],
      goModuleToPackage = Map.empty\<rparr>"

text \<open>
  The resource \<open>p:m:Widget\<close> with the required string property \<open>Name\<close> and the optional
  integer property \<open>Size\<close> whose default is 1, and the package that holds it.
\<close>

definition widgetProperties :: "property list" where
  "widgetProperties =
     [\<lparr>pname = ''Name'', ptype = StringType, isRequired = True, secret = False,
       constValue = None, defaultValue = None\<rparr>,
      \<lparr>pname = ''Size'', ptype = IntType, isRequired = False, secret = False,
       constValue = None,
       defaultValue = Some \<lparr>dvValue = Some (IntValue 1), environment = []\<rparr>\<rparr>]"

definition widgetResource :: resource where
  "widgetResource =
     \<lparr>token = ''p:m:Widget'', properties = widgetProperties,
      inputProperties = widgetProperties, isProvider = False, isComponent = False\<rparr>"

definition widgetPackage :: package where
  "widgetPackage =
     \<lparr>self = examplePackage, config = [], packageTypes = [],
      provider = providerResource, packageResources = [widgetResource],
      packageFunctions = [], objectTable = [], goModuleToPackage = Map.empty\<rparr>"

text \<open>An object table with a direct cycle: the optional property \<open>next\<close> of \<open>Node\<close> is a \<open>Node\<close>.\<close>

definition linkedTable :: "(string \<times> property list) list" where
  "linkedTable =
     [(''p:m:Node'',
       [\<lparr>pname = ''next'', ptype = nodeType, isRequired = False, secret = False,
         constValue = None, defaultValue = None\<rparr>])]"

text \<open>
  The resource \<open>p:m:Gadget\<close>: a required string enum \<open>mode\<close> with the default \<open>fast\<close>, a
  required integer enum \<open>level\<close> with the default 1, the string \<open>kind\<close> with the constant
  \<open>k\<close>, and the optional string \<open>region\<close> and integer \<open>retries\<close> whose defaults name the
  environment variables \<open>A\<close> and \<open>B\<close> and no literal.
\<close>

definition gadgetProperties :: "property list" where
  "gadgetProperties =
     [\<lparr>pname = ''mode'', ptype = EnumType ''p:m:Mode'' StringType, isRequired = True,
       secret = False, constValue = None,
       defaultValue = Some \<lparr>dvValue = Some (StringValue ''fast''), environment = []\<rparr>\<rparr>,
      \<lparr>pname = ''level'', ptype = EnumType ''p:m:Level'' IntType, isRequired = True,
       secret = False, constValue = None,
       defaultValue = Some \<lparr>dvValue = Some (IntValue 1), environment = []\<rparr>\<rparr>,
      \<lparr>pname = ''kind'', ptype = StringType, isRequired = False, secret = False,
       constValue = Some (StringValue ''k''), defaultValue = None\<rparr>,
      \<lparr>pname = ''region'', ptype = StringType, isRequired = False, secret = False,
       constValue = None,
       defaultValue = Some \<lparr>dvValue = None, environment = [''A'', ''B'']\<rparr>\<rparr>,
      \<lparr>pname = ''retries'', ptype = IntType, isRequired = False, secret = False,
       constValue = None,
       defaultValue = Some \<lparr>dvValue = None, environment = [''A'', ''B'']\<rparr>\<rparr>]"

definition gadgetResource :: resource where
  "gadgetResource =
     \<lparr>token = ''p:m:Gadget'', properties = gadgetProperties,
      inputProperties = gadgetProperties, isProvider = False, isComponent = False\<rparr>"

text \<open>
  Arguments for \<open>Gadget\<close>: the mode is the empty text, the level is 3, the kind is \<open>mine\<close>,
  and the region and the retries are nil.
\<close>

definition suppliedKind :: "string \<Rightarrow> fieldValue" where
  "suppliedKind x =
     (if x = ''Mode'' then FString []
      else if x = ''Level'' then FNumber 3
      else if x = ''Kind'' then FString ''mine''
      else FNil)"

text \<open>An environment in which \<open>B\<close> is \<open>7\<close> and nothing else is set.\<close>

definition fallbackEnv :: "string \<Rightarrow> string" where
  "fallbackEnv v = (if v = ''B'' then ''7'' else [])"



definition lampResource :: resource where
  "lampResource =
     \<lparr>token = ''p:m:Lamp'', properties = [],
      inputProperties =
        [\<lparr>pname = ''mode'', ptype = EnumType ''p:m:Mode'' StringType, isRequired = True,
          secret = False, constValue = None, defaultValue = None\<rparr>],
      isProvider = False, isComponent = False\<rparr>"


text \<open>
  A package whose resource \<open>Holder\<close> has the required input property \<open>outer\<close> of the object
  type \<open>Outer\<close>; \<open>Outer\<close> has the required property \<open>inner\<close> of the object type \<open>Inner\<close>,
  which has the required property \<open>color\<close> of the enum type \<open>Color\<close>. The provider has the
  required input property \<open>settings\<close> of the object type \<open>Settings\<close>.
\<close>

definition requiredProperty :: "string \<Rightarrow> schemaType \<Rightarrow> property" where
  "requiredProperty n t =
     \<lparr>pname = n, ptype = t, isRequired = True, secret = False, constValue = None,
      defaultValue = None\<rparr>"

definition holderTable :: "(string \<times> property list) list" where
  "holderTable =
     [(''p:m:Outer'',
       [requiredProperty ''inner'' (ObjectType ''p:m:Inner'' (Some examplePackage))]),
      (''p:m:Inner'', [requiredProperty ''color'' (EnumType ''p:m:Color'' StringType)]),
      (''p:m:Settings'', [])]"

definition holderResource :: resource where
  "holderResource =
     \<lparr>token = ''p:m:Holder'', properties = [],
      inputProperties =
        [requiredProperty ''outer'' (ObjectType ''p:m:Outer'' (Some examplePackage))],
      isProvider = False, isComponent = False\<rparr>"

definition holderProvider :: resource where
  "holderProvider =
     \<lparr>token = ''pulumi:providers:p'', properties = [],
      inputProperties =
        [requiredProperty ''settings'' (ObjectType ''p:m:Settings'' (Some examplePackage))],
      isProvider = True, isComponent = False\<rparr>"

definition holderPackage :: package where
  "holderPackage =
     \<lparr>self = examplePackage, config = [],
      packageTypes =
        [ObjectType ''p:m:Outer'' (Some examplePackage),
         ObjectType ''p:m:Inner'' (Some examplePackage),
         ObjectType ''p:m:Settings'' (Some examplePackage),
         EnumType ''p:m:Color'' StringType],
      provider = holderProvider, packageResources = [holderResource],
      packageFunctions = [], objectTable = holderTable, goModuleToPackage = Map.empty\<rparr>"


section \<open>Splitting tokens\<close>

lemma splitOn_not_Nil: "splitOn c s \<noteq> []"
  by (induction s) (auto split: list.splits)

lemma splitOn_no_sep: "c \<notin> set s \<Longrightarrow> splitOn c s = [s]"
  by (induction s) auto

lemma splitOn_append: "c \<notin> set p \<Longrightarrow> splitOn c (p @ c # rest) = p # splitOn c rest"
  by (induction p) auto

lemma splitOn_three:
  assumes "c \<notin> set p" "c \<notin> set m" "c \<notin> set n"
  shows "splitOn c (p @ c # m @ c # n) = [p, m, n]"
  using assms by (simp add: splitOn_append splitOn_no_sep)

lemmas string_defs =
  toLower_def toLowerChar_def toUpperChar_def isLowerChar_def upperLetters_def lowerLetters_def

lemmas partition_defs =
  scanType_def scanResource_def scanFunction_def resourceName_def resourceIdentifiers_def
  tokenToName_def tokenToPackage_def Package_TokenToModule_def updatePkg_def getPkg_def
  setTypeDetails_def setEnumDetails_def detailsFor_def newPkgContext_def propertiesOf_def
  functionName_def packagesAfter_def namesOf_def Let_def
  partitionPackage_def generatePackageContextMap_def typeFlag_def enumFlag_def

lemmas naming_defs =
  tokenToType_def tokenToEnum_def tokenToResource_def renameIn_def lookupPackage_def

lemmas scenario_defs =
  examplePackage_def exampleReceiver_def plainResource_def bucketPackages_def
  providerResource_def nodeType_def nodePackage_def widgetProperties_def widgetResource_def
  widgetPackage_def linkedTable_def

section \<open>C1: module resolution\<close>

text \<open>
  C1, as the code has it. For a token \<open>p:m:n\<close> (three components, none of which holds a
  colon) \<open>tokenToPackage\<close> returns the override of \<open>m\<close> when the overrides hold one and
  \<open>m\<close> otherwise, and in both cases the result is lower-cased: the override is case-folded
  too. A token that does not split into exactly three components fails with the fatal
  assertion failure, for every overrides map. The splitting of the token is the one of the
  specification (\<open>Package_TokenToModule\<close>); the function \<open>tokenToModule\<close> of the source
  fails in the same way.
\<close>

theorem tokenToPackage_resolves:
  "(CHR '':'' \<notin> set p \<and> CHR '':'' \<notin> set m \<and> CHR '':'' \<notin> set n \<longrightarrow>
      tokenToPackage overrides (p @ CHR '':'' # m @ CHR '':'' # n) =
        Inr (toLower (case overrides m of Some ov \<Rightarrow> ov | None \<Rightarrow> m)))
   \<and> (length (splitOn CHR '':'' tok) \<noteq> 3 \<longrightarrow>
      tokenToPackage overrides tok = Inl AssertionFailure \<and>
      tokenToModule tok = Inl AssertionFailure)"
proof (intro conjI impI)
  assume "CHR '':'' \<notin> set p \<and> CHR '':'' \<notin> set m \<and> CHR '':'' \<notin> set n"
  then have "splitOn CHR '':'' (p @ CHR '':'' # m @ CHR '':'' # n) = [p, m, n]"
    by (simp add: splitOn_three)
  then show "tokenToPackage overrides (p @ CHR '':'' # m @ CHR '':'' # n) =
      Inr (toLower (case overrides m of Some ov \<Rightarrow> ov | None \<Rightarrow> m))"
    by (simp add: tokenToPackage_def Package_TokenToModule_def)
next
  assume "length (splitOn CHR '':'' tok) \<noteq> 3"
  then show "tokenToPackage overrides tok = Inl AssertionFailure"
    by (simp add: tokenToPackage_def Package_TokenToModule_def)
next
  assume "length (splitOn CHR '':'' tok) \<noteq> 3"
  then show "tokenToModule tok = Inl AssertionFailure"
    by (simp add: tokenToModule_def)
qed

text \<open>
  The theorem at the token \<open>p:Mod:n\<close> with the override \<open>Mod \<mapsto> Foo\<close>, and at the
  malformed token \<open>p:m\<close>.
\<close>

theorem tokenToPackage_resolves_witness:
  "tokenToPackage (map_of [(''Mod'', ''Foo'')]) ''p:Mod:n'' = Inr ''foo''
   \<and> tokenToPackage (map_of [(''Mod'', ''Foo'')]) ''p:Other:n'' = Inr ''other''
   \<and> tokenToPackage (map_of [(''Mod'', ''Foo'')]) ''p:m'' = Inl AssertionFailure
   \<and> tokenToModule ''p:m'' = Inl AssertionFailure"
  using tokenToPackage_resolves [of "''p''" "''Mod''" "''n''" "map_of [(''Mod'', ''Foo'')]" "''p:m''"]
    tokenToPackage_resolves [of "''p''" "''Other''" "''n''" "map_of [(''Mod'', ''Foo'')]" "''p:m''"]
  by (simp add: string_defs)

text \<open>
  C1 as it is written returns the override itself. With the override \<open>m \<mapsto> Foo\<close> the code
  returns \<open>foo\<close>.
\<close>

theorem tokenToPackage_override_counterexample:
  "tokenToPackage (map_of [(''m'', ''Foo'')]) ''p:m:n'' = Inr ''foo''
   \<and> map_of [(''m'', ''Foo'')] ''m'' = Some ''Foo''
   \<and> tokenToPackage (map_of [(''m'', ''Foo'')]) ''p:m:n'' \<noteq> Inr ''Foo''"
  by (simp add: tokenToPackage_def Package_TokenToModule_def string_defs)

section \<open>C2: collisions\<close>

text \<open>
  C2 at its own scenario. The module \<open>m\<close> holds the resource \<open>Bucket\<close>. The object type with
  the token \<open>p:m:bucket\<close> resolves to \<open>BucketType\<close>, and the rename of \<open>Bucket\<close> is recorded.
  The enum type with the member name \<open>bucket\<close> that is resolved next finds that rename and
  resolves to \<open>BucketType\<close> as well, not to \<open>BucketEnum\<close>; the same holds for the enum token
  \<open>p:m:Bucket\<close>.
\<close>

theorem tokenToEnum_after_tokenToType:
  "tokenToType exampleReceiver bucketPackages ''p:m:bucket'' =
     Inr (''BucketType'',
          packagesAfter (tokenToType exampleReceiver bucketPackages ''p:m:bucket''))
   \<and> map_sum id fst
        (tokenToEnum exampleReceiver
           (packagesAfter (tokenToType exampleReceiver bucketPackages ''p:m:bucket''))
           ''p:m:bucket'') = Inr ''BucketType''
   \<and> map_sum id fst
        (tokenToEnum exampleReceiver
           (packagesAfter (tokenToType exampleReceiver bucketPackages ''p:m:bucket''))
           ''p:m:Bucket'') = Inr ''BucketType''"
  by (simp add: scenario_defs naming_defs partition_defs string_defs)

section \<open>C3: repeated resolution\<close>

lemma renameIn_again:
  "renameStable n (snd (renameIn suffix a n)) b \<Longrightarrow>
   fst (renameIn suffix b n) = fst (renameIn suffix a n)"
  by (auto simp: renameIn_def renameStable_def Let_def split: option.splits if_splits)

lemma lookup_resolveIn:
  "lookupPackage r (snd (resolveIn suffix r ps m n)) m =
     map_option (\<lambda>a. snd (renameIn suffix a n)) (lookupPackage r ps m)"
  by (auto simp: resolveIn_def lookupPackage_def split: option.splits prod.splits)

lemma resolveIn_again:
  assumes "case lookupPackage r (snd (resolveIn suffix r ps m n)) m of
             None \<Rightarrow> lookupPackage r ps2 m = None
           | Some a \<Rightarrow>
               (case lookupPackage r ps2 m of None \<Rightarrow> False | Some b \<Rightarrow> renameStable n a b)"
  shows "fst (resolveIn suffix r ps2 m n) = fst (resolveIn suffix r ps m n)"
proof (cases "lookupPackage r ps m")
  case None
  with assms show ?thesis by (simp add: lookup_resolveIn resolveIn_def)
next
  case (Some a)
  with assms obtain b where b: "lookupPackage r ps2 m = Some b"
    and st: "renameStable n (snd (renameIn suffix a n)) b"
    by (auto simp: lookup_resolveIn split: option.splits)
  from renameIn_again[OF st] Some b show ?thesis
    by (simp add: resolveIn_def case_prod_beta)
qed

lemma tokenToType_resolveIn:
  "tokenToType r ps tok =
     (let components = splitOn CHR '':'' tok in
      if length components \<noteq> 3 then Inl AssertionFailure
      else if pkg r = None then Inl (Panic ''pkg.pkg is nil'')
      else
        (case tokenToPackage (modToPkg r) tok of
           Inl e \<Rightarrow> Inl e
         | Inr m \<Rightarrow>
             (let res = resolveIn ''Type'' r ps m (Title (components ! 2))
              in if m = modName r then Inr res
                 else Inr (stripProvider
                       (stripSlashes (if m = [] then components ! 0 else m) @ ''.'' @ fst res),
                     snd res))))"
  by (simp add: tokenToType_def resolveIn_def Let_def split: sum.splits option.splits prod.splits)

lemma tokenToEnum_resolveIn:
  "tokenToEnum r ps tok =
     (let components = splitOn CHR '':'' tok in
      if length components \<noteq> 3 then Inl AssertionFailure
      else if pkg r = None then Inl (Panic ''pkg.pkg is nil'')
      else
        (case tokenToPackage (modToPkg r) tok of
           Inl e \<Rightarrow> Inl e
         | Inr m \<Rightarrow>
             (let res = resolveIn ''Enum'' r ps m (Title (components ! 2))
              in if m = modName r then Inr res
                 else Inr (stripSlashes (if m = [] then components ! 0 else m) @ ''.'' @ fst res,
                     snd res))))"
  by (simp add: tokenToEnum_def resolveIn_def Let_def split: sum.splits option.splits prod.splits)

text \<open>The registries only grow under the calls of the resolver.\<close>

lemma registryGrows_refl: "registryGrows a a"
  by (auto simp: registryGrows_def split: option.splits)

lemma registryGrows_trans:
  assumes "registryGrows a b" and "registryGrows b c"
  shows "registryGrows a c"
  unfolding registryGrows_def
proof (intro conjI allI)
  from assms show "names a \<subseteq> names c" by (auto simp: registryGrows_def)
next
  fix n
  from assms have ab: "case renamed a n of
                Some x \<Rightarrow> renamed b n = Some x
              | None \<Rightarrow> renamed b n \<noteq> None \<longrightarrow> n \<in> names b"
    and bc: "case renamed b n of
                Some x \<Rightarrow> renamed c n = Some x
              | None \<Rightarrow> renamed c n \<noteq> None \<longrightarrow> n \<in> names c"
    and sub: "names b \<subseteq> names c"
    by (simp_all add: registryGrows_def)
  then show "case renamed a n of
                Some x \<Rightarrow> renamed c n = Some x
              | None \<Rightarrow> renamed c n \<noteq> None \<longrightarrow> n \<in> names c"
    by (cases "renamed a n"; cases "renamed b n") auto
qed

lemma renameIn_grows: "registryGrows a (snd (renameIn suffix a n))"
  by (auto simp: registryGrows_def renameIn_def Let_def split: option.splits)

lemma packagesGrow_refl: "packagesGrow ps ps"
  by (auto simp: packagesGrow_def registryGrows_refl split: option.splits)

lemma packagesGrow_trans:
  assumes "packagesGrow ps ps1" and "packagesGrow ps1 ps2"
  shows "packagesGrow ps ps2"
  unfolding packagesGrow_def
proof
  fix m
  show "case ps m of None \<Rightarrow> ps2 m = None
        | Some a \<Rightarrow> \<exists>b. ps2 m = Some b \<and> registryGrows a b"
  proof (cases "ps m")
    case None
    with assms show ?thesis
      by (auto simp: packagesGrow_def split: option.splits dest!: spec[of _ m])
  next
    case (Some a)
    with assms(1) obtain b where b: "ps1 m = Some b" "registryGrows a b"
      by (auto simp: packagesGrow_def split: option.splits dest!: spec[of _ m])
    with assms(2) obtain c where c: "ps2 m = Some c" "registryGrows b c"
      by (auto simp: packagesGrow_def split: option.splits dest!: spec[of _ m])
    from registryGrows_trans[OF b(2) c(2)] Some c(1) show ?thesis by simp
  qed
qed

lemma resolveIn_grows: "packagesGrow ps (snd (resolveIn suffix r ps m n))"
proof (cases "lookupPackage r ps m")
  case None
  then show ?thesis by (simp add: resolveIn_def packagesGrow_refl)
next
  case (Some a)
  then have a: "ps m = Some a"
    by (auto simp: lookupPackage_def split: if_splits)
  from Some have "snd (resolveIn suffix r ps m n) = ps(m \<mapsto> snd (renameIn suffix a n))"
    by (simp add: resolveIn_def case_prod_beta)
  with a renameIn_grows[of a suffix n] show ?thesis
    by (auto simp: packagesGrow_def registryGrows_refl split: option.splits)
qed

lemma tokenToType_grows:
  assumes "tokenToType r ps tok = Inr (ident, ps')"
  shows "packagesGrow ps ps'"
proof -
  from assms obtain m n where "ps' = snd (resolveIn ''Type'' r ps m n)"
    by (auto simp: tokenToType_resolveIn Let_def split: if_splits sum.splits)
       (metis snd_conv)
  then show ?thesis by (simp add: resolveIn_grows)
qed

lemma tokenToEnum_grows:
  assumes "tokenToEnum r ps tok = Inr (ident, ps')"
  shows "packagesGrow ps ps'"
proof -
  from assms obtain m n where "ps' = snd (resolveIn ''Enum'' r ps m n)"
    by (auto simp: tokenToEnum_resolveIn Let_def split: if_splits sum.splits)
       (metis snd_conv)
  then show ?thesis by (simp add: resolveIn_grows)
qed

lemma callResolver_grows:
  assumes "callResolver ps c = Inr ps'"
  shows "packagesGrow ps ps'"
proof (cases c)
  case (TypeCall r tok)
  with assms obtain ident where "tokenToType r ps tok = Inr (ident, ps')"
    by (cases "tokenToType r ps tok") (auto simp: callResolver_def)
  then show ?thesis by (rule tokenToType_grows)
next
  case (EnumCall r tok)
  with assms obtain ident where "tokenToEnum r ps tok = Inr (ident, ps')"
    by (cases "tokenToEnum r ps tok") (auto simp: callResolver_def)
  then show ?thesis by (rule tokenToEnum_grows)
qed

lemma resolverCalls_grow:
  "resolverCalls calls ps = Inr ps' \<Longrightarrow> packagesGrow ps ps'"
proof (induction calls arbitrary: ps)
  case Nil
  then show ?case by (simp add: resolverCalls_def packagesGrow_refl)
next
  case (Cons c calls)
  from Cons.prems obtain ps1 where c: "callResolver ps c = Inr ps1"
    and rest: "resolverCalls calls ps1 = Inr ps'"
    by (auto simp: resolverCalls_def split: sum.splits)
  from packagesGrow_trans[OF callResolver_grows[OF c] Cons.IH[OF rest]] show ?case .
qed

text \<open>
  The second call after a run of calls: the registry of the token's module has grown, and
  the name has not been registered in between.
\<close>

lemma resolveIn_after:
  assumes grow: "packagesGrow (snd (resolveIn suffix r ps m n)) ps2"
    and free: "(case lookupPackage r ps2 m of None \<Rightarrow> False | Some b \<Rightarrow> n \<in> names b) \<longrightarrow>
       (case lookupPackage r (snd (resolveIn suffix r ps m n)) m of
          None \<Rightarrow> False | Some a \<Rightarrow> n \<in> names a)"
  shows "fst (resolveIn suffix r ps2 m n) = fst (resolveIn suffix r ps m n)"
proof (rule resolveIn_again)
  let ?ps1 = "snd (resolveIn suffix r ps m n)"
  show "case lookupPackage r ?ps1 m of
          None \<Rightarrow> lookupPackage r ps2 m = None
        | Some a \<Rightarrow>
            (case lookupPackage r ps2 m of None \<Rightarrow> False | Some b \<Rightarrow> renameStable n a b)"
  proof (cases "lookupPackage r ?ps1 m")
    case None
    with grow show ?thesis
      by (auto simp: packagesGrow_def lookupPackage_def split: if_splits option.splits
          dest!: spec[of _ m])
  next
    case (Some a1)
    then have has: "hasPackages r" and a1: "?ps1 m = Some a1"
      by (auto simp: lookupPackage_def split: if_splits)
    from grow a1 obtain b where b: "ps2 m = Some b" and g: "registryGrows a1 b"
      by (auto simp: packagesGrow_def split: option.splits dest!: spec[of _ m])
    from Some obtain a where a: "lookupPackage r ps m = Some a"
      and a1': "a1 = snd (renameIn suffix a n)"
      by (auto simp: lookup_resolveIn)
    from free has b Some have fr: "n \<in> names b \<longrightarrow> n \<in> names a1"
      by (simp add: lookupPackage_def)
    from g have keep: "case renamed a1 n of
                Some x \<Rightarrow> renamed b n = Some x
              | None \<Rightarrow> renamed b n \<noteq> None \<longrightarrow> n \<in> names b"
      by (simp add: registryGrows_def)
    have "renameStable n a1 b"
    proof (cases "renamed a1 n")
      case None
      then have "n \<notin> names a1"
        by (auto simp: a1' renameIn_def Let_def split: option.splits if_splits)
      with fr keep None show ?thesis by (auto simp: renameStable_def)
    next
      case (Some x)
      with keep show ?thesis by (simp add: renameStable_def)
    qed
    with Some has b show ?thesis by (simp add: lookupPackage_def)
  qed
qed

lemma tokenToType_after:
  assumes first: "tokenToType r ps tok = Inr (ident, ps1)"
    and calls: "resolverCalls calls ps1 = Inr ps2"
    and free: "nameRegistered r ps2 tok \<longrightarrow> nameRegistered r ps1 tok"
  shows "\<exists>ps3. tokenToType r ps2 tok = Inr (ident, ps3)"
proof -
  let ?c = "splitOn CHR '':'' tok"
  let ?n = "Title (?c ! 2)"
  from first obtain m where len: "length ?c = 3" and pk: "pkg r \<noteq> None"
    and m: "tokenToPackage (modToPkg r) tok = Inr m"
    by (auto simp: tokenToType_resolveIn Let_def split: if_splits sum.splits)
  from first len pk m have ps1: "ps1 = snd (resolveIn ''Type'' r ps m ?n)"
    by (auto simp: tokenToType_resolveIn Let_def split: if_splits)
  from resolverCalls_grow[OF calls] have grow: "packagesGrow ps1 ps2" .
  from grow have grow': "packagesGrow (snd (resolveIn ''Type'' r ps m ?n)) ps2"
    by (simp add: ps1)
  from free m have free':
    "(case lookupPackage r ps2 m of None \<Rightarrow> False | Some b \<Rightarrow> ?n \<in> names b) \<longrightarrow>
       (case lookupPackage r (snd (resolveIn ''Type'' r ps m ?n)) m of
          None \<Rightarrow> False | Some a \<Rightarrow> ?n \<in> names a)"
    unfolding nameRegistered_def memberName_def ps1 by simp
  from resolveIn_after[OF grow' free']
  have "fst (resolveIn ''Type'' r ps2 m ?n) = fst (resolveIn ''Type'' r ps m ?n)" .
  with first len pk m show ?thesis
    by (auto simp: tokenToType_resolveIn Let_def prod_eq_iff split: if_splits)
qed

lemma tokenToEnum_after:
  assumes first: "tokenToEnum r ps tok = Inr (ident, ps1)"
    and calls: "resolverCalls calls ps1 = Inr ps2"
    and free: "nameRegistered r ps2 tok \<longrightarrow> nameRegistered r ps1 tok"
  shows "\<exists>ps3. tokenToEnum r ps2 tok = Inr (ident, ps3)"
proof -
  let ?c = "splitOn CHR '':'' tok"
  let ?n = "Title (?c ! 2)"
  from first obtain m where len: "length ?c = 3" and pk: "pkg r \<noteq> None"
    and m: "tokenToPackage (modToPkg r) tok = Inr m"
    by (auto simp: tokenToEnum_resolveIn Let_def split: if_splits sum.splits)
  from first len pk m have ps1: "ps1 = snd (resolveIn ''Enum'' r ps m ?n)"
    by (auto simp: tokenToEnum_resolveIn Let_def split: if_splits)
  from resolverCalls_grow[OF calls] have grow: "packagesGrow ps1 ps2" .
  from grow have grow': "packagesGrow (snd (resolveIn ''Enum'' r ps m ?n)) ps2"
    by (simp add: ps1)
  from free m have free':
    "(case lookupPackage r ps2 m of None \<Rightarrow> False | Some b \<Rightarrow> ?n \<in> names b) \<longrightarrow>
       (case lookupPackage r (snd (resolveIn ''Enum'' r ps m ?n)) m of
          None \<Rightarrow> False | Some a \<Rightarrow> ?n \<in> names a)"
    unfolding nameRegistered_def memberName_def ps1 by simp
  from resolveIn_after[OF grow' free']
  have "fst (resolveIn ''Enum'' r ps2 m ?n) = fst (resolveIn ''Enum'' r ps m ?n)" .
  with first len pk m show ?thesis
    by (auto simp: tokenToEnum_resolveIn Let_def prod_eq_iff split: if_splits)
qed

lemma nameRegistered_grows:
  assumes "packagesGrow ps ps'" and "nameRegistered r ps tok"
  shows "nameRegistered r ps' tok"
proof -
  from assms(2) obtain m a where m: "tokenToPackage (modToPkg r) tok = Inr m"
    and has: "hasPackages r" and a: "ps m = Some a" and n: "memberName tok \<in> names a"
    by (auto simp: nameRegistered_def lookupPackage_def split: sum.splits option.splits if_splits)
  from assms(1) a obtain b where "ps' m = Some b" "registryGrows a b"
    by (auto simp: packagesGrow_def split: option.splits dest!: spec[of _ m])
  with n m has show ?thesis
    by (auto simp: nameRegistered_def lookupPackage_def registryGrows_def)
qed

lemmas c3_defs =
  scenario_defs naming_defs partition_defs string_defs resolverCalls_def callResolver_def
  nameRegistered_def memberName_def

text \<open>
  C3, as the code has it. Between two calls of the resolver the registry is written by
  calls of \<open>tokenToType\<close> and \<open>tokenToEnum\<close> only. After any run of such calls (any
  receivers, any tokens), a second call of \<open>tokenToType\<close> (or of \<open>tokenToEnum\<close>) for the same
  token with the same receiver returns the identifier of the first call, provided the
  token's own capitalised member name has not been registered in the token's module between
  the two calls; whatever else was registered does not matter. In particular this holds
  with no condition when the name was registered before the first call: the first call
  records the rename, and the rename is never removed. \<open>tokenToResource\<close> reads no registry
  at all: it is a function of the receiver and the token alone.
\<close>

theorem naming_resolver_idempotent:
  "(tokenToType r ps tok = Inr (ident, ps1) \<and> resolverCalls calls ps1 = Inr ps2
      \<and> (nameRegistered r ps2 tok \<longrightarrow> nameRegistered r ps1 tok) \<longrightarrow>
      (\<exists>ps3. tokenToType r ps2 tok = Inr (ident, ps3)))
   \<and> (tokenToEnum r ps tok = Inr (ident, ps1) \<and> resolverCalls calls ps1 = Inr ps2
      \<and> (nameRegistered r ps2 tok \<longrightarrow> nameRegistered r ps1 tok) \<longrightarrow>
      (\<exists>ps3. tokenToEnum r ps2 tok = Inr (ident, ps3)))
   \<and> (tokenToType r ps tok = Inr (ident, ps1) \<and> resolverCalls calls ps1 = Inr ps2
      \<and> nameRegistered r ps tok \<longrightarrow>
      (\<exists>ps3. tokenToType r ps2 tok = Inr (ident, ps3)))
   \<and> (tokenToEnum r ps tok = Inr (ident, ps1) \<and> resolverCalls calls ps1 = Inr ps2
      \<and> nameRegistered r ps tok \<longrightarrow>
      (\<exists>ps3. tokenToEnum r ps2 tok = Inr (ident, ps3)))"
proof (intro conjI impI)
  assume "tokenToType r ps tok = Inr (ident, ps1) \<and> resolverCalls calls ps1 = Inr ps2
      \<and> (nameRegistered r ps2 tok \<longrightarrow> nameRegistered r ps1 tok)"
  then show "\<exists>ps3. tokenToType r ps2 tok = Inr (ident, ps3)"
    by (elim conjE) (rule tokenToType_after)
next
  assume "tokenToEnum r ps tok = Inr (ident, ps1) \<and> resolverCalls calls ps1 = Inr ps2
      \<and> (nameRegistered r ps2 tok \<longrightarrow> nameRegistered r ps1 tok)"
  then show "\<exists>ps3. tokenToEnum r ps2 tok = Inr (ident, ps3)"
    by (elim conjE) (rule tokenToEnum_after)
next
  assume a: "tokenToType r ps tok = Inr (ident, ps1) \<and> resolverCalls calls ps1 = Inr ps2
      \<and> nameRegistered r ps tok"
  then have "nameRegistered r ps1 tok"
    using nameRegistered_grows[OF tokenToType_grows] by blast
  with a show "\<exists>ps3. tokenToType r ps2 tok = Inr (ident, ps3)"
    using tokenToType_after by blast
next
  assume a: "tokenToEnum r ps tok = Inr (ident, ps1) \<and> resolverCalls calls ps1 = Inr ps2
      \<and> nameRegistered r ps tok"
  then have "nameRegistered r ps1 tok"
    using nameRegistered_grows[OF tokenToEnum_grows] by blast
  with a show "\<exists>ps3. tokenToEnum r ps2 tok = Inr (ident, ps3)"
    using tokenToEnum_after by blast
qed

text \<open>
  The theorem in the module \<open>m\<close> that holds the resource \<open>Bucket\<close>. The object type
  \<open>p:m:bucket\<close> resolves to \<open>BucketType\<close>; then the object type \<open>p:m:bucketArgs\<close> and the enum
  \<open>p:m:newBucket\<close> are resolved, which records two more renames and registers two more
  names; the second call returns \<open>BucketType\<close> again. The object type \<open>p:m:thing\<close>, whose name
  is free, resolves to \<open>Thing\<close> before and after the same calls.
\<close>

theorem naming_resolver_idempotent_witness:
  "tokenToType exampleReceiver bucketPackages ''p:m:bucket'' =
     Inr (''BucketType'',
          packagesAfter (tokenToType exampleReceiver bucketPackages ''p:m:bucket''))
   \<and> nameRegistered exampleReceiver bucketPackages ''p:m:bucket''
   \<and> (\<exists>ps2. resolverCalls
          [TypeCall exampleReceiver ''p:m:bucketArgs'', EnumCall exampleReceiver ''p:m:newBucket'']
          (packagesAfter (tokenToType exampleReceiver bucketPackages ''p:m:bucket'')) = Inr ps2)
   \<and> (\<exists>ps3. tokenToType exampleReceiver
          (projr (resolverCalls
             [TypeCall exampleReceiver ''p:m:bucketArgs'',
              EnumCall exampleReceiver ''p:m:newBucket'']
             (packagesAfter (tokenToType exampleReceiver bucketPackages ''p:m:bucket''))))
          ''p:m:bucket'' = Inr (''BucketType'', ps3))
   \<and> tokenToType exampleReceiver bucketPackages ''p:m:thing'' = Inr (''Thing'', bucketPackages)
   \<and> \<not> nameRegistered exampleReceiver
        (projr (resolverCalls
           [TypeCall exampleReceiver ''p:m:bucketArgs'',
            EnumCall exampleReceiver ''p:m:newBucket''] bucketPackages))
        ''p:m:thing''
   \<and> (\<exists>ps3. tokenToType exampleReceiver
          (projr (resolverCalls
             [TypeCall exampleReceiver ''p:m:bucketArgs'',
              EnumCall exampleReceiver ''p:m:newBucket''] bucketPackages))
          ''p:m:thing'' = Inr (''Thing'', ps3))"
proof -
  let ?calls = "[TypeCall exampleReceiver ''p:m:bucketArgs'',
      EnumCall exampleReceiver ''p:m:newBucket'']"
  let ?ps1 = "packagesAfter (tokenToType exampleReceiver bucketPackages ''p:m:bucket'')"
  let ?ps2 = "projr (resolverCalls ?calls ?ps1)"
  let ?qs2 = "projr (resolverCalls ?calls bucketPackages)"
  have first: "tokenToType exampleReceiver bucketPackages ''p:m:bucket'' =
      Inr (''BucketType'', ?ps1)"
    by (simp add: c3_defs)
  have reg: "nameRegistered exampleReceiver bucketPackages ''p:m:bucket''"
    by (simp add: c3_defs)
  have run: "\<exists>ps2. resolverCalls ?calls ?ps1 = Inr ps2"
    by (simp add: c3_defs)
  then have run': "resolverCalls ?calls ?ps1 = Inr ?ps2"
    by auto
  have thing: "tokenToType exampleReceiver bucketPackages ''p:m:thing'' =
      Inr (''Thing'', bucketPackages)"
    by (simp add: c3_defs)
  have "\<exists>qs2. resolverCalls ?calls bucketPackages = Inr qs2"
    by (simp add: c3_defs)
  then have qrun: "resolverCalls ?calls bucketPackages = Inr ?qs2"
    by auto
  have free: "\<not> nameRegistered exampleReceiver ?qs2 ''p:m:thing''"
    by (simp add: c3_defs)
  from naming_resolver_idempotent[of exampleReceiver bucketPackages "''p:m:bucket''"
      "''BucketType''" ?ps1 ?calls ?ps2] first run' reg
  have a: "\<exists>ps3. tokenToType exampleReceiver ?ps2 ''p:m:bucket'' = Inr (''BucketType'', ps3)"
    by blast
  from naming_resolver_idempotent[of exampleReceiver bucketPackages "''p:m:thing''"
      "''Thing''" bucketPackages ?calls ?qs2] thing qrun free
  have b: "\<exists>ps3. tokenToType exampleReceiver ?qs2 ''p:m:thing'' = Inr (''Thing'', ps3)"
    by blast
  from first reg run a thing free b show ?thesis by (intro conjI)
qed

text \<open>
  C3 as it is written fails when the name itself is registered between the calls, which a
  call of the resolver for another token does. In the module \<open>m\<close> that holds the resource
  \<open>Bucket\<close>, the object type \<open>p:m:bucketType\<close> resolves to \<open>BucketType\<close>, a free name, and
  nothing is recorded. The object type \<open>p:m:bucket\<close> is then renamed to \<open>BucketType\<close>, which
  registers that name. The second call for \<open>p:m:bucketType\<close> returns \<open>BucketTypeType\<close>.
\<close>

theorem naming_resolver_counterexample:
  "map_sum id fst (tokenToType exampleReceiver bucketPackages ''p:m:bucketType'') =
     Inr ''BucketType''
   \<and> map_sum id fst
        (tokenToType exampleReceiver
           (packagesAfter (tokenToType exampleReceiver bucketPackages ''p:m:bucketType''))
           ''p:m:bucket'') = Inr ''BucketType''
   \<and> map_sum id fst
        (tokenToType exampleReceiver
           (projr (resolverCalls [TypeCall exampleReceiver ''p:m:bucket'']
              (packagesAfter (tokenToType exampleReceiver bucketPackages ''p:m:bucketType''))))
           ''p:m:bucketType'') = Inr ''BucketTypeType''"
  by (simp add: c3_defs)

section \<open>The optionality propagator: induction and invariants\<close>

text \<open>
  The recursion of the propagator in four cases: no property left; a property that is
  skipped; an object type that is marked and entered; an enum type that is marked.
\<close>

lemma mark_induct [case_names Nil Skip Object Enum]:
  assumes nil: "\<And>ov table seen ps po. P ov table (seen, ps) [] po"
    and skip: "\<And>ov table seen ps p props po.
        markOptionalPropertyTypesAsRequiringPtr ov table (seen, ps) (p # props) po =
          markOptionalPropertyTypesAsRequiringPtr ov table (seen, ps) props po \<Longrightarrow>
        (\<And>tok. typeToken (ptype p) = Some tok \<Longrightarrow> \<not> isRequired p \<or> po \<Longrightarrow> tok \<in> seen) \<Longrightarrow>
        P ov table (seen, ps) props po \<Longrightarrow> P ov table (seen, ps) (p # props) po"
    and obj: "\<And>ov table seen ps p props po tok opkg.
        ptype p = ObjectType tok opkg \<Longrightarrow> \<not> isRequired p \<or> po \<Longrightarrow> tok \<notin> seen \<Longrightarrow>
        (\<And>m. tokenToPackage ov tok = Inr m \<Longrightarrow>
           P ov table
             (insert tok seen, updatePkg ps m (setTypeDetails (\<lambda>d. d\<lparr>ptrElement := True\<rparr>) tok))
             (propertiesOf table tok) True) \<Longrightarrow>
        (\<And>m s1. tokenToPackage ov tok = Inr m \<Longrightarrow>
           markOptionalPropertyTypesAsRequiringPtr ov table
             (insert tok seen, updatePkg ps m (setTypeDetails (\<lambda>d. d\<lparr>ptrElement := True\<rparr>) tok))
             (propertiesOf table tok) True = Inr s1 \<Longrightarrow>
           P ov table s1 props po) \<Longrightarrow>
        P ov table (seen, ps) (p # props) po"
    and enum: "\<And>ov table seen ps p props po tok et.
        ptype p = EnumType tok et \<Longrightarrow> \<not> isRequired p \<or> po \<Longrightarrow> tok \<notin> seen \<Longrightarrow>
        (\<And>m. tokenToPackage ov tok = Inr m \<Longrightarrow>
           P ov table
             (insert tok seen, updatePkg ps m (setEnumDetails (\<lambda>d. d\<lparr>ptrElement := True\<rparr>) tok))
             props po) \<Longrightarrow>
        P ov table (seen, ps) (p # props) po"
  shows "P ov table s props po"
proof (induction ov table s props po rule: markOptionalPropertyTypesAsRequiringPtr.induct)
  case (1 ov table seen ps parentOptional)
  show ?case by (rule nil)
next
  case (2 ov table seen ps p props parentOptional)
  show ?case
  proof (cases "ptype p")
    case (ObjectType tok opkg)
    show ?thesis
    proof (cases "(\<not> isRequired p \<or> parentOptional) \<and> tok \<notin> seen")
      case True
      then have c: "\<not> isRequired p \<or> parentOptional" and u: "tok \<notin> seen" by auto
      show ?thesis
        by (rule obj[OF ObjectType c u]) (use 2 ObjectType c u in auto)
    next
      case False
      show ?thesis
      proof (rule skip)
        show "markOptionalPropertyTypesAsRequiringPtr ov table (seen, ps) (p # props)
                parentOptional =
              markOptionalPropertyTypesAsRequiringPtr ov table (seen, ps) props parentOptional"
          using ObjectType False by auto
        show "tok' \<in> seen"
          if "typeToken (ptype p) = Some tok'" "\<not> isRequired p \<or> parentOptional" for tok'
          using that ObjectType False by (auto simp: typeToken_def)
        show "P ov table (seen, ps) props parentOptional"
        proof (cases "\<not> isRequired p \<or> parentOptional")
          case True
          with False have "tok \<in> seen" by blast
          with "2.IH" ObjectType True show ?thesis by blast
        next
          case False
          with "2.IH" ObjectType show ?thesis by auto
        qed
      qed
    qed
  next
    case (EnumType tok et)
    show ?thesis
    proof (cases "(\<not> isRequired p \<or> parentOptional) \<and> tok \<notin> seen")
      case True
      then have c: "\<not> isRequired p \<or> parentOptional" and u: "tok \<notin> seen" by auto
      show ?thesis
        by (rule enum[OF EnumType c u]) (use 2 EnumType c u in auto)
    next
      case False
      show ?thesis
      proof (rule skip)
        show "markOptionalPropertyTypesAsRequiringPtr ov table (seen, ps) (p # props)
                parentOptional =
              markOptionalPropertyTypesAsRequiringPtr ov table (seen, ps) props parentOptional"
          using EnumType False by auto
        show "tok' \<in> seen"
          if "typeToken (ptype p) = Some tok'" "\<not> isRequired p \<or> parentOptional" for tok'
          using that EnumType False by (auto simp: typeToken_def)
        show "P ov table (seen, ps) props parentOptional"
        proof (cases "\<not> isRequired p \<or> parentOptional")
          case True
          with False have "tok \<in> seen" by blast
          with "2.IH" EnumType True show ?thesis by blast
        next
          case False
          with "2.IH" EnumType show ?thesis by auto
        qed
      qed
    qed
  qed (use 2 in \<open>auto intro!: skip simp: typeToken_def\<close>)
qed

lemma mark_Object:
  assumes "ptype p = ObjectType tok opkg" "\<not> isRequired p \<or> po" "tok \<notin> seen"
  shows "markOptionalPropertyTypesAsRequiringPtr ov table (seen, ps) (p # props) po =
     (case tokenToPackage ov tok of
        Inl e \<Rightarrow> Inl e
      | Inr m \<Rightarrow>
          (case markOptionalPropertyTypesAsRequiringPtr ov table
                  (insert tok seen,
                   updatePkg ps m (setTypeDetails (\<lambda>d. d\<lparr>ptrElement := True\<rparr>) tok))
                  (propertiesOf table tok) True of
             Inl e \<Rightarrow> Inl e
           | Inr s' \<Rightarrow> markOptionalPropertyTypesAsRequiringPtr ov table s' props po))"
  using assms by auto

lemma mark_Enum:
  assumes "ptype p = EnumType tok et" "\<not> isRequired p \<or> po" "tok \<notin> seen"
  shows "markOptionalPropertyTypesAsRequiringPtr ov table (seen, ps) (p # props) po =
     (case tokenToPackage ov tok of
        Inl e \<Rightarrow> Inl e
      | Inr m \<Rightarrow>
          markOptionalPropertyTypesAsRequiringPtr ov table
            (insert tok seen, updatePkg ps m (setEnumDetails (\<lambda>d. d\<lparr>ptrElement := True\<rparr>) tok))
            props po)"
  using assms by auto


declare markOptionalPropertyTypesAsRequiringPtr.simps(2) [simp del]

lemma mark_preserves:
  assumes t: "\<And>ps m tok. P ps \<Longrightarrow>
                P (updatePkg ps m (setTypeDetails (\<lambda>d. d\<lparr>ptrElement := True\<rparr>) tok))"
      and e: "\<And>ps m tok. P ps \<Longrightarrow>
                P (updatePkg ps m (setEnumDetails (\<lambda>d. d\<lparr>ptrElement := True\<rparr>) tok))"
  shows "markOptionalPropertyTypesAsRequiringPtr ov table s props po = Inr s' \<Longrightarrow>
         P (snd s) \<Longrightarrow> P (snd s')"
proof (induction ov table s props po arbitrary: s' rule: mark_induct)
  case (Nil ov table seen ps po)
  then show ?case by simp
next
  case (Skip ov table seen ps p props po)
  then show ?case by simp
next
  case (Object ov table seen ps p props po tok opkg)
  from Object.prems(1) obtain m s1 where m: "tokenToPackage ov tok = Inr m"
    and s1: "markOptionalPropertyTypesAsRequiringPtr ov table
             (insert tok seen, updatePkg ps m (setTypeDetails (\<lambda>d. d\<lparr>ptrElement := True\<rparr>) tok))
             (propertiesOf table tok) True = Inr s1"
    and s': "markOptionalPropertyTypesAsRequiringPtr ov table s1 props po = Inr s'"
    by (auto simp: mark_Object[OF Object.hyps] split: sum.splits)
  from Object.prems(2) have "P (updatePkg ps m (setTypeDetails (\<lambda>d. d\<lparr>ptrElement := True\<rparr>) tok))"
    by (simp add: t)
  with Object.IH(1)[OF m s1] have "P (snd s1)" by simp
  with Object.IH(2)[OF m s1 s'] show ?case .
next
  case (Enum ov table seen ps p props po tok et)
  from Enum.prems(1) obtain m where m: "tokenToPackage ov tok = Inr m"
    and s': "markOptionalPropertyTypesAsRequiringPtr ov table
             (insert tok seen, updatePkg ps m (setEnumDetails (\<lambda>d. d\<lparr>ptrElement := True\<rparr>) tok))
             props po = Inr s'"
    by (auto simp: mark_Enum[OF Enum.hyps] split: sum.splits)
  from Enum.prems(2) have "P (updatePkg ps m (setEnumDetails (\<lambda>d. d\<lparr>ptrElement := True\<rparr>) tok))"
    by (simp add: e)
  with Enum.IH[OF m s'] show ?case by simp
qed

lemma typeFlag_updatePkg:
  assumes "typeFlag flag ps m tok"
    and "\<And>pack. flag (detailsFor (typeDetailsMap pack) tok) \<Longrightarrow>
           flag (detailsFor (typeDetailsMap (f pack)) tok)"
  shows "typeFlag flag (updatePkg ps m' f) m tok"
  using assms
  by (auto simp: typeFlag_def updatePkg_def getPkg_def split: option.splits)

lemma enumFlag_updatePkg:
  assumes "enumFlag flag ps m tok"
    and "\<And>pack. flag (detailsFor (enumDetailsMap pack) tok) \<Longrightarrow>
           flag (detailsFor (enumDetailsMap (f pack)) tok)"
  shows "enumFlag flag (updatePkg ps m' f) m tok"
  using assms
  by (auto simp: enumFlag_def updatePkg_def getPkg_def split: option.splits)

lemma detailsFor_setTypeDetails:
  "detailsFor (typeDetailsMap (setTypeDetails g tok' pack)) tok =
     (if tok = tok' then g (detailsFor (typeDetailsMap pack) tok)
      else detailsFor (typeDetailsMap pack) tok)"
  by (simp add: setTypeDetails_def detailsFor_def)

lemma detailsFor_setEnumDetails:
  "detailsFor (enumDetailsMap (setEnumDetails g tok' pack)) tok =
     (if tok = tok' then g (detailsFor (enumDetailsMap pack) tok)
      else detailsFor (enumDetailsMap pack) tok)"
  by (simp add: setEnumDetails_def detailsFor_def)

lemma typeDetailsMap_setEnumDetails [simp]:
  "typeDetailsMap (setEnumDetails g tok pack) = typeDetailsMap pack"
  by (simp add: setEnumDetails_def)

lemma enumDetailsMap_setTypeDetails [simp]:
  "enumDetailsMap (setTypeDetails g tok pack) = enumDetailsMap pack"
  by (simp add: setTypeDetails_def)

lemma typeFlag_set:
  assumes "\<And>d. flag (g d)"
  shows "typeFlag flag (updatePkg ps m (setTypeDetails g tok)) m tok"
  using assms
  by (simp add: typeFlag_def updatePkg_def getPkg_def detailsFor_setTypeDetails
      split: option.splits)

lemma enumFlag_set:
  assumes "\<And>d. flag (g d)"
  shows "enumFlag flag (updatePkg ps m (setEnumDetails g tok)) m tok"
  using assms
  by (simp add: enumFlag_def updatePkg_def getPkg_def detailsFor_setEnumDetails
      split: option.splits)

lemma monotoneFlag_selectors [simp]:
  "monotoneFlag ptrElement" "monotoneFlag arrayElement" "monotoneFlag mapElement"
  by (simp_all add: monotoneFlag_def)

lemma mark_typeFlag:
  assumes "markOptionalPropertyTypesAsRequiringPtr ov table s props po = Inr s'"
    and "typeFlag flag (snd s) m tok" and "monotoneFlag flag"
  shows "typeFlag flag (snd s') m tok"
proof (rule mark_preserves[where P = "\<lambda>ps. typeFlag flag ps m tok", OF _ _ assms(1,2)])
  fix ps m' tok'
  assume a: "typeFlag flag ps m tok"
  show "typeFlag flag (updatePkg ps m' (setTypeDetails (\<lambda>d. d\<lparr>ptrElement := True\<rparr>) tok')) m tok"
    by (rule typeFlag_updatePkg[OF a])
       (use assms(3) in \<open>auto simp: detailsFor_setTypeDetails monotoneFlag_def\<close>)
next
  fix ps m' tok'
  assume "typeFlag flag ps m tok"
  then show "typeFlag flag (updatePkg ps m' (setEnumDetails (\<lambda>d. d\<lparr>ptrElement := True\<rparr>) tok')) m tok"
    by (rule typeFlag_updatePkg) simp
qed

lemma mark_enumFlag:
  assumes "markOptionalPropertyTypesAsRequiringPtr ov table s props po = Inr s'"
    and "enumFlag flag (snd s) m tok" and "monotoneFlag flag"
  shows "enumFlag flag (snd s') m tok"
proof (rule mark_preserves[where P = "\<lambda>ps. enumFlag flag ps m tok", OF _ _ assms(1,2)])
  fix ps m' tok'
  assume a: "enumFlag flag ps m tok"
  show "enumFlag flag (updatePkg ps m' (setEnumDetails (\<lambda>d. d\<lparr>ptrElement := True\<rparr>) tok')) m tok"
    by (rule enumFlag_updatePkg[OF a])
       (use assms(3) in \<open>auto simp: detailsFor_setEnumDetails monotoneFlag_def\<close>)
next
  fix ps m' tok'
  assume "enumFlag flag ps m tok"
  then show "enumFlag flag (updatePkg ps m' (setTypeDetails (\<lambda>d. d\<lparr>ptrElement := True\<rparr>) tok')) m tok"
    by (rule enumFlag_updatePkg) simp
qed

lemma scanType_typeFlag:
  assumes "scanType ov table s t = Inr s'" and "typeFlag flag (snd s) m tok" and "monotoneFlag flag"
  shows "typeFlag flag (snd s') m tok"
proof (cases t)
  case (ArrayType et)
  with assms show ?thesis
    by (auto simp: scanType_def monotoneFlag_def detailsFor_setTypeDetails
        split: schemaType.splits sum.splits intro!: typeFlag_updatePkg)
next
  case (MapType et)
  with assms show ?thesis
    by (auto simp: scanType_def monotoneFlag_def detailsFor_setTypeDetails
        split: schemaType.splits sum.splits intro!: typeFlag_updatePkg)
next
  case (ObjectType tok' opkg)
  with assms(1) obtain m' where
    "markOptionalPropertyTypesAsRequiringPtr ov table
       (fst s, updatePkg (snd s) m' (\<lambda>pack. pack\<lparr>types := types pack @ [tok']\<rparr>))
       (propertiesOf table tok') False = Inr s'"
    by (auto simp: scanType_def split: sum.splits)
  from mark_typeFlag[OF this _ assms(3), of m tok] assms(2) show ?thesis
    by (simp add: typeFlag_updatePkg)
next
  case (EnumType tok' et)
  with assms show ?thesis
    by (auto simp: scanType_def split: sum.splits intro!: typeFlag_updatePkg)
qed (use assms in \<open>auto simp: scanType_def\<close>)

lemma foldE_preserves:
  assumes "\<And>s x s'. f s x = Inr s' \<Longrightarrow> P s \<Longrightarrow> P s'"
  shows "foldE f s xs = Inr s' \<Longrightarrow> P s \<Longrightarrow> P s'"
  by (induction xs arbitrary: s) (auto split: sum.splits intro: assms)

lemma scanType_sets_array:
  assumes "scanType ov table s (ArrayType (ObjectType tok opkg)) = Inr s'"
    and "tokenToPackage ov tok = Inr m"
  shows "typeFlag arrayElement (snd s') m tok"
  using assms by (auto simp: scanType_def intro!: typeFlag_set)

lemma foldE_scanType_array:
  assumes "foldE (scanType ov table) s ts = Inr s'"
    and "ArrayType (ObjectType tok opkg) \<in> set ts" and "tokenToPackage ov tok = Inr m"
  shows "typeFlag arrayElement (snd s') m tok"
  using assms
proof (induction ts arbitrary: s)
  case Nil
  then show ?case by simp
next
  case (Cons t ts)
  from Cons.prems(1) obtain s1 where s1: "scanType ov table s t = Inr s1"
    and rest: "foldE (scanType ov table) s1 ts = Inr s'"
    by (auto split: sum.splits)
  show ?case
  proof (cases "t = ArrayType (ObjectType tok opkg)")
    case True
    with s1 Cons.prems(3) have "typeFlag arrayElement (snd s1) m tok"
      by (simp add: scanType_sets_array)
    with rest show ?thesis
      by (rule foldE_preserves[where P = "\<lambda>s. typeFlag arrayElement (snd s) m tok", rotated])
         (auto intro: scanType_typeFlag)
  next
    case False
    with Cons.prems(2) have "ArrayType (ObjectType tok opkg) \<in> set ts" by simp
    from Cons.IH[OF rest this Cons.prems(3)] show ?thesis .
  qed
qed

lemma scanResource_typeFlag:
  assumes "scanResource ov table s r = Inr s'" and "typeFlag flag (snd s) m tok" and "monotoneFlag flag"
  shows "typeFlag flag (snd s') m tok"
proof -
  from assms(1) obtain m' rn s1 where
    s1: "markOptionalPropertyTypesAsRequiringPtr ov table
           (fst s, updatePkg (snd s) m'
              (\<lambda>pack. pack\<lparr>resources := resources pack @ [r],
                            names := names pack \<union> set (resourceIdentifiers r rn)\<rparr>))
           (inputProperties r) (\<not> isProvider r) = Inr s1"
    and s': "markOptionalPropertyTypesAsRequiringPtr ov table s1 (properties r)
           (\<not> isProvider r) = Inr s'"
    by (auto simp: scanResource_def Let_def split: sum.splits)
  from mark_typeFlag[OF s1 _ assms(3), of m tok] assms(2) have "typeFlag flag (snd s1) m tok"
    by (simp add: typeFlag_updatePkg)
  from mark_typeFlag[OF s' this assms(3)] show ?thesis .
qed

lemma scanFunction_typeFlag:
  assumes "scanFunction ov ps f = Inr ps'" and "typeFlag flag ps m tok"
  shows "typeFlag flag ps' m tok"
  using assms
  by (auto simp: scanFunction_def Let_def split: sum.splits intro!: typeFlag_updatePkg)

lemma partitionPackage_array:
  assumes "partitionPackage p = Inr s'"
    and "ArrayType (ObjectType tok opkg) \<in> set (packageTypes p)"
    and "tokenToPackage (goModuleToPackage p) tok = Inr m"
  shows "typeFlag arrayElement (snd s') m tok"
proof -
  let ?ov = "goModuleToPackage p" and ?table = "objectTable p"
  from assms(1) obtain s0 s1 s2 s3 ps where
    t: "foldE (scanType ?ov ?table) s0 (packageTypes p) = Inr s1"
    and pr: "scanResource ?ov ?table s1 (provider p) = Inr s2"
    and rs: "foldE (scanResource ?ov ?table) s2 (packageResources p) = Inr s3"
    and fs: "foldE (scanFunction ?ov) (snd s3) (packageFunctions p) = Inr ps"
    and s': "s' = (fst s3, ps)"
    by (auto simp: partitionPackage_def Let_def split: sum.splits)
  from foldE_scanType_array[OF t assms(2,3)] have "typeFlag arrayElement (snd s1) m tok" .
  with pr have "typeFlag arrayElement (snd s2) m tok"
    by (rule scanResource_typeFlag) simp
  with rs have "typeFlag arrayElement (snd s3) m tok"
    by (rule foldE_preserves[where P = "\<lambda>s. typeFlag arrayElement (snd s) m tok", rotated])
       (auto intro: scanResource_typeFlag)
  with fs have "typeFlag arrayElement ps m tok"
    by (rule foldE_preserves[where P = "\<lambda>ps. typeFlag arrayElement ps m tok", rotated])
       (auto intro: scanFunction_typeFlag)
  with s' show ?thesis by simp
qed

lemma propertiesOf_tokensOk:
  assumes "tableOk ov table"
  shows "tokensOk ov (propertiesOf table tok)"
proof (cases "map_of table tok")
  case None
  then show ?thesis by (simp add: propertiesOf_def tokensOk_def)
next
  case (Some props)
  then have "(tok, props) \<in> set table" by (rule map_of_SomeD)
  with assms have "tokensOk ov props" by (auto simp: tableOk_def)
  with Some show ?thesis by (simp add: propertiesOf_def)
qed

lemma mark_returns:
  assumes "tableOk ov table"
  shows "tokensOk ov props \<Longrightarrow> \<exists>s'. markOptionalPropertyTypesAsRequiringPtr ov table s props po = Inr s'"
  using assms
proof (induction ov table s props po rule: mark_induct)
  case (Nil ov table seen ps po)
  then show ?case by simp
next
  case (Skip ov table seen ps p props po)
  then show ?case by (simp add: tokensOk_def)
next
  case (Object ov table seen ps p props po tok opkg)
  from Object.prems Object.hyps(1) obtain m where m: "tokenToPackage ov tok = Inr m"
    by (auto simp: tokensOk_def typeToken_def)
  from Object.IH(1)[OF m propertiesOf_tokensOk[OF Object.prems(2)] Object.prems(2)]
  obtain s1 where s1: "markOptionalPropertyTypesAsRequiringPtr ov table
      (insert tok seen, updatePkg ps m (setTypeDetails (\<lambda>d. d\<lparr>ptrElement := True\<rparr>) tok))
      (propertiesOf table tok) True = Inr s1" by blast
  from Object.prems(1) have "tokensOk ov props" by (simp add: tokensOk_def)
  from Object.IH(2)[OF m s1 this Object.prems(2)] m s1 show ?case
    by (simp add: mark_Object[OF Object.hyps])
next
  case (Enum ov table seen ps p props po tok et)
  from Enum.prems Enum.hyps(1) obtain m where m: "tokenToPackage ov tok = Inr m"
    by (auto simp: tokensOk_def typeToken_def)
  from Enum.prems(1) have "tokensOk ov props" by (simp add: tokensOk_def)
  from Enum.IH[OF m this Enum.prems(2)] m show ?case
    by (simp add: mark_Enum[OF Enum.hyps])
qed

lemma namesOf_updatePkg:
  "namesOf (updatePkg ps m f) m' =
     (if m' = m then names (f (fst (getPkg ps m))) else namesOf ps m')"
  by (auto simp: namesOf_def updatePkg_def getPkg_def split: option.splits)

lemma names_fst_getPkg: "names (fst (getPkg ps m)) = namesOf ps m"
  by (simp add: getPkg_def namesOf_def newPkgContext_def split: option.splits)

lemma namesOf_setTypeDetails [simp]:
  "namesOf (updatePkg ps m (setTypeDetails f tok)) m' = namesOf ps m'"
  by (simp add: namesOf_updatePkg names_fst_getPkg setTypeDetails_def)

lemma namesOf_setEnumDetails [simp]:
  "namesOf (updatePkg ps m (setEnumDetails f tok)) m' = namesOf ps m'"
  by (simp add: namesOf_updatePkg names_fst_getPkg setEnumDetails_def)

lemma mark_namesOf:
  assumes "markOptionalPropertyTypesAsRequiringPtr ov table s props po = Inr s'"
  shows "namesOf (snd s') m = namesOf (snd s) m"
  using mark_preserves[where P = "\<lambda>ps. namesOf ps m = namesOf (snd s) m", OF _ _ assms]
  by simp

lemma scanResource_namesOf:
  assumes "scanResource ov table s r = Inr s'"
    and "tokenToPackage ov (token r) = Inr m" and "resourceName r = Inr rn"
  shows "namesOf (snd s') m' =
     (if m' = m then namesOf (snd s) m \<union> set (resourceIdentifiers r rn) else namesOf (snd s) m')"
proof -
  let ?ps = "updatePkg (snd s) m
               (\<lambda>pack. pack\<lparr>resources := resources pack @ [r],
                             names := names pack \<union> set (resourceIdentifiers r rn)\<rparr>)"
  from assms obtain s1 where
    s1: "markOptionalPropertyTypesAsRequiringPtr ov table (fst s, ?ps) (inputProperties r)
           (\<not> isProvider r) = Inr s1"
    and s': "markOptionalPropertyTypesAsRequiringPtr ov table s1 (properties r)
           (\<not> isProvider r) = Inr s'"
    by (auto simp: scanResource_def Let_def split: sum.splits)
  have "namesOf (snd s') m' = namesOf ?ps m'"
    using mark_namesOf[OF s1, of m'] mark_namesOf[OF s', of m'] by simp
  then show ?thesis
    by (simp add: namesOf_updatePkg names_fst_getPkg)
qed

lemmas eval_defs =
  scenario_defs naming_defs partition_defs string_defs
  markOptionalPropertyTypesAsRequiringPtr.simps

section \<open>C4: the propagation pass on a self-referential type\<close>

text \<open>
  C4. The propagator is a total function: its recursion is well-founded for every object
  table, cyclic or not, because a token is entered only when it has not been seen. It
  returns a state (it does not abort) whenever the tokens of the object and enum types it
  meets resolve to a module. The pass over the package sets the flag \<open>arrayElement\<close> of every
  object type of which the list of the package's types holds an array. For the object type
  \<open>Node\<close> whose property \<open>children\<close> is an array of \<open>Node\<close> the pass returns, and the flag
  \<open>arrayElement\<close> of \<open>Node\<close> is set.
\<close>

theorem propagation_self_referential:
  "(tableOk ov table \<and> tokensOk ov props \<longrightarrow>
      (\<exists>s1. markOptionalPropertyTypesAsRequiringPtr ov table s props po = Inr s1))
   \<and> (partitionPackage p = Inr s' \<and> ArrayType (ObjectType tok opkg) \<in> set (packageTypes p)
        \<and> tokenToPackage (goModuleToPackage p) tok = Inr m \<longrightarrow>
      typeFlag arrayElement (snd s') m tok)
   \<and> (\<exists>s2. partitionPackage nodePackage = Inr s2
        \<and> typeFlag arrayElement (snd s2) ''m'' ''p:m:Node'')"
proof (intro conjI impI)
  assume "tableOk ov table \<and> tokensOk ov props"
  then show "\<exists>s1. markOptionalPropertyTypesAsRequiringPtr ov table s props po = Inr s1"
    by (elim conjE) (rule mark_returns)
next
  assume "partitionPackage p = Inr s' \<and> ArrayType (ObjectType tok opkg) \<in> set (packageTypes p)
        \<and> tokenToPackage (goModuleToPackage p) tok = Inr m"
  then show "typeFlag arrayElement (snd s') m tok"
    by (elim conjE) (rule partitionPackage_array)
next
  show "\<exists>s2. partitionPackage nodePackage = Inr s2
        \<and> typeFlag arrayElement (snd s2) ''m'' ''p:m:Node''"
    by (simp add: eval_defs)
qed

text \<open>
  The theorem at the package of \<open>Node\<close>, and its first part at the object table with the
  direct cycle \<open>Node.next : Node\<close>, where the propagator enters \<open>Node\<close> once.
\<close>

theorem propagation_self_referential_witness:
  "tableOk Map.empty linkedTable
   \<and> tokensOk Map.empty (propertiesOf linkedTable ''p:m:Node'')
   \<and> (\<exists>s1. markOptionalPropertyTypesAsRequiringPtr Map.empty linkedTable ({}, Map.empty)
               (propertiesOf linkedTable ''p:m:Node'') False = Inr s1)
   \<and> (\<exists>s2. partitionPackage nodePackage = Inr s2)
   \<and> ArrayType (ObjectType ''p:m:Node'' (Some examplePackage)) \<in> set (packageTypes nodePackage)
   \<and> tokenToPackage (goModuleToPackage nodePackage) ''p:m:Node'' = Inr ''m''
   \<and> typeFlag arrayElement (snd (projr (partitionPackage nodePackage))) ''m'' ''p:m:Node''"
proof -
  have ok: "tableOk Map.empty linkedTable \<and>
      tokensOk Map.empty (propertiesOf linkedTable ''p:m:Node'')"
    by (simp add: tableOk_def tokensOk_def typeToken_def eval_defs)
  have ret: "\<exists>s2. partitionPackage nodePackage = Inr s2"
    by (simp add: eval_defs)
  then have eq: "partitionPackage nodePackage = Inr (projr (partitionPackage nodePackage))"
    by auto
  have arr: "ArrayType (ObjectType ''p:m:Node'' (Some examplePackage))
      \<in> set (packageTypes nodePackage)"
    by (simp add: scenario_defs)
  have m: "tokenToPackage (goModuleToPackage nodePackage) ''p:m:Node'' = Inr ''m''"
    by (simp add: eval_defs)
  note inst = propagation_self_referential[of Map.empty linkedTable
      "propertiesOf linkedTable ''p:m:Node''" "({}, Map.empty)" False nodePackage
      "projr (partitionPackage nodePackage)" "''p:m:Node''" "Some examplePackage" "''m''"]
  from inst ok have "\<exists>s1. markOptionalPropertyTypesAsRequiringPtr Map.empty linkedTable
      ({}, Map.empty) (propertiesOf linkedTable ''p:m:Node'') False = Inr s1"
    by blast
  moreover from inst eq arr m
  have "typeFlag arrayElement (snd (projr (partitionPackage nodePackage))) ''m'' ''p:m:Node''"
    by blast
  ultimately show ?thesis using ok ret arr m by blast
qed

section \<open>C7: the identifiers of a resource\<close>

text \<open>
  C7. Scanning a resource adds to the names of the resource's module exactly the identifiers
  of the resource and leaves the names of every other module as they are. For a resource
  that is neither the provider nor a component these are the nine identifiers \<open>N\<close>,
  \<open>NInput\<close>, \<open>NOutput\<close>, \<open>NArgs\<close>, the camel-cased \<open>nArgs\<close>, \<open>NewN\<close>, \<open>NState\<close>, the
  camel-cased \<open>nState\<close> and \<open>GetN\<close>; for the provider and for a component the last three are
  left out. Partitioning the package with the resource \<open>p:m:Widget\<close> returns, the names of
  its module \<open>m\<close> are exactly the nine identifiers of \<open>Widget\<close>, and these are pairwise
  different.
\<close>

theorem scanResource_registers:
  "(scanResource ov table s r = Inr s' \<and> tokenToPackage ov (token r) = Inr m
      \<and> resourceName r = Inr rn \<longrightarrow>
      namesOf (snd s') m = namesOf (snd s) m \<union> set (resourceIdentifiers r rn)
      \<and> (\<forall>m'. m' \<noteq> m \<longrightarrow> namesOf (snd s') m' = namesOf (snd s) m'))
   \<and> resourceIdentifiers r rn =
       (if \<not> isProvider r \<and> \<not> isComponent r
        then [rn, rn @ ''Input'', rn @ ''Output'', rn @ ''Args'', camel rn @ ''Args'',
              ''New'' @ rn, rn @ ''State'', camel rn @ ''State'', ''Get'' @ rn]
        else [rn, rn @ ''Input'', rn @ ''Output'', rn @ ''Args'', camel rn @ ''Args'',
              ''New'' @ rn])
   \<and> (\<exists>ps. generatePackageContextMap widgetPackage = Inr ps
        \<and> namesOf ps ''m'' =
            {''Widget'', ''WidgetInput'', ''WidgetOutput'', ''WidgetArgs'', ''widgetArgs'',
             ''NewWidget'', ''WidgetState'', ''widgetState'', ''GetWidget''})
   \<and> distinct [''Widget'', ''WidgetInput'', ''WidgetOutput'', ''WidgetArgs'', ''widgetArgs'',
                ''NewWidget'', ''WidgetState'', ''widgetState'', ''GetWidget'']"
proof (intro conjI impI)
  assume a: "scanResource ov table s r = Inr s' \<and> tokenToPackage ov (token r) = Inr m
      \<and> resourceName r = Inr rn"
  then show "namesOf (snd s') m = namesOf (snd s) m \<union> set (resourceIdentifiers r rn)"
    using scanResource_namesOf[of ov table s r s' m rn m] by simp
  from a show "\<forall>m'. m' \<noteq> m \<longrightarrow> namesOf (snd s') m' = namesOf (snd s) m'"
    using scanResource_namesOf[of ov table s r s' m rn] by simp
next
  show "resourceIdentifiers r rn =
       (if \<not> isProvider r \<and> \<not> isComponent r
        then [rn, rn @ ''Input'', rn @ ''Output'', rn @ ''Args'', camel rn @ ''Args'',
              ''New'' @ rn, rn @ ''State'', camel rn @ ''State'', ''Get'' @ rn]
        else [rn, rn @ ''Input'', rn @ ''Output'', rn @ ''Args'', camel rn @ ''Args'',
              ''New'' @ rn])"
    by (simp add: resourceIdentifiers_def)
next
  show "\<exists>ps. generatePackageContextMap widgetPackage = Inr ps
        \<and> namesOf ps ''m'' =
            {''Widget'', ''WidgetInput'', ''WidgetOutput'', ''WidgetArgs'', ''widgetArgs'',
             ''NewWidget'', ''WidgetState'', ''widgetState'', ''GetWidget''}"
    by (simp add: eval_defs)
next
  show "distinct [''Widget'', ''WidgetInput'', ''WidgetOutput'', ''WidgetArgs'', ''widgetArgs'',
                ''NewWidget'', ''WidgetState'', ''widgetState'', ''GetWidget'']"
    by simp
qed

text \<open>
  The theorem at the provider resource of package \<open>p\<close>, scanned after \<open>Widget\<close>: its module
  gets six identifiers, none of them for a state or a getter, and the module \<open>m\<close> keeps the
  names of \<open>Widget\<close>.
\<close>

theorem scanResource_registers_witness:
  "(\<exists>s1. scanResource Map.empty [] ({}, Map.empty) widgetResource = Inr s1)
   \<and> (\<exists>s2. scanResource Map.empty []
              (projr (scanResource Map.empty [] ({}, Map.empty) widgetResource))
              providerResource = Inr s2)
   \<and> tokenToPackage Map.empty (token providerResource) = Inr ''providers''
   \<and> resourceName providerResource = Inr ''Provider''
   \<and> namesOf (snd (projr (scanResource Map.empty []
              (projr (scanResource Map.empty [] ({}, Map.empty) widgetResource))
              providerResource))) ''providers'' =
       {''Provider'', ''ProviderInput'', ''ProviderOutput'', ''ProviderArgs'', ''providerArgs'',
        ''NewProvider''}
   \<and> namesOf (snd (projr (scanResource Map.empty []
              (projr (scanResource Map.empty [] ({}, Map.empty) widgetResource))
              providerResource))) ''m'' =
       {''Widget'', ''WidgetInput'', ''WidgetOutput'', ''WidgetArgs'', ''widgetArgs'',
        ''NewWidget'', ''WidgetState'', ''widgetState'', ''GetWidget''}"
proof -
  let ?s1 = "projr (scanResource Map.empty [] ({}, Map.empty) widgetResource)"
  let ?s2 = "projr (scanResource Map.empty [] ?s1 providerResource)"
  have r1: "\<exists>s1. scanResource Map.empty [] ({}, Map.empty) widgetResource = Inr s1"
    by (simp add: eval_defs)
  have r2: "\<exists>s2. scanResource Map.empty [] ?s1 providerResource = Inr s2"
    by (simp add: eval_defs)
  then have eq: "scanResource Map.empty [] ?s1 providerResource = Inr ?s2" by auto
  have m: "tokenToPackage Map.empty (token providerResource) = Inr ''providers''"
    by (simp add: eval_defs)
  have rn: "resourceName providerResource = Inr ''Provider''"
    by (simp add: eval_defs)
  have before: "namesOf (snd ?s1) ''providers'' = {}"
    "namesOf (snd ?s1) ''m'' =
       {''Widget'', ''WidgetInput'', ''WidgetOutput'', ''WidgetArgs'', ''widgetArgs'',
        ''NewWidget'', ''WidgetState'', ''widgetState'', ''GetWidget''}"
    by (simp_all add: eval_defs)
  note inst = scanResource_registers[of Map.empty "[]" ?s1 providerResource ?s2 "''providers''"
      "''Provider''"]
  from inst eq m rn have
    "namesOf (snd ?s2) ''providers'' =
       namesOf (snd ?s1) ''providers'' \<union> set (resourceIdentifiers providerResource ''Provider'')"
    and "namesOf (snd ?s2) ''m'' = namesOf (snd ?s1) ''m''"
    by auto
  moreover from inst have "resourceIdentifiers providerResource ''Provider'' =
      [''Provider'', ''Provider'' @ ''Input'', ''Provider'' @ ''Output'', ''Provider'' @ ''Args'',
       camel ''Provider'' @ ''Args'', ''New'' @ ''Provider'']"
    by (simp add: providerResource_def)
  ultimately have "namesOf (snd ?s2) ''providers'' =
       {''Provider'', ''ProviderInput'', ''ProviderOutput'', ''ProviderArgs'', ''providerArgs'',
        ''NewProvider''}"
    and "namesOf (snd ?s2) ''m'' =
       {''Widget'', ''WidgetInput'', ''WidgetOutput'', ''WidgetArgs'', ''widgetArgs'',
        ''NewWidget'', ''WidgetState'', ''widgetState'', ''GetWidget''}"
    using before by (auto simp: string_defs)
  with r1 r2 m rn show ?thesis by blast
qed

section \<open>C8: optional forms\<close>

lemma trimSuffix_append [simp]: "trimSuffix (typ @ suffix) suffix = typ"
  by (simp add: trimSuffix_def)

lemma mapName_withPrefix:
  "withPrefix True pre res = mapName (\<lambda>typ. pre @ typ) (withPrefix False pre res)"
  by (simp add: withPrefix_def mapName_def split: sum.splits prod.splits)

lemma mapName_withSuffix:
  "withSuffix True (''Ptr'' @ suffix) suffix res =
     mapName (\<lambda>typ. trimSuffix typ suffix @ ''Ptr'' @ suffix)
       (withSuffix False (''Ptr'' @ suffix) suffix res)"
  by (simp add: withSuffix_def mapName_def split: sum.splits prod.splits)

lemma mapName_id [simp]: "mapName (\<lambda>typ. typ) res = res"
  by (simp add: mapName_def split: sum.splits prod.splits)

lemma plainType_optional:
  "plainType r ps t True = mapName (applyForm [] (plainOptionalForm t)) (plainType r ps t False)"
proof (induction t rule: plainOptionalForm.induct)
  case (8 elementTypes)
  then show ?case by (cases "firstEnumElementType elementTypes") (simp_all add: applyForm_def)
qed (simp_all add: applyForm_def mapName_withPrefix)

lemma inputType_optional:
  "inputType r ps t True =
     mapName (applyForm ''Input'' (inputOptionalForm t)) (inputType r ps t False)"
proof (induction t rule: inputOptionalForm.induct)
  case (8 elementTypes)
  then show ?case by (cases "firstEnumElementType elementTypes") (simp_all add: applyForm_def)
qed (simp_all add: applyForm_def mapName_withPrefix mapName_withSuffix[of "''Input''", simplified])

lemma outputType_optional:
  "outputType r ps t True =
     mapName (applyForm ''Output'' (outputOptionalForm t)) (outputType r ps t False)"
proof (induction t rule: outputOptionalForm.induct)
  case (8 elementTypes)
  then show ?case by (cases "firstEnumElementType elementTypes") (simp_all add: applyForm_def)
qed (simp_all add: applyForm_def mapName_withSuffix[of "''Output''", simplified])

text \<open>
  C8, as the code has it. Resolving a type with \<open>optional = true\<close> gives the resolution with
  \<open>optional = false\<close>, changed by the form of the type in that representation. Plain: a
  pointer prefix for bool, int, number and string, for object types, resource references and
  token types without an underlying type; nothing for arrays, maps, archives, assets, JSON
  and any. Input: the suffix \<open>Input\<close> becomes \<open>PtrInput\<close> for bool, int, number and string,
  for object types and token types without an underlying type; an enum gets a pointer
  prefix; nothing changes for arrays, maps, resource references, archives, assets, JSON and
  any. Output: the suffix \<open>Output\<close> becomes \<open>PtrOutput\<close> for the same types as in Input;
  nothing changes for the others. A token type with an underlying type, an enum (Plain and
  Output) and a union with an enum alternative have the form of the type they resolve
  through; a union without an enum alternative is unchanged.
\<close>

theorem optional_resolution:
  "plainType r ps t True =
     mapName (applyForm [] (plainOptionalForm t)) (plainType r ps t False)
   \<and> inputType r ps t True =
       mapName (applyForm ''Input'' (inputOptionalForm t)) (inputType r ps t False)
   \<and> outputType r ps t True =
       mapName (applyForm ''Output'' (outputOptionalForm t)) (outputType r ps t False)"
  by (simp add: plainType_optional inputType_optional outputType_optional)

text \<open>
  C8 as it is written fails for arrays in every representation, for enums in the Input
  representation and for resource references in the Input and Output representations.
\<close>

theorem optional_resolution_counterexample:
  "map_sum id fst (plainType exampleReceiver (map_of []) (ArrayType StringType) True) =
     Inr ''[]string''
   \<and> map_sum id fst (plainType exampleReceiver (map_of []) (ArrayType StringType) False) =
     Inr ''[]string''
   \<and> map_sum id fst (inputType exampleReceiver (map_of []) (ArrayType StringType) True) =
     Inr ''pulumi.StringArrayInput''
   \<and> map_sum id fst (outputType exampleReceiver (map_of []) (ArrayType StringType) True) =
     Inr ''pulumi.StringArrayOutput''
   \<and> map_sum id fst
       (inputType exampleReceiver (map_of []) (EnumType ''p:m:Color'' StringType) False) =
     Inr ''Color''
   \<and> map_sum id fst
       (inputType exampleReceiver (map_of []) (EnumType ''p:m:Color'' StringType) True) =
     Inr ''*Color''
   \<and> map_sum id fst
       (outputType exampleReceiver (map_of []) (ResourceType ''p:m:Res'' None) True) =
     Inr ''ResOutput''"
  by (simp add: withPrefix_def withSuffix_def trimSuffix_def resolveResourceType_def
      isExternalReference_def eval_defs)

section \<open>C10: the lookup of environment variables\<close>

lemma getEnvOrDefault_find:
  "getEnvOrDefault env def parser vars =
     (case find (\<lambda>v. env v \<noteq> []) vars of
        None \<Rightarrow> def
      | Some v \<Rightarrow> (case parser of Some parse \<Rightarrow> parse (env v) | None \<Rightarrow> GoString (env v)))"
  by (induction vars) (simp_all add: Let_def)

text \<open>
  C10. The result of \<open>getEnvOrDefault\<close> is decided by the first variable of the list whose
  value is not empty: it is the parser's result for that value, or the value itself when
  there is no parser. When that value does not parse as a boolean, an integer or a float,
  the parser's result and so the result of the lookup is nil, whatever the later variables
  and the default are. The default is the result exactly when no variable of the list has
  a value that is not empty.
\<close>

theorem getEnvOrDefault_first_decides:
  "getEnvOrDefault env def parser vars =
     (case find (\<lambda>v. env v \<noteq> []) vars of
        None \<Rightarrow> def
      | Some v \<Rightarrow> (case parser of Some parse \<Rightarrow> parse (env v) | None \<Rightarrow> GoString (env v)))
   \<and> (find (\<lambda>v. env v \<noteq> []) vars = Some v \<and> parseBool lib (env v) = None \<longrightarrow>
        getEnvOrDefault env def (parserOf lib ParseEnvBool) vars = GoNil)
   \<and> (find (\<lambda>v. env v \<noteq> []) vars = Some v \<and> parseInt lib (env v) = None \<longrightarrow>
        getEnvOrDefault env def (parserOf lib ParseEnvInt) vars = GoNil)
   \<and> (find (\<lambda>v. env v \<noteq> []) vars = Some v \<and> parseFloat lib (env v) = None \<longrightarrow>
        getEnvOrDefault env def (parserOf lib ParseEnvFloat) vars = GoNil)
   \<and> ((find (\<lambda>v. env v \<noteq> []) vars = None) = (\<forall>v \<in> set vars. env v = []))"
proof (intro conjI impI)
  show "getEnvOrDefault env def parser vars =
     (case find (\<lambda>v. env v \<noteq> []) vars of
        None \<Rightarrow> def
      | Some v \<Rightarrow> (case parser of Some parse \<Rightarrow> parse (env v) | None \<Rightarrow> GoString (env v)))"
    by (rule getEnvOrDefault_find)
next
  assume "find (\<lambda>v. env v \<noteq> []) vars = Some v \<and> parseBool lib (env v) = None"
  then show "getEnvOrDefault env def (parserOf lib ParseEnvBool) vars = GoNil"
    by (simp add: getEnvOrDefault_find parserOf_def parseEnvBool_def)
next
  assume "find (\<lambda>v. env v \<noteq> []) vars = Some v \<and> parseInt lib (env v) = None"
  then show "getEnvOrDefault env def (parserOf lib ParseEnvInt) vars = GoNil"
    by (simp add: getEnvOrDefault_find parserOf_def parseEnvInt_def)
next
  assume "find (\<lambda>v. env v \<noteq> []) vars = Some v \<and> parseFloat lib (env v) = None"
  then show "getEnvOrDefault env def (parserOf lib ParseEnvFloat) vars = GoNil"
    by (simp add: getEnvOrDefault_find parserOf_def parseEnvFloat_def)
next
  show "(find (\<lambda>v. env v \<noteq> []) vars = None) = (\<forall>v \<in> set vars. env v = [])"
    by (auto simp: find_None_iff)
qed

text \<open>
  The theorem for the variables \<open>A\<close> and \<open>B\<close> of an integer property where \<open>A\<close> is \<open>abc\<close>
  and \<open>B\<close> is \<open>7\<close>: the lookup returns nil, neither 7 nor the default 0.
\<close>

theorem getEnvOrDefault_first_decides_witness:
  "find (\<lambda>v. exampleEnv v \<noteq> []) [''A'', ''B''] = Some ''A''
   \<and> parseInt exampleStrconv (exampleEnv ''A'') = None
   \<and> parseInt exampleStrconv (exampleEnv ''B'') = Some 7
   \<and> getEnvOrDefault exampleEnv (GoInt 0) (parserOf exampleStrconv ParseEnvInt) [''A'', ''B'']
       = GoNil"
proof -
  have f: "find (\<lambda>v. exampleEnv v \<noteq> []) [''A'', ''B''] = Some ''A''"
    by (simp add: exampleEnv_def)
  have p: "parseInt exampleStrconv (exampleEnv ''A'') = None"
    "parseInt exampleStrconv (exampleEnv ''B'') = Some 7"
    by (simp_all add: exampleEnv_def exampleStrconv_def)
  from getEnvOrDefault_first_decides[of exampleEnv "GoInt 0" None "[''A'', ''B'']" "''A''"
      exampleStrconv] f p(1)
  have "getEnvOrDefault exampleEnv (GoInt 0) (parserOf exampleStrconv ParseEnvInt)
      [''A'', ''B''] = GoNil"
    by blast
  with f p show ?thesis by blast
qed

section \<open>The constructor: shape and runs\<close>

lemma foldE_append:
  "foldE f s (xs @ ys) = (case foldE f s xs of Inl e \<Rightarrow> Inl e | Inr s' \<Rightarrow> foldE f s' ys)"
  by (induction xs arbitrary: s) (auto split: sum.splits)

lemma runConstructor_append:
  "runConstructor lib env (xs @ ys) a =
     (case runConstructor lib env xs a of
        Inl e \<Rightarrow> Inl e
      | Inr a' \<Rightarrow> runConstructor lib env ys a')"
  unfolding runConstructor_def by (rule foldE_append)

lemma runConstructor_Cons:
  "runConstructor lib env (st # sts) a =
     (case execStmt lib env a st of
        Inl e \<Rightarrow> Inl e
      | Inr a' \<Rightarrow> runConstructor lib env sts a')"
  unfolding runConstructor_def by simp

lemma runConstructor_Nil [simp]: "runConstructor lib env [] a = Inr a"
  by (simp add: runConstructor_def)

lemma runConstructor_single: "runConstructor lib env [st] a = execStmt lib env a st"
  by (simp add: runConstructor_def split: sum.splits)

subsection \<open>The statements of the constructor\<close>

lemma genPropertyAssignments_own:
  assumes "genPropertyAssignments r (acc, ps) p = Inr (ss, ps1)"
  shows "\<exists>own. ss = acc @ own \<and> genPropertyAssignments r ([], ps) p = Inr (own, ps1)"
  using assms
  by (auto simp: genPropertyAssignments_def split: sum.splits prod.splits)

lemma foldE_genPropertyAssignments_shape:
  "foldE (genPropertyAssignments r) (acc, ps) props = Inr (ss, ps') \<Longrightarrow>
   \<exists>sss. ss = acc @ concat sss \<and> list_all2 (ownStatements r) props sss"
proof (induction props arbitrary: acc ps)
  case Nil
  then show ?case by simp
next
  case (Cons p props)
  from Cons.prems obtain acc1 ps1 where
    step: "genPropertyAssignments r (acc, ps) p = Inr (acc1, ps1)"
    and rest: "foldE (genPropertyAssignments r) (acc1, ps1) props = Inr (ss, ps')"
    by (auto split: sum.splits)
  from genPropertyAssignments_own[OF step] obtain own where
    own: "acc1 = acc @ own" "genPropertyAssignments r ([], ps) p = Inr (own, ps1)"
    by auto
  from Cons.IH[OF rest] obtain sss where
    sss: "ss = acc1 @ concat sss" "list_all2 (ownStatements r) props sss"
    by auto
  from own(2) have "ownStatements r p own"
    by (auto simp: ownStatements_def)
  with sss own(1) have "ss = acc @ concat (own # sss)
      \<and> list_all2 (ownStatements r) (p # props) (own # sss)"
    by simp
  then show ?case by blast
qed

lemma genResourceConstructor_shape:
  assumes "genResourceConstructor r ps res = Inr (stmts, ps')"
  shows "\<exists>sss. stmts =
      (if \<not> (\<exists>p \<in> set (inputProperties res). isRequired p)
       then ArgsNilDefault else ArgsNilError)
      # concat (map requiredCheck (inputProperties res)) @ concat sss
    \<and> list_all2 (ownStatements r) (inputProperties res) sss"
proof -
  let ?init = "(if \<not> (\<exists>p \<in> set (inputProperties res). isRequired p)
       then ArgsNilDefault else ArgsNilError)
      # concat (map requiredCheck (inputProperties res))"
  from assms have "foldE (genPropertyAssignments r) (?init, ps) (inputProperties res) =
      Inr (stmts, ps')"
    by (simp add: genResourceConstructor_def Let_def)
  from foldE_genPropertyAssignments_shape[OF this] show ?thesis by simp
qed

lemma goPrimitiveValue_Literal:
  assumes "goPrimitiveValue c = Inr e"
  shows "\<exists>l. e = Literal l \<and> constantValue c = Some (converted (interfaceValue l))"
  using assms
  by (auto simp: goPrimitiveValue_def constantValue_def converted_def interfaceValue_def
      split: schemaValue.splits)

lemma const_assignment_shape:
  assumes "constValue p = Some c" and "genConstAssignment r ps p = Inr (cs, ps1)"
  shows "\<exists>t l. constantValue c = Some (converted (interfaceValue l))
           \<and> cs = [Assign (Title (pname p)) t (Literal l)]"
proof -
  from assms obtain e t where e: "goPrimitiveValue c = Inr e"
    and cs: "cs = [Assign (Title (pname p)) t e]"
    by (auto simp: genConstAssignment_def getConstValue_def split: sum.splits prod.splits)
  from goPrimitiveValue_Literal[OF e] cs show ?thesis by auto
qed

lemma const_assignment_none:
  assumes "constValue p = None" and "genConstAssignment r ps p = Inr (cs, ps1)"
  shows "cs = []"
  using assms by (simp add: genConstAssignment_def)

lemma default_assignment_none:
  assumes "defaultValue p = None" and "genDefaultAssignment r ps p = Inr (ds, ps')"
  shows "ds = []"
  using assms by (simp add: genDefaultAssignment_def)

lemma default_assignment_run:
  assumes "defaultValue p = Some dv" and "genDefaultAssignment r ps p = Inr (ds, ps')"
  shows "\<exists>e. getDefaultValue dv (ptype p) = Inr e
     \<and> (\<forall>st \<in> set ds. writtenField st = Some (Title (pname p)))
     \<and> (\<forall>lib env a. runConstructor lib env ds (Some a) =
         (if fieldAbsent p (a (Title (pname p)))
          then assignField lib env (Title (pname p)) e a else Inr (Some a)))"
proof -
  from assms obtain e where e: "getDefaultValue dv (ptype p) = Inr e"
    by (auto simp: genDefaultAssignment_def split: sum.splits)
  show ?thesis
  proof (cases "isEnumType (ptype p)")
    case True
    then obtain tok et where t: "ptype p = EnumType tok et"
      by (auto simp: isEnumType_def split: schemaType.splits)
    with assms e have "(\<forall>st \<in> set ds. writtenField st = Some (Title (pname p)))
      \<and> (\<forall>lib env a. runConstructor lib env ds (Some a) =
         (if fieldAbsent p (a (Title (pname p)))
          then assignField lib env (Title (pname p)) e a else Inr (Some a)))"
      by (auto simp: genDefaultAssignment_def fieldAbsent_def enumZero_def writtenField_def
          runConstructor_single split: sum.splits prod.splits if_splits)
    with e show ?thesis by blast
  next
    case False
    with assms e obtain t where "ds = [IfNilAssign (Title (pname p)) t e]"
      by (auto simp: genDefaultAssignment_def isEnumType_def
          split: sum.splits prod.splits schemaType.splits)
    moreover from False have "fieldAbsent p v = (v = FNil)" for v
      by (auto simp: fieldAbsent_def isEnumType_def split: schemaType.splits)
    ultimately show ?thesis using e by (simp add: runConstructor_single writtenField_def)
  qed
qed

lemma genPropertyAssignments_parts:
  assumes "genPropertyAssignments r (acc, ps) p = Inr (ss, ps')"
  shows "\<exists>cs ds ps1. genConstAssignment r ps p = Inr (cs, ps1)
           \<and> genDefaultAssignment r ps1 p = Inr (ds, ps') \<and> ss = acc @ cs @ ds"
  using assms
  by (auto simp: genPropertyAssignments_def split: sum.splits prod.splits)

text \<open>The statements of one property: an assignment of the constant, then the default.\<close>

lemma ownStatements_parts:
  assumes "ownStatements r p ss"
  shows "\<exists>cs ds. ss = cs @ ds
     \<and> (case constValue p of
          None \<Rightarrow> cs = []
        | Some c \<Rightarrow> (\<exists>t l. constantValue c = Some (converted (interfaceValue l))
             \<and> cs = [Assign (Title (pname p)) t (Literal l)]))
     \<and> (case defaultValue p of
          None \<Rightarrow> ds = []
        | Some dv \<Rightarrow>
            (\<exists>e. getDefaultValue dv (ptype p) = Inr e
              \<and> (\<forall>st \<in> set ds. writtenField st = Some (Title (pname p)))
              \<and> (\<forall>lib env a. runConstructor lib env ds (Some a) =
                   (if fieldAbsent p (a (Title (pname p)))
                    then assignField lib env (Title (pname p)) e a else Inr (Some a)))))"
proof -
  from assms obtain ps1 ps2 where "genPropertyAssignments r ([], ps1) p = Inr (ss, ps2)"
    by (auto simp: ownStatements_def)
  from genPropertyAssignments_parts[OF this] obtain cs ds ps3 where
    cs: "genConstAssignment r ps1 p = Inr (cs, ps3)"
    and ds: "genDefaultAssignment r ps3 p = Inr (ds, ps2)" and ss: "ss = cs @ ds"
    by auto
  have c: "case constValue p of
          None \<Rightarrow> cs = []
        | Some c \<Rightarrow> (\<exists>t l. constantValue c = Some (converted (interfaceValue l))
             \<and> cs = [Assign (Title (pname p)) t (Literal l)])"
    using const_assignment_none[OF _ cs] const_assignment_shape[OF _ cs]
    by (auto split: option.splits)
  have d: "case defaultValue p of
          None \<Rightarrow> ds = []
        | Some dv \<Rightarrow>
            (\<exists>e. getDefaultValue dv (ptype p) = Inr e
              \<and> (\<forall>st \<in> set ds. writtenField st = Some (Title (pname p)))
              \<and> (\<forall>lib env a. runConstructor lib env ds (Some a) =
                   (if fieldAbsent p (a (Title (pname p)))
                    then assignField lib env (Title (pname p)) e a else Inr (Some a))))"
    using default_assignment_none[OF _ ds] default_assignment_run[OF _ ds]
    by (auto split: option.splits)
  from ss c d show ?thesis by blast
qed

lemma ownStatements_written:
  assumes "ownStatements r p ss"
  shows "\<forall>st \<in> set ss. writtenField st = Some (Title (pname p))"
proof -
  from ownStatements_parts[OF assms] obtain cs ds where ss: "ss = cs @ ds"
    and c: "case constValue p of
          None \<Rightarrow> cs = []
        | Some c \<Rightarrow> (\<exists>t l. constantValue c = Some (converted (interfaceValue l))
             \<and> cs = [Assign (Title (pname p)) t (Literal l)])"
    and d: "case defaultValue p of
          None \<Rightarrow> ds = []
        | Some dv \<Rightarrow>
            (\<exists>e. getDefaultValue dv (ptype p) = Inr e
              \<and> (\<forall>st \<in> set ds. writtenField st = Some (Title (pname p)))
              \<and> (\<forall>lib env a. runConstructor lib env ds (Some a) =
                   (if fieldAbsent p (a (Title (pname p)))
                    then assignField lib env (Title (pname p)) e a else Inr (Some a))))"
    by blast
  from c have "\<forall>st \<in> set cs. writtenField st = Some (Title (pname p))"
    by (auto simp: writtenField_def split: option.splits)
  moreover from d have "\<forall>st \<in> set ds. writtenField st = Some (Title (pname p))"
    by (auto split: option.splits)
  ultimately show ?thesis by (auto simp: ss)
qed

lemma own_list_written:
  "list_all2 (ownStatements r) qs sss \<Longrightarrow>
   \<forall>st \<in> set (concat sss). \<exists>q \<in> set qs. writtenField st = Some (Title (pname q))"
proof (induction rule: list_all2_induct)
  case Nil
  then show ?case by simp
next
  case (Cons q qs ss sss)
  from ownStatements_written[OF Cons.hyps(1)] Cons.IH show ?case by auto
qed

subsection \<open>Runs\<close>

lemma run_requiredChecks:
  "runConstructor lib env (concat (map requiredCheck props)) (Some a) =
     (case find (\<lambda>q. isRequired q \<and> \<not> isEnumType (ptype q) \<and> a (Title (pname q)) = FNil) props of
        Some q \<Rightarrow> Inl (InvalidRequiredArgument (Title (pname q)))
      | None \<Rightarrow> Inr (Some a))"
  by (induction props) (auto simp: requiredCheck_def runConstructor_append runConstructor_Cons)

lemma evalExpr_errors:
  "evalExpr lib env e = Inl err \<Longrightarrow> err = RuntimePanic \<or> err = NotAnExpression"
  by (induction e)
     (auto simp: typeAssert_def split: sum.splits goType.splits goValue.splits)

lemma execStmt_Some:
  "execStmt lib env (Some a) st = Inr b \<Longrightarrow> \<exists>a'. b = Some a'"
  by (cases st; cases b) (auto simp: assignField_def split: if_splits sum.splits)

lemma execStmt_other:
  assumes "writtenField st \<noteq> Some x" and "execStmt lib env (Some a) st = Inr (Some a')"
  shows "a' x = a x"
  using assms
  by (cases st) (auto simp: assignField_def writtenField_def split: if_splits sum.splits)

lemma execStmt_written_errors:
  assumes "writtenField st \<noteq> None" and "execStmt lib env (Some a) st = Inl err"
  shows "err = RuntimePanic \<or> err = NotAnExpression"
  using assms evalExpr_errors[of lib env _ err]
  by (cases st) (auto simp: assignField_def writtenField_def split: if_splits sum.splits)

lemma run_Some:
  "runConstructor lib env sts (Some a) = Inr b \<Longrightarrow> \<exists>a'. b = Some a'"
proof (induction sts arbitrary: a)
  case Nil
  then show ?case by auto
next
  case (Cons st sts)
  from Cons.prems obtain b1 where s: "execStmt lib env (Some a) st = Inr b1"
    and r: "runConstructor lib env sts b1 = Inr b"
    by (auto simp: runConstructor_Cons split: sum.splits)
  from execStmt_Some[OF s] obtain a1 where "b1 = Some a1" by auto
  with r Cons.IH show ?case by auto
qed

lemma run_other:
  "\<forall>st \<in> set sts. writtenField st \<noteq> Some x \<Longrightarrow>
   runConstructor lib env sts (Some a) = Inr (Some a') \<Longrightarrow> a' x = a x"
proof (induction sts arbitrary: a)
  case Nil
  then show ?case by simp
next
  case (Cons st sts)
  from Cons.prems(2) obtain b1 where s: "execStmt lib env (Some a) st = Inr b1"
    and r: "runConstructor lib env sts b1 = Inr (Some a')"
    by (auto simp: runConstructor_Cons split: sum.splits)
  from execStmt_Some[OF s] obtain a1 where b1: "b1 = Some a1" by auto
  from Cons.prems(1) have "writtenField st \<noteq> Some x" by simp
  from execStmt_other[OF this s[unfolded b1]] have "a1 x = a x" .
  moreover from Cons.IH[of a1] Cons.prems(1) r b1 have "a' x = a1 x" by auto
  ultimately show ?case by simp
qed

lemma run_written_errors:
  "\<forall>st \<in> set sts. writtenField st \<noteq> None \<Longrightarrow>
   runConstructor lib env sts (Some a) = Inl err \<Longrightarrow>
   err = RuntimePanic \<or> err = NotAnExpression"
proof (induction sts arbitrary: a)
  case Nil
  then show ?case by simp
next
  case (Cons st sts)
  show ?case
  proof (cases "execStmt lib env (Some a) st")
    case (Inl e)
    with Cons.prems(2) have "e = err" by (simp add: runConstructor_Cons)
    with Inl Cons.prems(1) execStmt_written_errors[of st lib env a err] show ?thesis by auto
  next
    case (Inr b1)
    from execStmt_Some[OF Inr] obtain a1 where b1: "b1 = Some a1" by auto
    with Inr Cons.prems(2) have "runConstructor lib env sts (Some a1) = Inl err"
      by (simp add: runConstructor_Cons)
    with Cons.IH[of a1] Cons.prems(1) show ?thesis by auto
  qed
qed

text \<open>The constructor with nil arguments, and the checks of the required properties.\<close>

lemma constructor_nil_required:
  assumes "genResourceConstructor r ps res = Inr (stmts, ps')"
    and "\<exists>p \<in> set (inputProperties res). isRequired p"
  shows "runConstructor lib env stmts None = Inl MissingRequiredArguments"
  using genResourceConstructor_shape[OF assms(1)] assms(2)
  by (auto simp: runConstructor_Cons)

lemma constructor_nil_optional:
  assumes "genResourceConstructor r ps res = Inr (stmts, ps')"
    and "\<not> (\<exists>p \<in> set (inputProperties res). isRequired p)"
  shows "runConstructor lib env stmts None = runConstructor lib env stmts (Some (\<lambda>x. FNil))"
  using genResourceConstructor_shape[OF assms(1)] assms(2)
  by (auto simp: runConstructor_Cons)


lemma constructor_checks:
  assumes gen: "genResourceConstructor r ps res = Inr (stmts, ps')"
  shows "\<exists>sss. list_all2 (ownStatements r) (inputProperties res) sss
     \<and> runConstructor lib env stmts (Some a) =
       (case find (\<lambda>q. isRequired q \<and> \<not> isEnumType (ptype q) \<and> a (Title (pname q)) = FNil)
               (inputProperties res) of
          Some q \<Rightarrow> Inl (InvalidRequiredArgument (Title (pname q)))
        | None \<Rightarrow> runConstructor lib env (concat sss) (Some a))"
proof -
  from genResourceConstructor_shape[OF gen] obtain nilCheck sss where
    shape: "stmts = nilCheck # concat (map requiredCheck (inputProperties res)) @ concat sss"
    and nc: "nilCheck = ArgsNilDefault \<or> nilCheck = ArgsNilError"
    and own: "list_all2 (ownStatements r) (inputProperties res) sss"
    by (auto split: if_splits)
  from nc have "execStmt lib env (Some a) nilCheck = Inr (Some a)" by auto
  with shape have "runConstructor lib env stmts (Some a) =
       (case find (\<lambda>q. isRequired q \<and> \<not> isEnumType (ptype q) \<and> a (Title (pname q)) = FNil)
               (inputProperties res) of
          Some q \<Rightarrow> Inl (InvalidRequiredArgument (Title (pname q)))
        | None \<Rightarrow> runConstructor lib env (concat sss) (Some a))"
    by (simp add: runConstructor_Cons runConstructor_append run_requiredChecks
        split: option.splits)
  with own show ?thesis by blast
qed

lemma constructor_required_nil:
  assumes "genResourceConstructor r ps res = Inr (stmts, ps')"
    and "find (\<lambda>q. isRequired q \<and> \<not> isEnumType (ptype q) \<and> a (Title (pname q)) = FNil)
           (inputProperties res) = Some q"
  shows "runConstructor lib env stmts (Some a) = Inl (InvalidRequiredArgument (Title (pname q)))"
  using constructor_checks[OF assms(1), of lib env a] assms(2) by auto

lemma constructor_no_other_check:
  assumes gen: "genResourceConstructor r ps res = Inr (stmts, ps')"
    and ok: "find (\<lambda>q. isRequired q \<and> \<not> isEnumType (ptype q) \<and> a (Title (pname q)) = FNil)
           (inputProperties res) = None"
  shows "runConstructor lib env stmts (Some a) \<noteq> Inl MissingRequiredArguments
     \<and> runConstructor lib env stmts (Some a) \<noteq> Inl (InvalidRequiredArgument x)"
proof -
  from constructor_checks[OF gen, of lib env a] ok obtain sss where
    own: "list_all2 (ownStatements r) (inputProperties res) sss"
    and run: "runConstructor lib env stmts (Some a) = runConstructor lib env (concat sss) (Some a)"
    by auto
  from own_list_written[OF own] have "\<forall>st \<in> set (concat sss). writtenField st \<noteq> None"
    by auto
  from run_written_errors[OF this, of lib env a] run show ?thesis by auto
qed

text \<open>
  The field of one property at the end of a run that returns: what the statements of that
  property make of the field that was supplied.
\<close>

lemma constructor_field:
  assumes gen: "genResourceConstructor r ps res = Inr (stmts, ps')"
    and dist: "fieldsDistinct res" and p: "p \<in> set (inputProperties res)"
    and run: "runConstructor lib env stmts (Some a) = Inr (Some a')"
  shows "\<exists>own a1 a2. ownStatements r p own
     \<and> a1 (Title (pname p)) = a (Title (pname p))
     \<and> runConstructor lib env own (Some a1) = Inr (Some a2)
     \<and> a' (Title (pname p)) = a2 (Title (pname p))"
proof -
  let ?X = "Title (pname p)"
  from constructor_checks[OF gen, of lib env a] run obtain sss where
    own: "list_all2 (ownStatements r) (inputProperties res) sss"
    and run': "runConstructor lib env (concat sss) (Some a) = Inr (Some a')"
    by (auto split: option.splits)
  from split_list[OF p] obtain pre post where props: "inputProperties res = pre @ p # post"
    by auto
  from own[unfolded props] obtain us vs where sss: "sss = us @ vs"
    and us: "list_all2 (ownStatements r) pre us"
    and vs: "list_all2 (ownStatements r) (p # post) vs"
    by (auto simp: list_all2_append1)
  from vs obtain own ws where vs': "vs = own # ws" and o: "ownStatements r p own"
    and ws: "list_all2 (ownStatements r) post ws"
    by (auto simp: list_all2_Cons1)
  from dist props have "?X \<notin> (\<lambda>q. Title (pname q)) ` (set pre \<union> set post)"
    by (auto simp: fieldsDistinct_def)
  then have d: "\<forall>q \<in> set pre \<union> set post. Title (pname q) \<noteq> ?X"
    by (metis imageI)
  from own_list_written[OF us] d have nu: "\<forall>st \<in> set (concat us). writtenField st \<noteq> Some ?X"
    by fastforce
  from own_list_written[OF ws] d have nw: "\<forall>st \<in> set (concat ws). writtenField st \<noteq> Some ?X"
    by fastforce
  from run' sss vs' obtain b1 b2 where
    r1: "runConstructor lib env (concat us) (Some a) = Inr b1"
    and r2: "runConstructor lib env own b1 = Inr b2"
    and r3: "runConstructor lib env (concat ws) b2 = Inr (Some a')"
    by (auto simp: runConstructor_append split: sum.splits)
  from run_Some[OF r1] obtain a1 where b1: "b1 = Some a1" by auto
  from run_Some[OF r2[unfolded b1]] obtain a2 where b2: "b2 = Some a2" by auto
  from run_other[OF nu r1[unfolded b1]] have "a1 ?X = a ?X" .
  moreover from run_other[OF nw r3[unfolded b2]] have "a' ?X = a2 ?X" .
  ultimately show ?thesis using o r2 b1 b2 by blast
qed

subsection \<open>What the statements of one property make of its field\<close>



lemma own_default:
  assumes own: "ownStatements r p own" and c: "constValue p = None"
    and d: "defaultValue p = Some dv"
    and run: "runConstructor lib env own (Some a1) = Inr (Some a2)"
  shows "if fieldAbsent p (a1 (Title (pname p)))
     then \<exists>e. getDefaultValue dv (ptype p) = Inr e
            \<and> map_sum id converted (evalExpr lib env e) = Inr (a2 (Title (pname p)))
     else a2 (Title (pname p)) = a1 (Title (pname p))"
proof -
  let ?X = "Title (pname p)"
  from ownStatements_parts[OF own] obtain cs ds where ss: "own = cs @ ds"
    and c': "case constValue p of
          None \<Rightarrow> cs = []
        | Some c \<Rightarrow> (\<exists>t l. constantValue c = Some (converted (interfaceValue l))
             \<and> cs = [Assign ?X t (Literal l)])"
    and d': "case defaultValue p of
          None \<Rightarrow> ds = []
        | Some dv \<Rightarrow>
            (\<exists>e. getDefaultValue dv (ptype p) = Inr e
              \<and> (\<forall>st \<in> set ds. writtenField st = Some ?X)
              \<and> (\<forall>lib env a. runConstructor lib env ds (Some a) =
                   (if fieldAbsent p (a ?X) then assignField lib env ?X e a else Inr (Some a))))"
    by blast
  from c' c ss have "own = ds" by simp
  with d' d obtain e where
    e: "getDefaultValue dv (ptype p) = Inr e"
    and r: "\<forall>lib env a. runConstructor lib env own (Some a) =
                   (if fieldAbsent p (a ?X) then assignField lib env ?X e a else Inr (Some a))"
    by auto
  show ?thesis
  proof (cases "fieldAbsent p (a1 ?X)")
    case True
    with r run have "assignField lib env ?X e a1 = Inr (Some a2)" by simp
    then have "map_sum id converted (evalExpr lib env e) = Inr (a2 ?X)"
      by (auto simp: assignField_def split: sum.splits)
    with e True show ?thesis by simp
  next
    case False
    with r run show ?thesis by simp
  qed
qed


lemma own_plain:
  assumes own: "ownStatements r p own" and c: "constValue p = None"
    and d: "defaultValue p = None"
    and run: "runConstructor lib env own (Some a1) = Inr (Some a2)"
  shows "a2 = a1"
proof -
  from ownStatements_parts[OF own] obtain cs ds where "own = cs @ ds"
    "case constValue p of None \<Rightarrow> cs = [] | Some c \<Rightarrow>
       (\<exists>t l. constantValue c = Some (converted (interfaceValue l))
          \<and> cs = [Assign (Title (pname p)) t (Literal l)])"
    "case defaultValue p of None \<Rightarrow> ds = [] | Some dv \<Rightarrow>
       (\<exists>e. getDefaultValue dv (ptype p) = Inr e
          \<and> (\<forall>st \<in> set ds. writtenField st = Some (Title (pname p)))
          \<and> (\<forall>lib env a. runConstructor lib env ds (Some a) =
               (if fieldAbsent p (a (Title (pname p)))
                then assignField lib env (Title (pname p)) e a else Inr (Some a))))"
    by blast
  with c d have "own = []" by simp
  with run show ?thesis by simp
qed



text \<open>
  The default of a number that has no fraction is written as an integer constant. Where no
  variable is set, \<^verbatim>\<open>getEnvOrDefault\<close> returns it as an \<^verbatim>\<open>int\<close>, and the assertion that the result
  is a \<^verbatim>\<open>float64\<close> panics; a default with a fraction is returned as a \<^verbatim>\<open>float64\<close>.
\<close>

lemma number_default_without_fraction:
  "getDefaultValue \<lparr>dvValue = Some (FloatValue 1), environment = [''A'']\<rparr> NumberType =
     Inr (GetEnvOrDefault (Literal (IntLit 1)) ParseEnvFloat [''A''] Float64Kind)
   \<and> evalExpr lib (\<lambda>v. [])
        (GetEnvOrDefault (Literal (IntLit 1)) ParseEnvFloat [''A''] Float64Kind) =
       Inl RuntimePanic
   \<and> getDefaultValue \<lparr>dvValue = Some (FloatValue (3 / 2)), environment = [''A'']\<rparr> NumberType =
     Inr (GetEnvOrDefault (Literal (FloatLit (3 / 2))) ParseEnvFloat [''A''] Float64Kind)
   \<and> evalExpr lib (\<lambda>v. [])
        (GetEnvOrDefault (Literal (FloatLit (3 / 2))) ParseEnvFloat [''A''] Float64Kind) =
       Inr (GoFloat (3 / 2))"
  by (simp add: getDefaultValue_def goPrimitiveValue_def envLookupFor_def typeAssert_def
      interfaceValue_def)

subsection \<open>Unfolding the constructor of a scenario\<close>

lemmas ctor_defs =
  genResourceConstructor_def genPropertyAssignments_def genConstAssignment_def
  genDefaultAssignment_def conversionName_def requiredCheck_def isEnumType_def
  getConstValue_def getDefaultValue_def goPrimitiveValue_def envLookupFor_def
  withPrefix_def withSuffix_def trimSuffix_def

lemmas run_defs =
  runConstructor_def assignField_def typeAssert_def parserOf_def parseEnvBool_def
  parseEnvInt_def parseEnvFloat_def parseEnvStringArray_def interfaceValue_def converted_def

lemmas gadget_defs =
  gadgetProperties_def gadgetResource_def suppliedKind_def fallbackEnv_def exampleEnv_def
  exampleStrconv_def fieldsDistinct_def

lemma Inr_collapse: "\<exists>x. X = Inr x \<Longrightarrow> X = Inr (fst (projr X), snd (projr X))"
  by auto

section \<open>C6: validation of the arguments\<close>

lemma enum_field:
  assumes gen: "genResourceConstructor r ps res = Inr (stmts, ps')"
    and dist: "fieldsDistinct res" and p: "p \<in> set (inputProperties res)"
    and req: "isRequired p" and t: "ptype p = EnumType tok et" and c: "constValue p = None"
    and run: "runConstructor lib env stmts (Some a) = Inr (Some a')"
  shows "case defaultValue p of
           None \<Rightarrow> a' (Title (pname p)) = a (Title (pname p))
         | Some dv \<Rightarrow>
             if a (Title (pname p)) = enumZero et
             then \<exists>e. getDefaultValue dv (ptype p) = Inr e
                    \<and> map_sum id converted (evalExpr lib env e) = Inr (a' (Title (pname p)))
             else a' (Title (pname p)) = a (Title (pname p))"
proof -
  let ?X = "Title (pname p)"
  from constructor_field[OF gen dist p run] obtain own a1 a2 where
    own: "ownStatements r p own" and a1: "a1 ?X = a ?X"
    and r: "runConstructor lib env own (Some a1) = Inr (Some a2)" and a2: "a' ?X = a2 ?X"
    by auto
  show ?thesis
  proof (cases "defaultValue p")
    case None
    from own_plain[OF own c None r] a1 a2 None show ?thesis by simp
  next
    case (Some dv)
    from req t have "fieldAbsent p v = (v = enumZero et)" for v
      by (simp add: fieldAbsent_def)
    with own_default[OF own c Some r] a1 a2 Some show ?thesis by simp
  qed
qed

text \<open>
  C6, as the code has it. When the constructor is called with nil arguments it returns the
  error of the missing required arguments if some input property is required, and otherwise
  goes on as with arguments in which every field is nil. With arguments that are not nil it
  returns the error that names the field of the first required input property that is not
  of an enum type and whose field is nil. These are the only checks: when no such field is
  nil the constructor returns neither of the two errors, whatever the fields of the enum
  types hold. For a required input property of an enum type (one with no constant, which
  would be assigned first) nothing is compared unless the property has a default: without
  one the field is kept as it was supplied, the zero representation included; with one, a
  field that holds the zero representation (the empty text for an enum of strings, the
  number zero for an enum of numbers) is given the default, and any other field is kept.
\<close>

theorem constructor_validation:
  "(genResourceConstructor r ps res = Inr (stmts, ps')
      \<and> (\<exists>p \<in> set (inputProperties res). isRequired p) \<longrightarrow>
      runConstructor lib env stmts None = Inl MissingRequiredArguments)
   \<and> (genResourceConstructor r ps res = Inr (stmts, ps')
      \<and> \<not> (\<exists>p \<in> set (inputProperties res). isRequired p) \<longrightarrow>
      runConstructor lib env stmts None = runConstructor lib env stmts (Some (\<lambda>x. FNil)))
   \<and> (genResourceConstructor r ps res = Inr (stmts, ps')
      \<and> find (\<lambda>q. isRequired q \<and> \<not> isEnumType (ptype q) \<and> a (Title (pname q)) = FNil)
            (inputProperties res) = Some q \<longrightarrow>
      runConstructor lib env stmts (Some a) = Inl (InvalidRequiredArgument (Title (pname q))))
   \<and> (genResourceConstructor r ps res = Inr (stmts, ps')
      \<and> find (\<lambda>q. isRequired q \<and> \<not> isEnumType (ptype q) \<and> a (Title (pname q)) = FNil)
            (inputProperties res) = None \<longrightarrow>
      runConstructor lib env stmts (Some a) \<noteq> Inl MissingRequiredArguments
      \<and> runConstructor lib env stmts (Some a) \<noteq> Inl (InvalidRequiredArgument x))
   \<and> (genResourceConstructor r ps res = Inr (stmts, ps') \<and> fieldsDistinct res
      \<and> p \<in> set (inputProperties res) \<and> isRequired p \<and> ptype p = EnumType tok et
      \<and> constValue p = None
      \<and> runConstructor lib env stmts (Some a) = Inr (Some a') \<longrightarrow>
      (case defaultValue p of
         None \<Rightarrow> a' (Title (pname p)) = a (Title (pname p))
       | Some dv \<Rightarrow>
           if a (Title (pname p)) = enumZero et
           then \<exists>e. getDefaultValue dv (ptype p) = Inr e
                  \<and> map_sum id converted (evalExpr lib env e) = Inr (a' (Title (pname p)))
           else a' (Title (pname p)) = a (Title (pname p))))"
proof (intro conjI impI)
  assume "genResourceConstructor r ps res = Inr (stmts, ps')
      \<and> (\<exists>p \<in> set (inputProperties res). isRequired p)"
  then show "runConstructor lib env stmts None = Inl MissingRequiredArguments"
    by (elim conjE) (rule constructor_nil_required)
next
  assume "genResourceConstructor r ps res = Inr (stmts, ps')
      \<and> \<not> (\<exists>p \<in> set (inputProperties res). isRequired p)"
  then show "runConstructor lib env stmts None =
      runConstructor lib env stmts (Some (\<lambda>x. FNil))"
    by (elim conjE) (rule constructor_nil_optional)
next
  assume "genResourceConstructor r ps res = Inr (stmts, ps')
      \<and> find (\<lambda>q. isRequired q \<and> \<not> isEnumType (ptype q) \<and> a (Title (pname q)) = FNil)
            (inputProperties res) = Some q"
  then show "runConstructor lib env stmts (Some a) =
      Inl (InvalidRequiredArgument (Title (pname q)))"
    by (elim conjE) (rule constructor_required_nil)
next
  assume a: "genResourceConstructor r ps res = Inr (stmts, ps')
      \<and> find (\<lambda>q. isRequired q \<and> \<not> isEnumType (ptype q) \<and> a (Title (pname q)) = FNil)
            (inputProperties res) = None"
  then show "runConstructor lib env stmts (Some a) \<noteq> Inl MissingRequiredArguments"
    using constructor_no_other_check[of r ps res stmts ps' a lib env] by blast
next
  assume a: "genResourceConstructor r ps res = Inr (stmts, ps')
      \<and> find (\<lambda>q. isRequired q \<and> \<not> isEnumType (ptype q) \<and> a (Title (pname q)) = FNil)
            (inputProperties res) = None"
  then show "runConstructor lib env stmts (Some a) \<noteq> Inl (InvalidRequiredArgument x)"
    using constructor_no_other_check[of r ps res stmts ps' a lib env x] by blast
next
  assume "genResourceConstructor r ps res = Inr (stmts, ps') \<and> fieldsDistinct res
      \<and> p \<in> set (inputProperties res) \<and> isRequired p \<and> ptype p = EnumType tok et
      \<and> constValue p = None
      \<and> runConstructor lib env stmts (Some a) = Inr (Some a')"
  then show "case defaultValue p of
         None \<Rightarrow> a' (Title (pname p)) = a (Title (pname p))
       | Some dv \<Rightarrow>
           if a (Title (pname p)) = enumZero et
           then \<exists>e. getDefaultValue dv (ptype p) = Inr e
                  \<and> map_sum id converted (evalExpr lib env e) = Inr (a' (Title (pname p)))
           else a' (Title (pname p)) = a (Title (pname p))"
    by (elim conjE) (rule enum_field)
qed

text \<open>
  The theorem at the constructor of \<open>Widget\<close>, whose property \<open>Name\<close> is required; at the
  constructor of a resource with no properties; and at the constructor of \<open>Gadget\<close>, run
  with the arguments in which the mode is the empty text and the level is 3: no field
  that is checked is nil, the mode becomes the default \<open>fast\<close>, and the level is kept.
\<close>

theorem constructor_validation_witness:
  "map_sum id fst (genResourceConstructor exampleReceiver Map.empty widgetResource) =
     Inr [ArgsNilError, RequireNonNil ''Name'',
          IfNilAssign ''Size'' ''pulumi.IntPtr'' (Literal (IntLit 1))]
   \<and> runConstructor exampleStrconv exampleEnv
       (fst (projr (genResourceConstructor exampleReceiver Map.empty widgetResource))) None =
     Inl MissingRequiredArguments
   \<and> runConstructor exampleStrconv exampleEnv
       (fst (projr (genResourceConstructor exampleReceiver Map.empty widgetResource)))
       (Some (\<lambda>x. FNil)) =
     Inl (InvalidRequiredArgument ''Name'')
   \<and> map_sum id fst
       (genResourceConstructor exampleReceiver Map.empty (plainResource ''p:m:Bucket'')) =
     Inr [ArgsNilDefault]
   \<and> runConstructor exampleStrconv exampleEnv
       (fst (projr (genResourceConstructor exampleReceiver Map.empty
                      (plainResource ''p:m:Bucket'')))) None =
     Inr (Some (\<lambda>x. FNil))
   \<and> map_sum id fst (genResourceConstructor exampleReceiver Map.empty gadgetResource) =
     Inr [ArgsNilError,
          IfEmptyStringAssign ''Mode'' ''Mode'' (Literal (StringLit ''fast'')),
          IfZeroAssign ''Level'' ''Level'' (Literal (IntLit 1)),
          Assign ''Kind'' ''pulumi.StringPtr'' (Literal (StringLit ''k'')),
          IfNilAssign ''Region'' ''pulumi.StringPtr''
            (GetEnvOrDefault (Literal (StringLit [])) NilParser [''A'', ''B''] StringKind),
          IfNilAssign ''Retries'' ''pulumi.IntPtr''
            (GetEnvOrDefault (Literal (IntLit 0)) ParseEnvInt [''A'', ''B''] IntKind)]
   \<and> (\<exists>a'. runConstructor exampleStrconv fallbackEnv
        (fst (projr (genResourceConstructor exampleReceiver Map.empty gadgetResource)))
        (Some suppliedKind) = Inr (Some a'))
   \<and> suppliedKind ''Mode'' = enumZero StringType
   \<and> the (projr (runConstructor exampleStrconv fallbackEnv
        (fst (projr (genResourceConstructor exampleReceiver Map.empty gadgetResource)))
        (Some suppliedKind))) ''Mode'' = FString ''fast''
   \<and> suppliedKind ''Level'' = FNumber 3
   \<and> the (projr (runConstructor exampleStrconv fallbackEnv
        (fst (projr (genResourceConstructor exampleReceiver Map.empty gadgetResource)))
        (Some suppliedKind))) ''Level'' = FNumber 3"
proof -
  let ?w = "genResourceConstructor exampleReceiver Map.empty widgetResource"
  let ?b = "genResourceConstructor exampleReceiver Map.empty (plainResource ''p:m:Bucket'')"
  let ?g = "genResourceConstructor exampleReceiver Map.empty gadgetResource"
  let ?run = "runConstructor exampleStrconv fallbackEnv (fst (projr ?g)) (Some suppliedKind)"
  let ?mode = "gadgetProperties ! 0" and ?level = "gadgetProperties ! 1"
  have w: "map_sum id fst ?w =
     Inr [ArgsNilError, RequireNonNil ''Name'',
          IfNilAssign ''Size'' ''pulumi.IntPtr'' (Literal (IntLit 1))]"
    by (simp add: ctor_defs eval_defs)
  then have weq: "?w = Inr (fst (projr ?w), snd (projr ?w))"
    by (intro Inr_collapse) (cases ?w; simp)
  have b: "map_sum id fst ?b = Inr [ArgsNilDefault]"
    by (simp add: ctor_defs eval_defs)
  then have beq: "?b = Inr (fst (projr ?b), snd (projr ?b))"
    by (intro Inr_collapse) (cases ?b; simp)
  have g: "map_sum id fst ?g =
     Inr [ArgsNilError,
          IfEmptyStringAssign ''Mode'' ''Mode'' (Literal (StringLit ''fast'')),
          IfZeroAssign ''Level'' ''Level'' (Literal (IntLit 1)),
          Assign ''Kind'' ''pulumi.StringPtr'' (Literal (StringLit ''k'')),
          IfNilAssign ''Region'' ''pulumi.StringPtr''
            (GetEnvOrDefault (Literal (StringLit [])) NilParser [''A'', ''B''] StringKind),
          IfNilAssign ''Retries'' ''pulumi.IntPtr''
            (GetEnvOrDefault (Literal (IntLit 0)) ParseEnvInt [''A'', ''B''] IntKind)]"
    by (simp add: ctor_defs gadget_defs eval_defs)
  then have geq: "?g = Inr (fst (projr ?g), snd (projr ?g))"
    by (intro Inr_collapse) (cases ?g; simp)
  from g have gs: "fst (projr ?g) =
     [ArgsNilError,
          IfEmptyStringAssign ''Mode'' ''Mode'' (Literal (StringLit ''fast'')),
          IfZeroAssign ''Level'' ''Level'' (Literal (IntLit 1)),
          Assign ''Kind'' ''pulumi.StringPtr'' (Literal (StringLit ''k'')),
          IfNilAssign ''Region'' ''pulumi.StringPtr''
            (GetEnvOrDefault (Literal (StringLit [])) NilParser [''A'', ''B''] StringKind),
          IfNilAssign ''Retries'' ''pulumi.IntPtr''
            (GetEnvOrDefault (Literal (IntLit 0)) ParseEnvInt [''A'', ''B''] IntKind)]"
    by (cases ?g; simp)
  have ret: "\<exists>a'. ?run = Inr (Some a')"
    unfolding gs by (simp add: run_defs gadget_defs)
  then have run: "?run = Inr (Some (the (projr ?run)))"
    by auto
  have req: "\<exists>p \<in> set (inputProperties widgetResource). isRequired p"
    by (simp add: scenario_defs)
  have noreq: "\<not> (\<exists>p \<in> set (inputProperties (plainResource ''p:m:Bucket'')). isRequired p)"
    by (simp add: scenario_defs)
  have first: "find (\<lambda>q. isRequired q \<and> \<not> isEnumType (ptype q)
        \<and> (\<lambda>x. FNil) (Title (pname q)) = FNil) (inputProperties widgetResource) =
      Some (hd widgetProperties)"
    by (simp add: scenario_defs isEnumType_def)
  have dist: "fieldsDistinct gadgetResource"
    by (simp add: gadget_defs string_defs)
  have mode: "?mode \<in> set (inputProperties gadgetResource)" "isRequired ?mode"
    "ptype ?mode = EnumType ''p:m:Mode'' StringType" "constValue ?mode = None"
    "Title (pname ?mode) = ''Mode''"
    "defaultValue ?mode = Some \<lparr>dvValue = Some (StringValue ''fast''), environment = []\<rparr>"
    by (simp_all add: gadget_defs string_defs)
  have level: "?level \<in> set (inputProperties gadgetResource)" "isRequired ?level"
    "ptype ?level = EnumType ''p:m:Level'' IntType" "constValue ?level = None"
    "Title (pname ?level) = ''Level''"
    "defaultValue ?level = Some \<lparr>dvValue = Some (IntValue 1), environment = []\<rparr>"
    by (simp_all add: gadget_defs string_defs)
  have sm: "suppliedKind ''Mode'' = enumZero StringType"
    and sl: "suppliedKind ''Level'' = FNumber 3" "suppliedKind ''Level'' \<noteq> enumZero IntType"
    by (simp_all add: suppliedKind_def enumZero_def)
  note w1 = constructor_validation[of exampleReceiver Map.empty widgetResource
      "fst (projr ?w)" "snd (projr ?w)" exampleStrconv exampleEnv "\<lambda>x. FNil"
      "hd widgetProperties"]
  note b1 = constructor_validation[of exampleReceiver Map.empty "plainResource ''p:m:Bucket''"
      "fst (projr ?b)" "snd (projr ?b)" exampleStrconv exampleEnv]
  note m1 = constructor_validation[of exampleReceiver Map.empty gadgetResource
      "fst (projr ?g)" "snd (projr ?g)" exampleStrconv fallbackEnv suppliedKind _ _
      ?mode "''p:m:Mode''" StringType "the (projr ?run)"]
  note l1 = constructor_validation[of exampleReceiver Map.empty gadgetResource
      "fst (projr ?g)" "snd (projr ?g)" exampleStrconv fallbackEnv suppliedKind _ _
      ?level "''p:m:Level''" IntType "the (projr ?run)"]
  from w1 weq req have r1: "runConstructor exampleStrconv exampleEnv (fst (projr ?w)) None =
      Inl MissingRequiredArguments"
    by blast
  from w1 weq first have r2: "runConstructor exampleStrconv exampleEnv (fst (projr ?w))
      (Some (\<lambda>x. FNil)) = Inl (InvalidRequiredArgument (Title (pname (hd widgetProperties))))"
    by blast
  from b1 beq noreq have "runConstructor exampleStrconv exampleEnv (fst (projr ?b)) None =
      runConstructor exampleStrconv exampleEnv (fst (projr ?b)) (Some (\<lambda>x. FNil))"
    by blast
  moreover from b have "fst (projr ?b) = [ArgsNilDefault]" by (cases ?b; simp)
  ultimately have r4: "runConstructor exampleStrconv exampleEnv (fst (projr ?b)) None =
      Inr (Some (\<lambda>x. FNil))"
    by (simp add: runConstructor_def)
  from r2 have r2': "runConstructor exampleStrconv exampleEnv (fst (projr ?w))
      (Some (\<lambda>x. FNil)) = Inl (InvalidRequiredArgument ''Name'')"
    by (simp add: scenario_defs string_defs)
  from m1 geq dist mode(1-4) run
  have "case defaultValue ?mode of
         None \<Rightarrow> the (projr ?run) (Title (pname ?mode)) = suppliedKind (Title (pname ?mode))
       | Some dv \<Rightarrow>
           if suppliedKind (Title (pname ?mode)) = enumZero StringType
           then \<exists>e. getDefaultValue dv (ptype ?mode) = Inr e
                  \<and> map_sum id converted (evalExpr exampleStrconv fallbackEnv e) =
                      Inr (the (projr ?run) (Title (pname ?mode)))
           else the (projr ?run) (Title (pname ?mode)) = suppliedKind (Title (pname ?mode))"
    by blast
  with mode(3,5,6) sm have r5: "the (projr ?run) ''Mode'' = FString ''fast''"
    by (auto simp: getDefaultValue_def goPrimitiveValue_def interfaceValue_def converted_def)
  from l1 geq dist level(1-4) run
  have "case defaultValue ?level of
         None \<Rightarrow> the (projr ?run) (Title (pname ?level)) = suppliedKind (Title (pname ?level))
       | Some dv \<Rightarrow>
           if suppliedKind (Title (pname ?level)) = enumZero IntType
           then \<exists>e. getDefaultValue dv (ptype ?level) = Inr e
                  \<and> map_sum id converted (evalExpr exampleStrconv fallbackEnv e) =
                      Inr (the (projr ?run) (Title (pname ?level)))
           else the (projr ?run) (Title (pname ?level)) = suppliedKind (Title (pname ?level))"
    by blast
  with level(5,6) sl have r6: "the (projr ?run) ''Level'' = FNumber 3"
    by simp
  from w r1 r2' b r4 g ret sm r5 sl(1) r6 show ?thesis by (intro conjI)
qed

text \<open>
  C6 as it is written fails for a required property of an enum type that has no default:
  nothing is written for it. The constructor of \<open>Lamp\<close>, whose one input property is the
  required string enum \<open>mode\<close>, is the check of the nil arguments alone, and it returns the
  arguments in which the mode is the empty text as they are.
\<close>

theorem constructor_validation_counterexample:
  "isRequired (hd (inputProperties lampResource))
   \<and> ptype (hd (inputProperties lampResource)) = EnumType ''p:m:Mode'' StringType
   \<and> map_sum id fst (genResourceConstructor exampleReceiver Map.empty lampResource) =
       Inr [ArgsNilError]
   \<and> runConstructor exampleStrconv exampleEnv
       (fst (projr (genResourceConstructor exampleReceiver Map.empty lampResource)))
       (Some ((\<lambda>x. FNil)(''Mode'' := FString []))) =
     Inr (Some ((\<lambda>x. FNil)(''Mode'' := FString [])))"
  by (simp add: ctor_defs run_defs gadget_defs lampResource_def eval_defs)

section \<open>C5: constants and defaults from the environment\<close>










section \<open>C9: what scanning a resource marks\<close>

lemma mark_seen_mono:
  "markOptionalPropertyTypesAsRequiringPtr ov table s props po = Inr s' \<Longrightarrow> fst s \<subseteq> fst s'"
proof (induction ov table s props po arbitrary: s' rule: mark_induct)
  case (Nil ov table seen ps po)
  then show ?case by simp
next
  case (Skip ov table seen ps p props po)
  then show ?case by simp
next
  case (Object ov table seen ps p props po tok opkg)
  from Object.prems obtain m s1 where m: "tokenToPackage ov tok = Inr m"
    and s1: "markOptionalPropertyTypesAsRequiringPtr ov table
             (insert tok seen, updatePkg ps m (setTypeDetails (\<lambda>d. d\<lparr>ptrElement := True\<rparr>) tok))
             (propertiesOf table tok) True = Inr s1"
    and s': "markOptionalPropertyTypesAsRequiringPtr ov table s1 props po = Inr s'"
    by (auto simp: mark_Object[OF Object.hyps] split: sum.splits)
  from Object.IH(1)[OF m s1] Object.IH(2)[OF m s1 s'] show ?case by auto
next
  case (Enum ov table seen ps p props po tok et)
  from Enum.prems obtain m where m: "tokenToPackage ov tok = Inr m"
    and s': "markOptionalPropertyTypesAsRequiringPtr ov table
             (insert tok seen, updatePkg ps m (setEnumDetails (\<lambda>d. d\<lparr>ptrElement := True\<rparr>) tok))
             props po = Inr s'"
    by (auto simp: mark_Enum[OF Enum.hyps] split: sum.splits)
  from Enum.IH[OF m s'] show ?case by auto
qed

lemma seenMarked_updatePkg:
  assumes "seenMarked ov objs enms (seen, ps)"
    and "\<And>pack tok. ptrElement (detailsFor (typeDetailsMap pack) tok) \<Longrightarrow>
           ptrElement (detailsFor (typeDetailsMap (f pack)) tok)"
    and "\<And>pack tok. ptrElement (detailsFor (enumDetailsMap pack) tok) \<Longrightarrow>
           ptrElement (detailsFor (enumDetailsMap (f pack)) tok)"
  shows "seenMarked ov objs enms (seen, updatePkg ps m f)"
  unfolding seenMarked_def
proof
  fix tok assume "tok \<in> fst (seen, updatePkg ps m f)"
  then have "tok \<in> seen" by simp
  with assms(1) obtain m' where m': "tokenToPackage ov tok = Inr m'"
    and o: "tok \<in> objs \<longrightarrow> typeFlag ptrElement ps m' tok"
    and e: "tok \<in> enms \<longrightarrow> enumFlag ptrElement ps m' tok"
    by (auto simp: seenMarked_def)
  from o assms(2) have "tok \<in> objs \<longrightarrow> typeFlag ptrElement (updatePkg ps m f) m' tok"
    by (auto intro: typeFlag_updatePkg)
  moreover from e assms(3) have "tok \<in> enms \<longrightarrow> enumFlag ptrElement (updatePkg ps m f) m' tok"
    by (auto intro: enumFlag_updatePkg)
  ultimately show "\<exists>m'. tokenToPackage ov tok = Inr m'
      \<and> (tok \<in> objs \<longrightarrow> typeFlag ptrElement (snd (seen, updatePkg ps m f)) m' tok)
      \<and> (tok \<in> enms \<longrightarrow> enumFlag ptrElement (snd (seen, updatePkg ps m f)) m' tok)"
    using m' by auto
qed

lemma seenMarked_insert:
  assumes "seenMarked ov objs enms (seen, ps)" and "tokenToPackage ov tok = Inr m"
    and "tok \<in> objs \<longrightarrow> typeFlag ptrElement ps m tok"
    and "tok \<in> enms \<longrightarrow> enumFlag ptrElement ps m tok"
  shows "seenMarked ov objs enms (insert tok seen, ps)"
  using assms by (auto simp: seenMarked_def)

lemma seenMarked_mark_object:
  assumes "seenMarked ov objs enms (seen, ps)" and "tokenToPackage ov tok = Inr m" and "tok \<notin> enms"
  shows "seenMarked ov objs enms
     (insert tok seen, updatePkg ps m (setTypeDetails (\<lambda>d. d\<lparr>ptrElement := True\<rparr>) tok))"
proof (rule seenMarked_insert[OF _ assms(2)])
  show "seenMarked ov objs enms
      (seen, updatePkg ps m (setTypeDetails (\<lambda>d. d\<lparr>ptrElement := True\<rparr>) tok))"
    by (rule seenMarked_updatePkg[OF assms(1)]) (simp_all add: detailsFor_setTypeDetails)
  show "tok \<in> objs \<longrightarrow> typeFlag ptrElement
      (updatePkg ps m (setTypeDetails (\<lambda>d. d\<lparr>ptrElement := True\<rparr>) tok)) m tok"
    by (simp add: typeFlag_set)
  show "tok \<in> enms \<longrightarrow> enumFlag ptrElement
      (updatePkg ps m (setTypeDetails (\<lambda>d. d\<lparr>ptrElement := True\<rparr>) tok)) m tok"
    using assms(3) by simp
qed

lemma seenMarked_mark_enum:
  assumes "seenMarked ov objs enms (seen, ps)" and "tokenToPackage ov tok = Inr m" and "tok \<notin> objs"
  shows "seenMarked ov objs enms
     (insert tok seen, updatePkg ps m (setEnumDetails (\<lambda>d. d\<lparr>ptrElement := True\<rparr>) tok))"
proof (rule seenMarked_insert[OF _ assms(2)])
  show "seenMarked ov objs enms
      (seen, updatePkg ps m (setEnumDetails (\<lambda>d. d\<lparr>ptrElement := True\<rparr>) tok))"
    by (rule seenMarked_updatePkg[OF assms(1)]) (simp_all add: detailsFor_setEnumDetails)
  show "tok \<in> enms \<longrightarrow> enumFlag ptrElement
      (updatePkg ps m (setEnumDetails (\<lambda>d. d\<lparr>ptrElement := True\<rparr>) tok)) m tok"
    by (simp add: enumFlag_set)
  show "tok \<in> objs \<longrightarrow> typeFlag ptrElement
      (updatePkg ps m (setEnumDetails (\<lambda>d. d\<lparr>ptrElement := True\<rparr>) tok)) m tok"
    using assms(3) by simp
qed

lemma tokens_Cons:
  "objectTokens (p # props) \<subseteq> objs \<Longrightarrow> objectTokens props \<subseteq> objs"
  "enumTokens (p # props) \<subseteq> enms \<Longrightarrow> enumTokens props \<subseteq> enms"
  by (auto simp: objectTokens_def enumTokens_def)

text \<open>
  The propagator keeps the first invariant; the tokens of the properties that it does not
  pass over are seen afterwards; and the object types that it has entered have the tokens
  of all their properties seen.
\<close>

lemma mark_marks:
  assumes "markOptionalPropertyTypesAsRequiringPtr ov table s props po = Inr s'"
    and "seenMarked ov objs enms s"
    and "objectTokens props \<subseteq> objs" and "enumTokens props \<subseteq> enms"
    and "\<And>tok. objectTokens (propertiesOf table tok) \<subseteq> objs"
    and "\<And>tok. enumTokens (propertiesOf table tok) \<subseteq> enms"
    and "objs \<inter> enms = {}"
  shows "seenMarked ov objs enms s'
     \<and> (\<forall>p \<in> set props. \<not> isRequired p \<or> po \<longrightarrow>
          (\<forall>tok. typeToken (ptype p) = Some tok \<longrightarrow> tok \<in> fst s'))
     \<and> (\<forall>tok \<in> fst s' - fst s. tok \<in> objs \<longrightarrow>
          propertyTokens (propertiesOf table tok) \<subseteq> fst s')"
  using assms
proof (induction ov table s props po arbitrary: s' rule: mark_induct)
  case (Nil ov table seen ps po)
  then show ?case by simp
next
  case (Skip ov table seen ps p props po)
  from Skip.prems(1) Skip.hyps(1) have run:
    "markOptionalPropertyTypesAsRequiringPtr ov table (seen, ps) props po = Inr s'"
    by simp
  from Skip.IH[OF run Skip.prems(2) tokens_Cons(1)[OF Skip.prems(3)]
      tokens_Cons(2)[OF Skip.prems(4)] Skip.prems(5,6,7)]
  have ih: "seenMarked ov objs enms s'"
    "\<forall>p \<in> set props. \<not> isRequired p \<or> po \<longrightarrow>
          (\<forall>tok. typeToken (ptype p) = Some tok \<longrightarrow> tok \<in> fst s')"
    "\<forall>tok \<in> fst s' - fst (seen, ps). tok \<in> objs \<longrightarrow>
          propertyTokens (propertiesOf table tok) \<subseteq> fst s'"
    by auto
  from mark_seen_mono[OF run] have mono: "seen \<subseteq> fst s'" by simp
  have "tok \<in> fst s'" if "typeToken (ptype p) = Some tok" "\<not> isRequired p \<or> po" for tok
    using Skip.hyps(2)[OF that] mono by auto
  with ih show ?case by auto
next
  case (Object ov table seen ps p props po tok opkg)
  let ?s0 = "\<lambda>m. (insert tok seen,
      updatePkg ps m (setTypeDetails (\<lambda>d. d\<lparr>ptrElement := True\<rparr>) tok))"
  from Object.prems(1) obtain m s1 where m: "tokenToPackage ov tok = Inr m"
    and s1: "markOptionalPropertyTypesAsRequiringPtr ov table (?s0 m)
             (propertiesOf table tok) True = Inr s1"
    and s': "markOptionalPropertyTypesAsRequiringPtr ov table s1 props po = Inr s'"
    by (auto simp: mark_Object[OF Object.hyps] split: sum.splits)
  from Object.hyps(1) Object.prems(3) have tokObj: "tok \<in> objs"
    by (auto simp: objectTokens_def)
  with Object.prems(7) have tokEnm: "tok \<notin> enms" by auto
  from seenMarked_mark_object[OF _ m tokEnm] Object.prems(2)
  have inv0: "seenMarked ov objs enms (?s0 m)" by simp
  from Object.IH(1)[OF m s1 inv0 Object.prems(5) Object.prems(6) Object.prems(5,6,7)]
  have ih1: "seenMarked ov objs enms s1"
    "\<forall>q \<in> set (propertiesOf table tok).
          (\<forall>t. typeToken (ptype q) = Some t \<longrightarrow> t \<in> fst s1)"
    "\<forall>t \<in> fst s1 - insert tok seen. t \<in> objs \<longrightarrow>
          propertyTokens (propertiesOf table t) \<subseteq> fst s1"
    by auto
  from Object.IH(2)[OF m s1 s' ih1(1) tokens_Cons(1)[OF Object.prems(3)]
      tokens_Cons(2)[OF Object.prems(4)] Object.prems(5,6,7)]
  have ih2: "seenMarked ov objs enms s'"
    "\<forall>q \<in> set props. \<not> isRequired q \<or> po \<longrightarrow>
          (\<forall>t. typeToken (ptype q) = Some t \<longrightarrow> t \<in> fst s')"
    "\<forall>t \<in> fst s' - fst s1. t \<in> objs \<longrightarrow>
          propertyTokens (propertiesOf table t) \<subseteq> fst s'"
    by auto
  from mark_seen_mono[OF s1] have mono1: "insert tok seen \<subseteq> fst s1" by simp
  from mark_seen_mono[OF s'] have mono2: "fst s1 \<subseteq> fst s'" .
  have cover: "\<forall>q \<in> set (p # props). \<not> isRequired q \<or> po \<longrightarrow>
          (\<forall>t. typeToken (ptype q) = Some t \<longrightarrow> t \<in> fst s')"
    using ih2(2) mono1 mono2 Object.hyps(1) by (auto simp: typeToken_def)
  have closed: "propertyTokens (propertiesOf table t) \<subseteq> fst s'"
    if "t \<in> fst s' - fst (seen, ps)" "t \<in> objs" for t
  proof (cases "t = tok")
    case True
    with ih1(2) mono2 show ?thesis by (auto simp: propertyTokens_def)
  next
    case False
    show ?thesis
    proof (cases "t \<in> fst s1")
      case True
      with False that ih1(3) mono2 show ?thesis by auto
    next
      case False
      with that ih2(3) show ?thesis by auto
    qed
  qed
  from ih2(1) cover closed show ?case by blast
next
  case (Enum ov table seen ps p props po tok et)
  let ?s0 = "\<lambda>m. (insert tok seen,
      updatePkg ps m (setEnumDetails (\<lambda>d. d\<lparr>ptrElement := True\<rparr>) tok))"
  from Enum.prems(1) obtain m where m: "tokenToPackage ov tok = Inr m"
    and s': "markOptionalPropertyTypesAsRequiringPtr ov table (?s0 m) props po = Inr s'"
    by (auto simp: mark_Enum[OF Enum.hyps] split: sum.splits)
  from Enum.hyps(1) Enum.prems(4) have tokEnm: "tok \<in> enms"
    by (auto simp: enumTokens_def)
  with Enum.prems(7) have tokObj: "tok \<notin> objs" by auto
  from seenMarked_mark_enum[OF _ m tokObj] Enum.prems(2)
  have inv0: "seenMarked ov objs enms (?s0 m)" by simp
  from Enum.IH[OF m s' inv0 tokens_Cons(1)[OF Enum.prems(3)]
      tokens_Cons(2)[OF Enum.prems(4)] Enum.prems(5,6,7)]
  have ih: "seenMarked ov objs enms s'"
    "\<forall>q \<in> set props. \<not> isRequired q \<or> po \<longrightarrow>
          (\<forall>t. typeToken (ptype q) = Some t \<longrightarrow> t \<in> fst s')"
    "\<forall>t \<in> fst s' - insert tok seen. t \<in> objs \<longrightarrow>
          propertyTokens (propertiesOf table t) \<subseteq> fst s'"
    by auto
  from mark_seen_mono[OF s'] have mono: "insert tok seen \<subseteq> fst s'" by simp
  have cover: "\<forall>q \<in> set (p # props). \<not> isRequired q \<or> po \<longrightarrow>
          (\<forall>t. typeToken (ptype q) = Some t \<longrightarrow> t \<in> fst s')"
    using ih(2) mono Enum.hyps(1) by (auto simp: typeToken_def)
  have closed: "propertyTokens (propertiesOf table t) \<subseteq> fst s'"
    if "t \<in> fst s' - fst (seen, ps)" "t \<in> objs" for t
    using that tokObj ih(3) by (cases "t = tok") auto
  from ih(1) cover closed show ?case by blast
qed

lemma mark_pass:
  assumes run: "markOptionalPropertyTypesAsRequiringPtr ov table s props po = Inr s'"
    and inv: "seenMarked ov objs enms s" "seenClosed table objs (fst s)"
    and sub: "objectTokens props \<subseteq> objs" "enumTokens props \<subseteq> enms"
    and tab: "\<And>tok. objectTokens (propertiesOf table tok) \<subseteq> objs"
      "\<And>tok. enumTokens (propertiesOf table tok) \<subseteq> enms"
    and disj: "objs \<inter> enms = {}"
  shows "seenMarked ov objs enms s'" and "seenClosed table objs (fst s')"
    and "fst s \<subseteq> fst s'"
    and "\<forall>p \<in> set props. \<not> isRequired p \<or> po \<longrightarrow> propertyTokens [p] \<subseteq> fst s'"
proof -
  from mark_marks[OF run inv(1) sub tab disj]
  have m: "seenMarked ov objs enms s'"
    "\<forall>p \<in> set props. \<not> isRequired p \<or> po \<longrightarrow>
          (\<forall>tok. typeToken (ptype p) = Some tok \<longrightarrow> tok \<in> fst s')"
    "\<forall>tok \<in> fst s' - fst s. tok \<in> objs \<longrightarrow>
          propertyTokens (propertiesOf table tok) \<subseteq> fst s'"
    by auto
  from mark_seen_mono[OF run] show mono: "fst s \<subseteq> fst s'" .
  from m(1) show "seenMarked ov objs enms s'" .
  from m(2) show "\<forall>p \<in> set props. \<not> isRequired p \<or> po \<longrightarrow> propertyTokens [p] \<subseteq> fst s'"
    by (auto simp: propertyTokens_def)
  show "seenClosed table objs (fst s')"
    unfolding seenClosed_def
  proof (intro ballI impI)
    fix tok assume t: "tok \<in> fst s'" "tok \<in> objs"
    show "propertyTokens (propertiesOf table tok) \<subseteq> fst s'"
    proof (cases "tok \<in> fst s")
      case True
      with inv(2) t(2) mono show ?thesis by (auto simp: seenClosed_def)
    next
      case False
      with t m(3) show ?thesis by auto
    qed
  qed
qed

lemma objectTokens_append [simp]:
  "objectTokens (xs @ ys) = objectTokens xs \<union> objectTokens ys"
  by (auto simp: objectTokens_def)

lemma enumTokens_append [simp]:
  "enumTokens (xs @ ys) = enumTokens xs \<union> enumTokens ys"
  by (auto simp: enumTokens_def)

lemma objectTokens_concat: "xs \<in> set xss \<Longrightarrow> objectTokens xs \<subseteq> objectTokens (concat xss)"
  by (auto simp: objectTokens_def)

lemma enumTokens_concat: "xs \<in> set xss \<Longrightarrow> enumTokens xs \<subseteq> enumTokens (concat xss)"
  by (auto simp: enumTokens_def)

lemma propertiesOf_objectTokens:
  "objectTokens (propertiesOf table tok) \<subseteq> objectTokens (concat (map snd table))"
proof (cases "map_of table tok")
  case None
  then show ?thesis by (simp add: propertiesOf_def objectTokens_def)
next
  case (Some props)
  then have "(tok, props) \<in> set table" by (rule map_of_SomeD)
  then have "props \<in> set (map snd table)" by force
  from objectTokens_concat[OF this] Some show ?thesis by (simp add: propertiesOf_def)
qed

lemma propertiesOf_enumTokens:
  "enumTokens (propertiesOf table tok) \<subseteq> enumTokens (concat (map snd table))"
proof (cases "map_of table tok")
  case None
  then show ?thesis by (simp add: propertiesOf_def enumTokens_def)
next
  case (Some props)
  then have "(tok, props) \<in> set table" by (rule map_of_SomeD)
  then have "props \<in> set (map snd table)" by force
  from enumTokens_concat[OF this] Some show ?thesis by (simp add: propertiesOf_def)
qed

text \<open>The two invariants together, and the steps of the pass that keep them.\<close>

lemma scanType_pass:
  assumes run: "scanType ov table s t = Inr s'"
    and inv: "seenMarked ov objs enms s" "seenClosed table objs (fst s)"
    and tab: "\<And>tok. objectTokens (propertiesOf table tok) \<subseteq> objs"
      "\<And>tok. enumTokens (propertiesOf table tok) \<subseteq> enms"
    and disj: "objs \<inter> enms = {}"
  shows "seenMarked ov objs enms s' \<and> seenClosed table objs (fst s') \<and> fst s \<subseteq> fst s'"
proof -
  have upd: "seenMarked ov objs enms (fst s, updatePkg (snd s) m f)"
    if "\<And>pack tok. ptrElement (detailsFor (typeDetailsMap pack) tok) \<Longrightarrow>
           ptrElement (detailsFor (typeDetailsMap (f pack)) tok)"
      "\<And>pack tok. ptrElement (detailsFor (enumDetailsMap pack) tok) \<Longrightarrow>
           ptrElement (detailsFor (enumDetailsMap (f pack)) tok)" for m f
    using seenMarked_updatePkg[of ov objs enms "fst s" "snd s" f m] inv(1) that by simp
  show ?thesis
  proof (cases t)
    case (ArrayType et)
    show ?thesis
    proof (cases et)
      case (ObjectType tok opkg)
      with ArrayType run obtain m where
        "s' = (fst s, updatePkg (snd s) m (setTypeDetails (\<lambda>d. d\<lparr>arrayElement := True\<rparr>) tok))"
        by (auto simp: scanType_def split: sum.splits)
      moreover have "seenMarked ov objs enms
          (fst s, updatePkg (snd s) m (setTypeDetails (\<lambda>d. d\<lparr>arrayElement := True\<rparr>) tok))"
        by (rule upd) (auto simp: detailsFor_setTypeDetails)
      ultimately show ?thesis using inv(2) by simp
    qed (use ArrayType run inv in \<open>auto simp: scanType_def\<close>)
  next
    case (MapType et)
    show ?thesis
    proof (cases et)
      case (ObjectType tok opkg)
      with MapType run obtain m where
        "s' = (fst s, updatePkg (snd s) m (setTypeDetails (\<lambda>d. d\<lparr>mapElement := True\<rparr>) tok))"
        by (auto simp: scanType_def split: sum.splits)
      moreover have "seenMarked ov objs enms
          (fst s, updatePkg (snd s) m (setTypeDetails (\<lambda>d. d\<lparr>mapElement := True\<rparr>) tok))"
        by (rule upd) (auto simp: detailsFor_setTypeDetails)
      ultimately show ?thesis using inv(2) by simp
    qed (use MapType run inv in \<open>auto simp: scanType_def\<close>)
  next
    case (ObjectType tok opkg)
    with run obtain m where r: "markOptionalPropertyTypesAsRequiringPtr ov table
        (fst s, updatePkg (snd s) m (\<lambda>pack. pack\<lparr>types := types pack @ [tok]\<rparr>))
        (propertiesOf table tok) False = Inr s'"
      by (auto simp: scanType_def split: sum.splits)
    have i0: "seenMarked ov objs enms
        (fst s, updatePkg (snd s) m (\<lambda>pack. pack\<lparr>types := types pack @ [tok]\<rparr>))"
      by (rule upd) simp_all
    from mark_pass(1,2,3)[OF r i0 _ tab(1) tab(2) tab disj] inv(2)
    show ?thesis by simp
  next
    case (EnumType tok et)
    with run obtain m where
      "s' = (fst s, updatePkg (snd s) m (\<lambda>pack. pack\<lparr>enums := enums pack @ [tok]\<rparr>))"
      by (auto simp: scanType_def split: sum.splits)
    moreover have "seenMarked ov objs enms
        (fst s, updatePkg (snd s) m (\<lambda>pack. pack\<lparr>enums := enums pack @ [tok]\<rparr>))"
      by (rule upd) simp_all
    ultimately show ?thesis using inv(2) by simp
  qed (use run inv in \<open>auto simp: scanType_def\<close>)
qed

lemma scanResource_pass:
  assumes run: "scanResource ov table s r = Inr s'"
    and inv: "seenMarked ov objs enms s" "seenClosed table objs (fst s)"
    and sub: "objectTokens (inputProperties r @ properties r) \<subseteq> objs"
      "enumTokens (inputProperties r @ properties r) \<subseteq> enms"
    and tab: "\<And>tok. objectTokens (propertiesOf table tok) \<subseteq> objs"
      "\<And>tok. enumTokens (propertiesOf table tok) \<subseteq> enms"
    and disj: "objs \<inter> enms = {}"
  shows "seenMarked ov objs enms s'" and "seenClosed table objs (fst s')"
    and "fst s \<subseteq> fst s'"
    and "\<forall>q \<in> set (inputProperties r @ properties r).
           \<not> isRequired q \<or> \<not> isProvider r \<longrightarrow> propertyTokens [q] \<subseteq> fst s'"
proof -
  from run obtain m rn s1 where
    s1: "markOptionalPropertyTypesAsRequiringPtr ov table
           (fst s, updatePkg (snd s) m
              (\<lambda>pack. pack\<lparr>resources := resources pack @ [r],
                            names := names pack \<union> set (resourceIdentifiers r rn)\<rparr>))
           (inputProperties r) (\<not> isProvider r) = Inr s1"
    and s': "markOptionalPropertyTypesAsRequiringPtr ov table s1 (properties r)
           (\<not> isProvider r) = Inr s'"
    by (auto simp: scanResource_def Let_def split: sum.splits)
  have i0: "seenMarked ov objs enms
      (fst s, updatePkg (snd s) m
         (\<lambda>pack. pack\<lparr>resources := resources pack @ [r],
                       names := names pack \<union> set (resourceIdentifiers r rn)\<rparr>))"
    using seenMarked_updatePkg[of ov objs enms "fst s" "snd s" _ m] inv(1) by simp
  from sub have subs: "objectTokens (inputProperties r) \<subseteq> objs"
    "enumTokens (inputProperties r) \<subseteq> enms" "objectTokens (properties r) \<subseteq> objs"
    "enumTokens (properties r) \<subseteq> enms"
    by auto
  from inv(2) have c0: "seenClosed table objs (fst (fst s, updatePkg (snd s) m
         (\<lambda>pack. pack\<lparr>resources := resources pack @ [r],
                       names := names pack \<union> set (resourceIdentifiers r rn)\<rparr>)))"
    by simp
  note p1 = mark_pass[OF s1 i0 c0 subs(1,2) tab disj]
  note p2 = mark_pass[OF s' p1(1) p1(2) subs(3,4) tab disj]
  from p2(1) show "seenMarked ov objs enms s'" .
  from p2(2) show "seenClosed table objs (fst s')" .
  from p1(3) p2(3) show "fst s \<subseteq> fst s'" by auto
  from p1(4) p2(3) p2(4)
  show "\<forall>q \<in> set (inputProperties r @ properties r).
           \<not> isRequired q \<or> \<not> isProvider r \<longrightarrow> propertyTokens [q] \<subseteq> fst s'"
    by auto
qed

lemma foldE_scanType_pass:
  assumes tab: "\<And>tok. objectTokens (propertiesOf table tok) \<subseteq> objs"
      "\<And>tok. enumTokens (propertiesOf table tok) \<subseteq> enms"
    and disj: "objs \<inter> enms = {}"
  shows "foldE (scanType ov table) s ts = Inr s' \<Longrightarrow>
     seenMarked ov objs enms s \<Longrightarrow> seenClosed table objs (fst s) \<Longrightarrow>
     seenMarked ov objs enms s' \<and> seenClosed table objs (fst s')"
proof (induction ts arbitrary: s)
  case Nil
  then show ?case by simp
next
  case (Cons t ts)
  from Cons.prems(1) obtain s1 where s1: "scanType ov table s t = Inr s1"
    and rest: "foldE (scanType ov table) s1 ts = Inr s'"
    by (auto split: sum.splits)
  from scanType_pass[OF s1 Cons.prems(2,3) tab disj] Cons.IH[OF rest] show ?case by simp
qed

lemma foldE_scanResource_pass:
  assumes tab: "\<And>tok. objectTokens (propertiesOf table tok) \<subseteq> objs"
      "\<And>tok. enumTokens (propertiesOf table tok) \<subseteq> enms"
    and disj: "objs \<inter> enms = {}"
  shows "foldE (scanResource ov table) s rs = Inr s' \<Longrightarrow>
     seenMarked ov objs enms s \<Longrightarrow> seenClosed table objs (fst s) \<Longrightarrow>
     (\<forall>r \<in> set rs. objectTokens (inputProperties r @ properties r) \<subseteq> objs
        \<and> enumTokens (inputProperties r @ properties r) \<subseteq> enms) \<Longrightarrow>
     seenMarked ov objs enms s' \<and> seenClosed table objs (fst s') \<and> fst s \<subseteq> fst s'
     \<and> (\<forall>r \<in> set rs. \<forall>q \<in> set (inputProperties r @ properties r).
           \<not> isRequired q \<or> \<not> isProvider r \<longrightarrow> propertyTokens [q] \<subseteq> fst s')"
proof (induction rs arbitrary: s)
  case Nil
  then show ?case by simp
next
  case (Cons r rs)
  from Cons.prems(1) obtain s1 where s1: "scanResource ov table s r = Inr s1"
    and rest: "foldE (scanResource ov table) s1 rs = Inr s'"
    by (auto split: sum.splits)
  from Cons.prems(4) have sub: "objectTokens (inputProperties r @ properties r) \<subseteq> objs"
    "enumTokens (inputProperties r @ properties r) \<subseteq> enms"
    and subs: "\<forall>r \<in> set rs. objectTokens (inputProperties r @ properties r) \<subseteq> objs
        \<and> enumTokens (inputProperties r @ properties r) \<subseteq> enms"
    by auto
  note h = scanResource_pass[OF s1 Cons.prems(2,3) sub tab disj]
  from Cons.IH[OF rest h(1) h(2) subs]
  have ih: "seenMarked ov objs enms s'" "seenClosed table objs (fst s')" "fst s1 \<subseteq> fst s'"
    "\<forall>r \<in> set rs. \<forall>q \<in> set (inputProperties r @ properties r).
           \<not> isRequired q \<or> \<not> isProvider r \<longrightarrow> propertyTokens [q] \<subseteq> fst s'"
    by auto
  from h(3) h(4) ih show ?case by auto
qed

lemma scanFunction_seenMarked:
  assumes "scanFunction ov ps f = Inr ps'" and "seenMarked ov objs enms (seen, ps)"
  shows "seenMarked ov objs enms (seen, ps')"
proof -
  from assms(1) obtain m g where ps': "ps' = updatePkg ps m g"
    and g: "\<And>pack. typeDetailsMap (g pack) = typeDetailsMap pack"
      "\<And>pack. enumDetailsMap (g pack) = enumDetailsMap pack"
    by (auto simp: scanFunction_def Let_def split: sum.splits)
  show ?thesis
    unfolding ps' by (rule seenMarked_updatePkg[OF assms(2)]) (simp_all add: g)
qed

lemma foldE_scanFunction_seenMarked:
  "foldE (scanFunction ov) ps fs = Inr ps' \<Longrightarrow> seenMarked ov objs enms (seen, ps) \<Longrightarrow>
   seenMarked ov objs enms (seen, ps')"
proof (induction fs arbitrary: ps)
  case Nil
  then show ?case by simp
next
  case (Cons f fs)
  from Cons.prems(1) obtain ps1 where p1: "scanFunction ov ps f = Inr ps1"
    and rest: "foldE (scanFunction ov) ps1 fs = Inr ps'"
    by (auto split: sum.splits)
  from Cons.IH[OF rest scanFunction_seenMarked[OF p1 Cons.prems(2)]] show ?case .
qed

lemma nested_seen:
  assumes "seenClosed table objs seen" and "tok \<in> seen"
    and "(tok, t) \<in> (nestedIn table objs)\<^sup>*"
  shows "t \<in> seen"
  using assms(3,2)
proof (induction rule: rtrancl_induct)
  case base
  then show ?case .
next
  case (step y z)
  from step.hyps(2) have "y \<in> objs" "z \<in> propertyTokens (propertiesOf table y)"
    by (auto simp: nestedIn_def)
  with assms(1) step.IH[OF step.prems] show ?case by (auto simp: seenClosed_def)
qed

lemma partitionPackage_marks:
  assumes run: "partitionPackage p = Inr s'" and disj: "kindsDisjoint p"
    and r: "r \<in> set (provider p # packageResources p)"
    and q: "q \<in> set (inputProperties r @ properties r)" "\<not> isRequired q \<or> \<not> isProvider r"
    and tok: "typeToken (ptype q) = Some tok"
    and nested: "(tok, t) \<in> (nestedIn (objectTable p) (objectTokens (packageProperties p)))\<^sup>*"
  shows "\<exists>m. tokenToPackage (goModuleToPackage p) t = Inr m
     \<and> (t \<in> objectTokens (packageProperties p) \<longrightarrow> typeFlag ptrElement (snd s') m t)
     \<and> (t \<in> enumTokens (packageProperties p) \<longrightarrow> enumFlag ptrElement (snd s') m t)"
proof -
  let ?ov = "goModuleToPackage p" and ?table = "objectTable p"
  let ?objs = "objectTokens (packageProperties p)" and ?enms = "enumTokens (packageProperties p)"
  from run obtain s0 s1 s2 s3 ps where
    s0: "fst s0 = {}"
    and t: "foldE (scanType ?ov ?table) s0 (packageTypes p) = Inr s1"
    and pr: "scanResource ?ov ?table s1 (provider p) = Inr s2"
    and rs: "foldE (scanResource ?ov ?table) s2 (packageResources p) = Inr s3"
    and fs: "foldE (scanFunction ?ov) (snd s3) (packageFunctions p) = Inr ps"
    and s': "s' = (fst s3, ps)"
    by (auto simp: partitionPackage_def Let_def split: sum.splits)
  have tab: "objectTokens (propertiesOf ?table tok') \<subseteq> ?objs"
    "enumTokens (propertiesOf ?table tok') \<subseteq> ?enms" for tok'
    using propertiesOf_objectTokens[of ?table tok'] propertiesOf_enumTokens[of ?table tok']
    by (auto simp: packageProperties_def)
  have res: "objectTokens (inputProperties r' @ properties r') \<subseteq> ?objs
      \<and> enumTokens (inputProperties r' @ properties r') \<subseteq> ?enms"
    if "r' \<in> set (provider p # packageResources p)" for r'
  proof -
    from that have "inputProperties r' @ properties r'
        \<in> set (map (\<lambda>r. inputProperties r @ properties r) (provider p # packageResources p))"
      by (intro image_eqI[where x = r', THEN subst[OF set_map[symmetric], of "\<lambda>S. _ \<in> S"]])
         simp_all
    from objectTokens_concat[OF this] enumTokens_concat[OF this] show ?thesis
      by (auto simp: packageProperties_def)
  qed
  from disj have d: "?objs \<inter> ?enms = {}" by (simp add: kindsDisjoint_def)
  from s0 have i0: "seenMarked ?ov ?objs ?enms s0" "seenClosed ?table ?objs (fst s0)"
    by (simp_all add: seenMarked_def seenClosed_def)
  from foldE_scanType_pass[OF tab d t i0]
  have i1: "seenMarked ?ov ?objs ?enms s1" "seenClosed ?table ?objs (fst s1)" by auto
  from res[of "provider p"]
  have rp: "objectTokens (inputProperties (provider p) @ properties (provider p)) \<subseteq> ?objs"
    "enumTokens (inputProperties (provider p) @ properties (provider p)) \<subseteq> ?enms"
    by auto
  note h2 = scanResource_pass[OF pr i1 rp tab d]
  have rr: "\<forall>r \<in> set (packageResources p).
      objectTokens (inputProperties r @ properties r) \<subseteq> ?objs
      \<and> enumTokens (inputProperties r @ properties r) \<subseteq> ?enms"
    using res by auto
  from foldE_scanResource_pass[OF tab d rs h2(1) h2(2) rr]
  have i3: "seenMarked ?ov ?objs ?enms s3" "seenClosed ?table ?objs (fst s3)"
    "fst s2 \<subseteq> fst s3"
    "\<forall>r \<in> set (packageResources p). \<forall>q \<in> set (inputProperties r @ properties r).
           \<not> isRequired q \<or> \<not> isProvider r \<longrightarrow> propertyTokens [q] \<subseteq> fst s3"
    by auto
  from tok have "tok \<in> propertyTokens [q]" by (simp add: propertyTokens_def)
  have "propertyTokens [q] \<subseteq> fst s3"
  proof (cases "r \<in> set (packageResources p)")
    case True
    with i3(4) q show ?thesis by blast
  next
    case False
    with r have "r = provider p" by simp
    with h2(4) q have "propertyTokens [q] \<subseteq> fst s2" by blast
    with i3(3) show ?thesis by blast
  qed
  with \<open>tok \<in> propertyTokens [q]\<close> have "tok \<in> fst s3" by blast
  from nested_seen[OF i3(2) this nested] have "t \<in> fst s3" .
  moreover from foldE_scanFunction_seenMarked[OF fs, of ?objs ?enms "fst s3"] i3(1)
  have "seenMarked ?ov ?objs ?enms s'" by (simp add: s')
  ultimately show ?thesis by (auto simp: seenMarked_def s')
qed

lemma mark_required_skipped:
  "\<forall>q \<in> set props. isRequired q \<Longrightarrow>
   markOptionalPropertyTypesAsRequiringPtr ov table (seen, ps) props False = Inr (seen, ps)"
  by (induction props)
     (auto simp: markOptionalPropertyTypesAsRequiringPtr.simps(2) split: schemaType.splits)

lemma typeFlag_updatePkg_same:
  assumes "\<And>pack. typeDetailsMap (f pack) = typeDetailsMap pack"
  shows "typeFlag ptrElement (updatePkg ps m f) m' tok = typeFlag ptrElement ps m' tok"
  using assms
  by (auto simp: typeFlag_def updatePkg_def getPkg_def newPkgContext_def detailsFor_def
      split: option.splits)

lemma enumFlag_updatePkg_same:
  assumes "\<And>pack. enumDetailsMap (f pack) = enumDetailsMap pack"
  shows "enumFlag ptrElement (updatePkg ps m f) m' tok = enumFlag ptrElement ps m' tok"
  using assms
  by (auto simp: enumFlag_def updatePkg_def getPkg_def newPkgContext_def detailsFor_def
      split: option.splits)

lemma scanResource_provider_required:
  assumes "scanResource ov table s r = Inr s'" and "isProvider r"
    and "\<forall>q \<in> set (inputProperties r @ properties r). isRequired q"
  shows "fst s' = fst s
     \<and> typeFlag ptrElement (snd s') m tok = typeFlag ptrElement (snd s) m tok
     \<and> enumFlag ptrElement (snd s') m tok = enumFlag ptrElement (snd s) m tok"
proof -
  from assms(3) have req: "\<forall>q \<in> set (inputProperties r). isRequired q"
    "\<forall>q \<in> set (properties r). isRequired q"
    by auto
  from assms(1,2) obtain m' rn where
    "s' = (fst s, updatePkg (snd s) m'
              (\<lambda>pack. pack\<lparr>resources := resources pack @ [r],
                            names := names pack \<union> set (resourceIdentifiers r rn)\<rparr>))"
    by (auto simp: scanResource_def Let_def mark_required_skipped[OF req(1)]
        mark_required_skipped[OF req(2)] split: sum.splits)
  then show ?thesis
    by (simp add: typeFlag_updatePkg_same enumFlag_updatePkg_same)
qed

lemmas holder_defs =
  requiredProperty_def holderTable_def holderResource_def holderProvider_def holderPackage_def
  packageProperties_def kindsDisjoint_def objectTokens_def enumTokens_def propertyTokens_def
  nestedIn_def typeToken_def typeFlag_def enumFlag_def

text \<open>
  C9. \<open>scanResource\<close> hands the input properties and then the output properties of a resource
  to the propagator with the flag \<open>parentOptional\<close> set to \<open>\<not> isProvider r\<close>. So after the
  pass over a package, for every property \<open>q\<close> of a resource that is not the provider, required
  or not, and for every optional property of the provider: the object or enum type of \<open>q\<close>,
  and every object or enum type reached from it through the properties of object types, has
  the flag \<open>ptrElement\<close> in its module. (The set of the tokens already entered is shared by
  object and enum types, so a token is taken to name one kind of type, as in a bound schema.)
  Scanning a provider all of whose properties are required enters no token and sets no flag
  \<open>ptrElement\<close>: for the provider the marking depends on whether its properties are required.
\<close>

theorem scanResource_forces_pointer:
  "(partitionPackage p = Inr s' \<and> kindsDisjoint p
      \<and> r \<in> set (provider p # packageResources p)
      \<and> q \<in> set (inputProperties r @ properties r)
      \<and> (\<not> isProvider r \<or> \<not> isRequired q)
      \<and> typeToken (ptype q) = Some tok
      \<and> (tok, t) \<in> (nestedIn (objectTable p) (objectTokens (packageProperties p)))\<^sup>* \<longrightarrow>
      (\<exists>m. tokenToPackage (goModuleToPackage p) t = Inr m
         \<and> (t \<in> objectTokens (packageProperties p) \<longrightarrow> typeFlag ptrElement (snd s') m t)
         \<and> (t \<in> enumTokens (packageProperties p) \<longrightarrow> enumFlag ptrElement (snd s') m t)))
   \<and> (scanResource ov table s pr = Inr s'' \<and> isProvider pr
        \<and> (\<forall>q \<in> set (inputProperties pr @ properties pr). isRequired q) \<longrightarrow>
      fst s'' = fst s
      \<and> (\<forall>m tok. typeFlag ptrElement (snd s'') m tok = typeFlag ptrElement (snd s) m tok
            \<and> enumFlag ptrElement (snd s'') m tok = enumFlag ptrElement (snd s) m tok))"
proof (intro conjI impI allI)
  assume "partitionPackage p = Inr s' \<and> kindsDisjoint p
      \<and> r \<in> set (provider p # packageResources p)
      \<and> q \<in> set (inputProperties r @ properties r)
      \<and> (\<not> isProvider r \<or> \<not> isRequired q)
      \<and> typeToken (ptype q) = Some tok
      \<and> (tok, t) \<in> (nestedIn (objectTable p) (objectTokens (packageProperties p)))\<^sup>*"
  then have "partitionPackage p = Inr s'" "kindsDisjoint p"
    "r \<in> set (provider p # packageResources p)"
    "q \<in> set (inputProperties r @ properties r)" "\<not> isRequired q \<or> \<not> isProvider r"
    "typeToken (ptype q) = Some tok"
    "(tok, t) \<in> (nestedIn (objectTable p) (objectTokens (packageProperties p)))\<^sup>*"
    by auto
  then show "\<exists>m. tokenToPackage (goModuleToPackage p) t = Inr m
         \<and> (t \<in> objectTokens (packageProperties p) \<longrightarrow> typeFlag ptrElement (snd s') m t)
         \<and> (t \<in> enumTokens (packageProperties p) \<longrightarrow> enumFlag ptrElement (snd s') m t)"
    by (rule partitionPackage_marks)
next
  assume a: "scanResource ov table s pr = Inr s'' \<and> isProvider pr
        \<and> (\<forall>q \<in> set (inputProperties pr @ properties pr). isRequired q)"
  then show "fst s'' = fst s"
    using scanResource_provider_required[of ov table s pr s''] by blast
next
  fix m tok
  assume a: "scanResource ov table s pr = Inr s'' \<and> isProvider pr
        \<and> (\<forall>q \<in> set (inputProperties pr @ properties pr). isRequired q)"
  then show "typeFlag ptrElement (snd s'') m tok = typeFlag ptrElement (snd s) m tok"
    using scanResource_provider_required[of ov table s pr s'' m tok] by blast
next
  fix m tok
  assume a: "scanResource ov table s pr = Inr s'' \<and> isProvider pr
        \<and> (\<forall>q \<in> set (inputProperties pr @ properties pr). isRequired q)"
  then show "enumFlag ptrElement (snd s'') m tok = enumFlag ptrElement (snd s) m tok"
    using scanResource_provider_required[of ov table s pr s'' m tok] by blast
qed

text \<open>
  The theorem at the package of \<open>Holder\<close>: the required property \<open>outer\<close> of the resource
  leads through \<open>Outer\<close> and \<open>Inner\<close> to the enum \<open>Color\<close>, and all three are marked; the
  required property \<open>settings\<close> of the provider leaves \<open>Settings\<close> unmarked.
\<close>

theorem scanResource_forces_pointer_witness:
  "(\<exists>s1. partitionPackage holderPackage = Inr s1)
   \<and> kindsDisjoint holderPackage
   \<and> holderResource \<in> set (packageResources holderPackage)
   \<and> \<not> isProvider holderResource
   \<and> requiredProperty ''outer'' (ObjectType ''p:m:Outer'' (Some examplePackage))
        \<in> set (inputProperties holderResource)
   \<and> isRequired (requiredProperty ''outer'' (ObjectType ''p:m:Outer'' (Some examplePackage)))
   \<and> (''p:m:Outer'', ''p:m:Color'')
        \<in> (nestedIn (objectTable holderPackage)
              (objectTokens (packageProperties holderPackage)))\<^sup>*
   \<and> ''p:m:Color'' \<in> enumTokens (packageProperties holderPackage)
   \<and> enumFlag ptrElement (snd (projr (partitionPackage holderPackage))) ''m'' ''p:m:Color''
   \<and> ''p:m:Outer'' \<in> objectTokens (packageProperties holderPackage)
   \<and> typeFlag ptrElement (snd (projr (partitionPackage holderPackage))) ''m'' ''p:m:Outer''
   \<and> isProvider holderProvider
   \<and> list_all isRequired (inputProperties holderProvider @ properties holderProvider)
   \<and> (\<exists>s2. scanResource Map.empty holderTable ({}, Map.empty) holderProvider = Inr s2)
   \<and> fst (projr (scanResource Map.empty holderTable ({}, Map.empty) holderProvider)) = {}
   \<and> \<not> typeFlag ptrElement
          (snd (projr (scanResource Map.empty holderTable ({}, Map.empty) holderProvider)))
          ''m'' ''p:m:Settings''"
proof -
  let ?outer = "requiredProperty ''outer'' (ObjectType ''p:m:Outer'' (Some examplePackage))"
  let ?objs = "objectTokens (packageProperties holderPackage)"
  let ?scan = "scanResource Map.empty holderTable ({}, Map.empty) holderProvider"
  have ret: "\<exists>s1. partitionPackage holderPackage = Inr s1"
    by (simp add: holder_defs eval_defs)
  then have eq: "partitionPackage holderPackage = Inr (projr (partitionPackage holderPackage))"
    by auto
  have disj: "kindsDisjoint holderPackage"
    by (auto simp: holder_defs scenario_defs)
  have r: "holderResource \<in> set (provider holderPackage # packageResources holderPackage)"
    "holderResource \<in> set (packageResources holderPackage)"
    by (simp_all add: holder_defs)
  have np: "\<not> isProvider holderResource"
    by (simp add: holder_defs)
  have q: "?outer \<in> set (inputProperties holderResource @ properties holderResource)"
    "?outer \<in> set (inputProperties holderResource)"
    by (simp_all add: holder_defs)
  have req: "isRequired ?outer"
    by (simp add: holder_defs)
  have tok: "typeToken (ptype ?outer) = Some ''p:m:Outer''"
    by (simp add: holder_defs)
  have outer: "''p:m:Outer'' \<in> ?objs" and inner: "''p:m:Inner'' \<in> ?objs"
    and color: "''p:m:Color'' \<in> enumTokens (packageProperties holderPackage)"
    by (simp_all add: holder_defs scenario_defs)
  have "(''p:m:Outer'', ''p:m:Inner'') \<in> nestedIn (objectTable holderPackage) ?objs"
    using outer by (simp add: nestedIn_def propertyTokens_def typeToken_def propertiesOf_def
        holderPackage_def holderTable_def requiredProperty_def)
  moreover have "(''p:m:Inner'', ''p:m:Color'') \<in> nestedIn (objectTable holderPackage) ?objs"
    using inner by (simp add: nestedIn_def propertyTokens_def typeToken_def propertiesOf_def
        holderPackage_def holderTable_def requiredProperty_def)
  ultimately have path: "(''p:m:Outer'', ''p:m:Color'')
      \<in> (nestedIn (objectTable holderPackage) ?objs)\<^sup>*"
    by (meson r_into_rtrancl rtrancl_trans)
  have m: "tokenToPackage (goModuleToPackage holderPackage) ''p:m:Color'' = Inr ''m''"
    "tokenToPackage (goModuleToPackage holderPackage) ''p:m:Outer'' = Inr ''m''"
    by (simp_all add: holder_defs eval_defs)
  have prov: "isProvider holderProvider"
    "\<forall>q \<in> set (inputProperties holderProvider @ properties holderProvider). isRequired q"
    by (simp_all add: holder_defs)
  have la: "list_all isRequired (inputProperties holderProvider @ properties holderProvider)"
    by (simp add: holder_defs)
  have sret: "\<exists>s2. ?scan = Inr s2"
    by (simp add: holder_defs eval_defs scanResource_def)
  then have seq: "?scan = Inr (projr ?scan)"
    by auto
  have empty: "\<not> typeFlag ptrElement (snd ({}, Map.empty)) ''m'' ''p:m:Settings''"
    by (simp add: typeFlag_def eval_defs)
  note deep = scanResource_forces_pointer[of holderPackage
      "projr (partitionPackage holderPackage)" holderResource ?outer "''p:m:Outer''"
      "''p:m:Color''" Map.empty holderTable "({}, Map.empty)" holderProvider "projr ?scan"]
  note direct = scanResource_forces_pointer[of holderPackage
      "projr (partitionPackage holderPackage)" holderResource ?outer "''p:m:Outer''"
      "''p:m:Outer''" Map.empty holderTable "({}, Map.empty)" holderProvider "projr ?scan"]
  from deep eq disj r(1) q(1) np tok path m(1) color
  have c: "enumFlag ptrElement (snd (projr (partitionPackage holderPackage))) ''m''
      ''p:m:Color''"
    by auto
  from direct eq disj r(1) q(1) np tok m(2) outer
  have o: "typeFlag ptrElement (snd (projr (partitionPackage holderPackage))) ''m''
      ''p:m:Outer''"
    by auto
  from deep seq prov
  have p: "fst (projr ?scan) = {}
      \<and> (\<forall>m tok. typeFlag ptrElement (snd (projr ?scan)) m tok
            = typeFlag ptrElement (snd ({}, Map.empty)) m tok)"
    by auto
  with empty have n: "fst (projr ?scan) = {}"
    "\<not> typeFlag ptrElement (snd (projr ?scan)) ''m'' ''p:m:Settings''"
    by auto
  from ret disj r(2) np q(2) req path color c outer o prov(1) la sret n show ?thesis
    by (intro conjI)
qed

end
